(* ===== verification/Prelude.thy ===== *)
theory Prelude
  imports Main "HOL-Library.Sublist" "HOL-Library.List_Lexorder" "HOL-Library.Char_ord"
begin

text \<open>
  Shared vocabulary of the development: the names of the base types, the collections of
  hints the components extend, 64-bit wrap-around, and the generic facts on lists (rows
  of a table, lookups, filters, maps that rewrite some rows) every component uses.
\<close>

section \<open>Names of types\<close>

text \<open>
  A Go string is a byte string, so it is a list of 8-bit characters here and
  \<^verbatim>\<open>length\<close> counts bytes. A point in time is its number of nanoseconds since
  January 1 of year 1 UTC, the instant for which \<^verbatim>\<open>IsZero\<close> holds; instants compare
  as absolute UTC values.
\<close>

type_synonym bytes = string
type_synonym time = int
type_synonym id = nat

definition zero_time :: time where
  "zero_time = 0"

definition second_ns :: int where
  "second_ns = 1000000000"

definition minute_ns :: int where
  "minute_ns = 60 * second_ns"

definition hour_ns :: int where
  "hour_ns = 60 * minute_ns"

lemma hour_ns_pos [simp]: "0 < hour_ns"
  by (simp add: hour_ns_def minute_ns_def second_ns_def)

lemma minute_ns_pos [simp]: "0 < minute_ns"
  by (simp add: minute_ns_def second_ns_def)

text \<open>Collections: facts that unfold effects, that invert them, and that speak of rows.\<close>

named_theorems go_simps
named_theorems go_elims
named_theorems row_simps

section \<open>Signed 64-bit arithmetic\<close>

definition wrap64 :: "int \<Rightarrow> int" where
  "wrap64 x = (x + 2 ^ 63) mod 2 ^ 64 - 2 ^ 63"

lemma wrap64_id: "- (2 ^ 63) \<le> x \<Longrightarrow> x < 2 ^ 63 \<Longrightarrow> wrap64 x = x"
  by (simp add: wrap64_def)

lemma wrap64_range: "- (2 ^ 63) \<le> wrap64 x \<and> wrap64 x < 2 ^ 63"
proof -
  have "0 \<le> (x + 2 ^ 63) mod 2 ^ 64" "(x + 2 ^ 63) mod 2 ^ 64 < (2::int) ^ 64"
    by simp_all
  then show ?thesis by (simp add: wrap64_def)
qed

lemma wrap64_max: "wrap64 (2 ^ 63) = - (2 ^ 63)"
  by (simp add: wrap64_def)

section \<open>Rows\<close>

text \<open>The first row, in the order of a key, among those a condition selects.\<close>

definition first_row :: "('r \<Rightarrow> 'k::linorder) \<Rightarrow> ('r \<Rightarrow> bool) \<Rightarrow> 'r list \<Rightarrow> 'r option" where
  "first_row key P rows =
     (case sort_key key (filter P rows) of [] \<Rightarrow> None | r # _ \<Rightarrow> Some r)"

lemma first_row_Some: "first_row key P rows = Some r \<Longrightarrow> r \<in> set rows \<and> P r"
proof -
  assume a: "first_row key P rows = Some r"
  then obtain rs where "sort_key key (filter P rows) = r # rs"
    by (auto simp: first_row_def split: list.splits)
  then have "r \<in> set (sort_key key (filter P rows))" by simp
  then show ?thesis by simp
qed

lemma first_row_None [row_simps]: "first_row key P rows = None \<longleftrightarrow> (\<forall>r\<in>set rows. \<not> P r)"
proof -
  have "first_row key P rows = None \<longleftrightarrow> set (sort_key key (filter P rows)) = {}"
    by (simp add: first_row_def del: set_sort split: list.splits)
  then show ?thesis by auto
qed

lemma first_row_least:
  assumes "first_row key P rows = Some r" and "q \<in> set rows" and "P q"
  shows "key r \<le> key q"
proof -
  from assms(1) obtain rs where rs: "sort_key key (filter P rows) = r # rs"
    by (auto simp: first_row_def split: list.splits)
  have "sorted (map key (r # rs))" by (metis rs sorted_sort_key)
  moreover have "q \<in> set (r # rs)" using assms(2,3) by (metis (mono_tags) filter_set mem_Collect_eq rs set_filter set_sort)
  ultimately show ?thesis by auto
qed

lemma first_row_unique:
  assumes "r \<in> set rows" and "P r" and "\<And>q. q \<in> set rows \<Longrightarrow> P q \<Longrightarrow> q = r"
  shows "first_row key P rows = Some r"
proof (cases "first_row key P rows")
  case None
  with assms(1,2) show ?thesis by (auto simp: first_row_None)
next
  case (Some q)
  with assms(3) first_row_Some [OF Some] show ?thesis by auto
qed

text \<open>With distinct keys a row is determined by its key.\<close>

lemma distinct_key_eq:
  "distinct (map f xs) \<Longrightarrow> x \<in> set xs \<Longrightarrow> y \<in> set xs \<Longrightarrow> f x = f y \<Longrightarrow> x = y"
  by (simp add: distinct_map inj_on_def)

lemma first_row_by_key:
  assumes "distinct (map pk rows)" and "r \<in> set rows"
  shows "first_row key (\<lambda>q. pk q = pk r) rows = Some r"
  by (rule first_row_unique) (use assms in \<open>auto dest: distinct_key_eq\<close>)

lemma first_row_cong:
  "(\<And>r. r \<in> set rows \<Longrightarrow> P r = Q r) \<Longrightarrow> first_row key P rows = first_row key Q rows"
  by (simp add: first_row_def cong: filter_cong)

text \<open>Rewriting the selected rows of a table keeps its keys when the rewriting does.\<close>

definition modify :: "('r \<Rightarrow> bool) \<Rightarrow> ('r \<Rightarrow> 'r) \<Rightarrow> 'r list \<Rightarrow> 'r list" where
  "modify sel f rows = map (\<lambda>r. if sel r then f r else r) rows"

lemma map_modify:
  "(\<And>r. sel r \<Longrightarrow> k (f r) = k r) \<Longrightarrow> map k (modify sel f rows) = map k rows"
  by (simp add: modify_def)

lemma set_modify: "set (modify sel f rows) = f ` {r \<in> set rows. sel r} \<union> {r \<in> set rows. \<not> sel r}"
  by (auto simp: modify_def image_iff)

lemma in_set_modify:
  "x \<in> set (modify sel f rows) \<longleftrightarrow> (\<exists>r\<in>set rows. x = (if sel r then f r else r))"
  by (auto simp: modify_def)

lemma modify_other: "r \<in> set rows \<Longrightarrow> \<not> sel r \<Longrightarrow> r \<in> set (modify sel f rows)"
  by (auto simp: modify_def)

lemma filter_modify:
  "(\<And>r. sel r \<Longrightarrow> Q (f r) = Q r) \<Longrightarrow> filter Q (modify sel f rows) = modify sel f (filter Q rows)"
  by (induction rows) (auto simp: modify_def)

lemma modify_id: "(\<And>r. r \<in> set rows \<Longrightarrow> sel r \<Longrightarrow> f r = r) \<Longrightarrow> modify sel f rows = rows"
  by (auto simp: modify_def intro: map_idI)

lemma modify_none: "(\<And>r. r \<in> set rows \<Longrightarrow> \<not> sel r) \<Longrightarrow> modify sel f rows = rows"
  by (rule modify_id) auto

lemma length_modify [simp]: "length (modify sel f rows) = length rows"
  by (simp add: modify_def)

lemma modify_Nil [simp]: "modify sel f [] = []"
  by (simp add: modify_def)

lemma distinct_filter_map: "distinct (map f xs) \<Longrightarrow> distinct (map f (filter P xs))"
  by (induction xs) auto

end
