(* ===== verification/Go_Lib.thy ===== *)
theory Go_Lib
  imports Prelude
begin

text \<open>
  The parts of Go's standard library the program's rules rest on: \<^verbatim>\<open>strings\<close>,
  \<^verbatim>\<open>path\<close>, \<^verbatim>\<open>strconv\<close>, \<^verbatim>\<open>encoding/hex\<close>, \<^verbatim>\<open>unicode/utf8\<close> and the decoding of a
  JSON array of strings by \<^verbatim>\<open>encoding/json\<close>. They are written over byte strings,
  as Go's are. Nothing here maps to a line of the repository; the components call it.
\<close>

section \<open>Bytes\<close>

abbreviation byte :: "nat \<Rightarrow> char" where
  "byte n \<equiv> char_of n"

abbreviation code :: "char \<Rightarrow> nat" where
  "code c \<equiv> of_char c"

definition is_digit :: "char \<Rightarrow> bool" where
  "is_digit c \<longleftrightarrow> 48 \<le> code c \<and> code c \<le> 57"

definition is_hex :: "char \<Rightarrow> bool" where
  "is_hex c \<longleftrightarrow> is_digit c \<or> (97 \<le> code c \<and> code c \<le> 102) \<or> (65 \<le> code c \<and> code c \<le> 70)"

definition hex_value :: "char \<Rightarrow> nat" where
  "hex_value c =
     (if is_digit c then code c - 48
      else if 97 \<le> code c then code c - 87 else code c - 55)"

section \<open>strings\<close>

definition has_prefix :: "string \<Rightarrow> string \<Rightarrow> bool" where
  "has_prefix s p \<longleftrightarrow> take (length p) s = p"

definition has_suffix :: "string \<Rightarrow> string \<Rightarrow> bool" where
  "has_suffix s p \<longleftrightarrow> has_prefix (rev s) (rev p)"

fun contains :: "string \<Rightarrow> string \<Rightarrow> bool" where
  "contains [] p = (p = [])"
| "contains (c # s) p = (has_prefix (c # s) p \<or> contains s p)"

definition trim_suffix :: "string \<Rightarrow> string \<Rightarrow> string" where
  "trim_suffix s p = (if has_suffix s p then take (length s - length p) s else s)"

text \<open>\<^verbatim>\<open>strings.Cut(s, sep)\<close> for a separator of one byte: what is before it and after it.\<close>

definition cut :: "string \<Rightarrow> char \<Rightarrow> (string \<times> string) option" where
  "cut s c = (if c \<in> set s then Some (takeWhile (\<lambda>x. x \<noteq> c) s, tl (dropWhile (\<lambda>x. x \<noteq> c) s))
              else None)"

lemma cut_Some: "cut s c = Some (a, b) \<longleftrightarrow> s = a @ c # b \<and> c \<notin> set a"
proof
  assume h: "cut s c = Some (a, b)"
  then have c: "c \<in> set s" and a: "a = takeWhile (\<lambda>x. x \<noteq> c) s"
    and b: "b = tl (dropWhile (\<lambda>x. x \<noteq> c) s)" by (auto simp: cut_def split: if_splits)
  from c have ne: "dropWhile (\<lambda>x. x \<noteq> c) s \<noteq> []" by (simp add: dropWhile_eq_Nil_conv)
  then have "hd (dropWhile (\<lambda>x. x \<noteq> c) s) = c" using hd_dropWhile by blast
  with ne b have "dropWhile (\<lambda>x. x \<noteq> c) s = c # b" by (metis list.collapse)
  with a have "s = a @ c # b" by (metis takeWhile_dropWhile_id)
  moreover have "c \<notin> set a" using a by (auto dest: set_takeWhileD)
  ultimately show "s = a @ c # b \<and> c \<notin> set a" by simp
next
  assume h: "s = a @ c # b \<and> c \<notin> set a"
  then have "\<forall>x\<in>set a. x \<noteq> c" by auto
  with h have "takeWhile (\<lambda>x. x \<noteq> c) s = a" "dropWhile (\<lambda>x. x \<noteq> c) s = c # b"
    by (simp_all add: takeWhile_append2 dropWhile_append2)
  with h show "cut s c = Some (a, b)" by (simp add: cut_def)
qed

text \<open>
  \<^verbatim>\<open>strings.TrimSpace\<close> removes the Unicode white space at both ends. A rune is at an
  end of a byte string exactly when its UTF-8 encoding is a prefix (a suffix) of it, so
  trimming removes those encodings: the six ASCII spaces, U+0085, U+00A0, U+1680,
  U+2000 to U+200A, U+2028, U+2029, U+202F, U+205F and U+3000.
\<close>

definition space_encodings :: "string list" where
  "space_encodings =
     [[CHR 0x09], [CHR 0x0A], [CHR 0x0B], [CHR 0x0C], [CHR 0x0D], [CHR 0x20],
      [CHR 0xC2, CHR 0x85], [CHR 0xC2, CHR 0xA0], [CHR 0xE1, CHR 0x9A, CHR 0x80],
      [CHR 0xE2, CHR 0x80, CHR 0x80], [CHR 0xE2, CHR 0x80, CHR 0x81],
      [CHR 0xE2, CHR 0x80, CHR 0x82], [CHR 0xE2, CHR 0x80, CHR 0x83],
      [CHR 0xE2, CHR 0x80, CHR 0x84], [CHR 0xE2, CHR 0x80, CHR 0x85],
      [CHR 0xE2, CHR 0x80, CHR 0x86], [CHR 0xE2, CHR 0x80, CHR 0x87],
      [CHR 0xE2, CHR 0x80, CHR 0x88], [CHR 0xE2, CHR 0x80, CHR 0x89],
      [CHR 0xE2, CHR 0x80, CHR 0x8A], [CHR 0xE2, CHR 0x80, CHR 0xA8],
      [CHR 0xE2, CHR 0x80, CHR 0xA9], [CHR 0xE2, CHR 0x80, CHR 0xAF],
      [CHR 0xE2, CHR 0x81, CHR 0x9F], [CHR 0xE3, CHR 0x80, CHR 0x80]]"

function trim_with :: "string list \<Rightarrow> string \<Rightarrow> string" where
  "trim_with es s =
     (case find (\<lambda>e. e \<noteq> [] \<and> has_prefix s e) es of
        None \<Rightarrow> s
      | Some e \<Rightarrow> trim_with es (drop (length e) s))"
  by pat_completeness auto
termination
proof (relation "measure (\<lambda>(es, s). length s)", goal_cases)
  case 1
  show ?case by simp
next
  case (2 es s e)
  then have "e \<noteq> []" "take (length e) s = e"
    by (auto simp: find_Some_iff has_prefix_def)
  then have "s \<noteq> []" by auto
  with \<open>e \<noteq> []\<close> show ?case by simp
qed

declare trim_with.simps [simp del]

definition trim_space :: "string \<Rightarrow> string" where
  "trim_space s = rev (trim_with (map rev space_encodings) (rev (trim_with space_encodings s)))"

lemma trim_with_suffix: "\<exists>k. trim_with es s = drop k s"
proof (induction es s rule: trim_with.induct)
  case (1 es s)
  show ?case
  proof (cases "find (\<lambda>e. e \<noteq> [] \<and> has_prefix s e) es")
    case None
    then have "trim_with es s = drop 0 s" by (subst trim_with.simps) simp
    then show ?thesis by blast
  next
    case (Some e)
    with 1 obtain k where "trim_with es (drop (length e) s) = drop k (drop (length e) s)" by blast
    with Some have "trim_with es s = drop (k + length e) s"
      by (subst trim_with.simps) (simp add: add.commute)
    then show ?thesis by blast
  qed
qed

lemma trim_with_stops: "find (\<lambda>e. e \<noteq> [] \<and> has_prefix (trim_with es s) e) es = None"
proof (induction es s rule: trim_with.induct)
  case (1 es s)
  then show ?case
    by (subst (1) trim_with.simps) (auto split: option.splits)
qed

lemma trim_with_fix: "find (\<lambda>e. e \<noteq> [] \<and> has_prefix s e) es = None \<Longrightarrow> trim_with es s = s"
  by (subst trim_with.simps) simp

lemma trim_with_Nil [simp]: "trim_with es [] = []"
  by (rule trim_with_fix) (auto simp: find_None_iff has_prefix_def)

lemma trim_space_Nil [simp]: "trim_space [] = []"
  by (simp add: trim_space_def)

lemma has_prefix_take: "has_prefix (take k s) e \<Longrightarrow> has_prefix s e"
proof -
  assume h: "has_prefix (take k s) e"
  then have "take (min (length e) k) s = e" by (simp add: has_prefix_def min.commute)
  moreover have "length e \<le> k \<or> length s < k \<or> length e \<le> length s"
    using h by (simp add: has_prefix_def) (metis length_take linear min.bounded_iff)
  ultimately show ?thesis
    unfolding has_prefix_def by (metis append_take_drop_id take_take min.commute length_take
        append_eq_conv_conj min_def)
qed

lemma trim_space_length: "length (trim_space s) \<le> length s"
proof -
  obtain k where k: "trim_with space_encodings s = drop k s"
    using trim_with_suffix by blast
  obtain j where "trim_with (map rev space_encodings) (rev (drop k s)) = drop j (rev (drop k s))"
    using trim_with_suffix by blast
  with k show ?thesis by (simp add: trim_space_def)
qed

lemma trim_space_idem [simp]: "trim_space (trim_space s) = trim_space s"
proof -
  let ?L = "trim_with space_encodings" and ?R = "trim_with (map rev space_encodings)"
  let ?t = "trim_space s"
  obtain j where j: "?R (rev (?L s)) = drop j (rev (?L s))" using trim_with_suffix by blast
  have t: "?t = take (length (?L s) - j) (?L s)"
    unfolding trim_space_def j by (simp add: rev_drop)
  have "find (\<lambda>e. e \<noteq> [] \<and> has_prefix ?t e) space_encodings = None"
    using trim_with_stops [of space_encodings s] has_prefix_take
    unfolding t find_None_iff by blast
  then have left: "?L ?t = ?t" by (rule trim_with_fix)
  have "rev ?t = ?R (rev (?L s))" by (simp add: trim_space_def)
  then have "find (\<lambda>e. e \<noteq> [] \<and> has_prefix (rev ?t) e) (map rev space_encodings) = None"
    using trim_with_stops [of "map rev space_encodings" "rev (?L s)"] by simp
  then have "?R (rev ?t) = rev ?t" by (rule trim_with_fix)
  with left show ?thesis by (simp add: trim_space_def [of ?t])
qed

text \<open>
  \<^verbatim>\<open>strings.ToLower\<close> on the ASCII letters, and on the two runes outside ASCII whose lower
  case is an ASCII letter (U+0130, encoded C4 B0, gives \<^verbatim>\<open>i\<close>; U+212A, encoded E2 84 AA,
  gives \<^verbatim>\<open>k\<close>). Other runes are kept, which a comparison of the result with an ASCII
  string cannot tell from the full Unicode table.
\<close>

fun to_lower_ascii :: "string \<Rightarrow> string" where
  "to_lower_ascii [] = []"
| "to_lower_ascii (c # s) =
     (if 65 \<le> code c \<and> code c \<le> 90 then byte (code c + 32) # to_lower_ascii s
      else case s of
             d # s' \<Rightarrow>
               if code c = 196 \<and> code d = 176 then CHR ''i'' # to_lower_ascii s'
               else (case s' of
                       e # s'' \<Rightarrow> if code c = 226 \<and> code d = 132 \<and> code e = 170
                                  then CHR ''k'' # to_lower_ascii s'' else c # to_lower_ascii s
                     | [] \<Rightarrow> c # to_lower_ascii s)
           | [] \<Rightarrow> c # to_lower_ascii s)"

section \<open>path\<close>

definition slash :: char where
  "slash = CHR 0x2F"

definition last_segment :: "string \<Rightarrow> string" where
  "last_segment p = rev (takeWhile (\<lambda>c. c \<noteq> slash) (rev p))"

definition path_base :: "string \<Rightarrow> string" where
  "path_base p =
     (if p = [] then ''.''
      else let q = rev (dropWhile (\<lambda>c. c = slash) (rev p)); b = last_segment q
           in if b = [] then [slash] else b)"

definition path_ext :: "string \<Rightarrow> string" where
  "path_ext p =
     (let t = last_segment p
      in if CHR ''.'' \<in> set t then CHR ''.'' # rev (takeWhile (\<lambda>c. c \<noteq> CHR ''.'') (rev t)) else [])"

definition path_is_abs :: "string \<Rightarrow> bool" where
  "path_is_abs p \<longleftrightarrow> (case p of [] \<Rightarrow> False | c # _ \<Rightarrow> c = slash)"

fun split_on :: "char \<Rightarrow> string \<Rightarrow> string list" where
  "split_on d [] = [[]]"
| "split_on d (c # s) =
     (if c = d then [] # split_on d s
      else case split_on d s of [] \<Rightarrow> [[c]] | w # ws \<Rightarrow> (c # w) # ws)"

fun join_with :: "char \<Rightarrow> string list \<Rightarrow> string" where
  "join_with d [] = []"
| "join_with d [w] = w"
| "join_with d (w # ws) = w @ d # join_with d ws"

text \<open>The segments \<^verbatim>\<open>path.Clean\<close> keeps, latest first: \<^verbatim>\<open>..\<close> removes the one before it.\<close>

fun clean_segments :: "bool \<Rightarrow> string list \<Rightarrow> string list \<Rightarrow> string list" where
  "clean_segments rooted acc [] = rev acc"
| "clean_segments rooted acc (w # ws) =
     (if w = [] \<or> w = ''.'' then clean_segments rooted acc ws
      else if w = ''..'' then
        (case acc of
           [] \<Rightarrow> clean_segments rooted (if rooted then [] else [''..'']) ws
         | v # vs \<Rightarrow> clean_segments rooted (if v = ''..'' then ''..'' # acc else vs) ws)
      else clean_segments rooted (w # acc) ws)"

definition path_clean :: "string \<Rightarrow> string" where
  "path_clean p =
     (if p = [] then ''.''
      else let rooted = path_is_abs p;
               body = join_with slash (clean_segments rooted [] (split_on slash p))
           in if rooted then slash # body else if body = [] then ''.'' else body)"

definition path_join :: "string \<Rightarrow> string \<Rightarrow> string" where
  "path_join a b =
     (if a = [] then (if b = [] then [] else path_clean b)
      else if b = [] then path_clean a else path_clean (a @ slash # b))"

lemma last_segment_id:
  assumes "slash \<notin> set p"
  shows "last_segment p = p"
proof -
  have "takeWhile (\<lambda>c. c \<noteq> slash) (rev p) = rev p"
    by (rule takeWhile_eq_all_conv [THEN iffD2]) (use assms in auto)
  then show ?thesis unfolding last_segment_def by (simp only: rev_rev_ident)
qed

lemma slash_last_segment: "slash \<notin> set (last_segment p)"
  by (auto simp: last_segment_def dest: set_takeWhileD)

lemma split_on_none: "d \<notin> set s \<Longrightarrow> split_on d s = [s]"
  by (induction s) auto

section \<open>Decimal text\<close>

fun digits_of :: "nat \<Rightarrow> nat \<Rightarrow> string" where
  "digits_of 0 n = []"
| "digits_of (Suc k) n = (if n < 10 then [byte (48 + n)] else digits_of k (n div 10) @ [byte (48 + n mod 10)])"

text \<open>\<^verbatim>\<open>%d\<close> of a number that is not negative.\<close>

definition decimal :: "nat \<Rightarrow> string" where
  "decimal n = digits_of (Suc n) n"

text \<open>\<^verbatim>\<open>strconv.Itoa\<close>.\<close>

definition int_text :: "int \<Rightarrow> string" where
  "int_text i = (if i < 0 then CHR 0x2D # decimal (nat (- i)) else decimal (nat i))"

section \<open>strconv and encoding/hex\<close>

fun digits_value :: "nat \<Rightarrow> string \<Rightarrow> nat option" where
  "digits_value acc [] = Some acc"
| "digits_value acc (c # s) =
     (if is_digit c then digits_value (10 * acc + (code c - 48)) s else None)"

text \<open>\<^verbatim>\<open>strconv.ParseUint(s, 10, 64)\<close>: digits only, and in range; \<^verbatim>\<open>None\<close> is the error.\<close>

definition parse_uint64 :: "string \<Rightarrow> nat option" where
  "parse_uint64 s =
     (if s = [] then None
      else case digits_value 0 s of
             None \<Rightarrow> None
           | Some n \<Rightarrow> if n < 2 ^ 64 then Some n else None)"

text \<open>\<^verbatim>\<open>strconv.ParseInt(s, 10, 64)\<close>, which \<^verbatim>\<open>strconv.Atoi\<close> is on a 64-bit target.\<close>

definition parse_int64 :: "string \<Rightarrow> int option" where
  "parse_int64 s =
     (case s of
        [] \<Rightarrow> None
      | c # r \<Rightarrow>
          (let neg = (c = CHR ''-''); body = (if neg \<or> c = CHR ''+'' then r else s)
           in case parse_uint64 body of
                None \<Rightarrow> None
              | Some n \<Rightarrow>
                  if neg then (if n \<le> 2 ^ 63 then Some (- int n) else None)
                  else (if n < 2 ^ 63 then Some (int n) else None)))"

lemma parse_uint64_bound: "parse_uint64 s = Some n \<Longrightarrow> n < 2 ^ 64"
  by (auto simp: parse_uint64_def split: if_splits option.splits)

lemma parse_int64_bound: "parse_int64 s = Some x \<Longrightarrow> - (2 ^ 63) \<le> x \<and> x < 2 ^ 63"
  by (auto simp: parse_int64_def Let_def split: list.splits if_splits option.splits)

text \<open>A number is read back from its text, so the text determines it.\<close>

lemma digits_value_append:
  "digits_value acc (s @ t) = (case digits_value acc s of None \<Rightarrow> None | Some n \<Rightarrow> digits_value n t)"
  by (induction s arbitrary: acc) auto

lemma digit_byte: "n < 10 \<Longrightarrow> is_digit (byte (48 + n)) \<and> (code (byte (48 + n)) :: nat) = 48 + n"
  by (simp add: is_digit_def)

lemma digits_of_value: "n < k \<Longrightarrow> digits_value 0 (digits_of k n) = Some n"
proof (induction k n rule: digits_of.induct)
  case (2 k n)
  show ?case
  proof (cases "n < 10")
    case False
    with 2 have "digits_value 0 (digits_of k (n div 10)) = Some (n div 10)" by simp
    with False show ?thesis using digit_byte [of "n mod 10"] by (simp add: digits_value_append)
  qed (simp add: digit_byte)
qed simp

lemma decimal_inj [simp]: "decimal m = decimal n \<longleftrightarrow> m = n"
  using digits_of_value [of m "Suc m"] digits_of_value [of n "Suc n"] by (auto simp: decimal_def)

lemma decimal_digits: "n < k \<Longrightarrow> c \<in> set (digits_of k n) \<Longrightarrow> is_digit c"
  by (induction k n arbitrary: c rule: digits_of.induct) (auto simp: digit_byte split: if_splits)

lemma digits_nonempty: "digits_of (Suc k) n \<noteq> []"
  by simp

lemma decimal_nonempty [simp]: "decimal n \<noteq> []"
  unfolding decimal_def by (rule digits_nonempty)

lemma decimal_all_digits: "c \<in> set (decimal n) \<Longrightarrow> is_digit c"
  unfolding decimal_def by (rule decimal_digits [OF lessI])

lemma decimal_unsigned: "CHR ''-'' \<notin> set (decimal n)" "CHR ''+'' \<notin> set (decimal n)"
  using decimal_all_digits [of "CHR ''-''" n] decimal_all_digits [of "CHR ''+''" n] by (auto simp: is_digit_def)

lemma int_text_inj [simp]: "int_text i = int_text j \<longleftrightarrow> i = j"
proof -
  have "CHR 0x2D # s \<noteq> decimal n" for s n
    using decimal_unsigned(1) [of n] by (metis list.set_intros(1))
  then show ?thesis by (auto simp only: int_text_def decimal_inj list.inject split: if_splits) (metis)+
qed

lemma parse_decimal: "n < 2 ^ 64 \<Longrightarrow> parse_uint64 (decimal n) = Some n"
  using digits_of_value [OF lessI, of n] decimal_nonempty [of n]
  by (simp only: parse_uint64_def decimal_def if_False if_True option.case)

lemma parse_int_text: "- (2 ^ 63) \<le> i \<Longrightarrow> i < 2 ^ 63 \<Longrightarrow> parse_int64 (int_text i) = Some i"
proof (cases "i < 0")
  case True
  moreover assume "- (2 ^ 63) \<le> i" "i < 2 ^ 63"
  ultimately show ?thesis by (simp add: int_text_def parse_int64_def parse_decimal)
next
  case False
  assume "i < 2 ^ 63"
  with False obtain n where n: "i = int n" "n < 2 ^ 63" by (metis nonneg_int_cases linorder_not_less of_nat_less_iff of_nat_numeral of_nat_power)
  obtain c r where c: "decimal n = c # r" by (cases "decimal n") auto
  then have "c \<noteq> CHR ''-''" "c \<noteq> CHR ''+''" using decimal_unsigned [of n] by auto
  with n c parse_decimal [of n] show ?thesis by (simp add: int_text_def parse_int64_def)
qed

definition hex_digit :: "nat \<Rightarrow> char" where
  "hex_digit n = ''0123456789abcdef'' ! n"

text \<open>\<^verbatim>\<open>hex.EncodeToString\<close>, which \<^verbatim>\<open>fmt.Sprintf\<close> with the verb \<^verbatim>\<open>%x\<close> also is on bytes.\<close>

fun hex_encode :: "bytes \<Rightarrow> string" where
  "hex_encode [] = []"
| "hex_encode (c # s) = hex_digit (code c div 16) # hex_digit (code c mod 16) # hex_encode s"

fun hex_decode :: "string \<Rightarrow> bytes option" where
  "hex_decode [] = Some []"
| "hex_decode [c] = None"
| "hex_decode (c # d # s) =
     (if is_hex c \<and> is_hex d
      then map_option ((#) (byte (16 * hex_value c + hex_value d))) (hex_decode s)
      else None)"

lemma length_hex_encode [simp]: "length (hex_encode s) = 2 * length s"
  by (induction s) auto

lemma hex_digit_byte: "n < 16 \<Longrightarrow> hex_digit n = byte (if n < 10 then 48 + n else 87 + n)"
proof -
  have "list_all (\<lambda>n. hex_digit n = byte (if n < 10 then 48 + n else 87 + n)) [0..<16]" by code_simp
  then show "n < 16 \<Longrightarrow> hex_digit n = byte (if n < 10 then 48 + n else 87 + n)" by (simp add: list_all_iff)
qed

lemma code_hex_digit: "n < 16 \<Longrightarrow> code (hex_digit n) = (if n < 10 then 48 + n else 87 + n)"
  by (simp add: hex_digit_byte)

lemma hex_digit_ok: "n < 16 \<Longrightarrow> is_hex (hex_digit n) \<and> hex_value (hex_digit n) = n"
  by (auto simp: is_hex_def is_digit_def hex_value_def code_hex_digit)

lemma code_nibbles: "code c div 16 < (16::nat)" "code c mod 16 < (16::nat)"
proof -
  have "code c < (256::nat)" by simp
  then show "code c div 16 < (16::nat)" by arith
qed simp

lemma hex_roundtrip: "hex_decode (hex_encode s) = Some s"
proof (induction s)
  case (Cons c s)
  then show ?case using code_nibbles [of c] by (simp add: hex_digit_ok)
qed simp

lemma hex_encode_inj: "hex_encode a = hex_encode b \<Longrightarrow> a = b"
  by (metis hex_roundtrip option.inject)

lemma slash_hex_encode: "slash \<notin> set (hex_encode s)"
proof (induction s)
  case (Cons c s)
  have "slash \<noteq> hex_digit n" if "n < 16" for n
  proof
    assume "slash = hex_digit n"
    then have "code slash = (code (hex_digit n) :: nat)" by simp
    with that show False by (simp add: code_hex_digit slash_def split: if_splits)
  qed
  with Cons code_nibbles [of c] show ?case by simp
qed simp

lemma path_base_id:
  assumes "slash \<notin> set p" and "p \<noteq> []"
  shows "path_base p = p"
proof -
  have "dropWhile (\<lambda>c. c = slash) (rev p) = rev p"
  proof (rule dropWhile_eq_self_iff [THEN iffD2])
    show "rev p = [] \<or> hd (rev p) \<noteq> slash"
      using assms by (metis hd_in_set set_rev)
  qed
  with assms show ?thesis by (simp add: path_base_def last_segment_id)
qed

lemma slash_path_base: "path_base p = p \<Longrightarrow> p \<noteq> [slash] \<Longrightarrow> slash \<notin> set p \<and> p \<noteq> []"
proof -
  assume h: "path_base p = p" "p \<noteq> [slash]"
  then have "p \<noteq> []" by (auto simp: path_base_def)
  with h have "p = last_segment (rev (dropWhile (\<lambda>c. c = slash) (rev p)))"
    by (auto simp: path_base_def Let_def split: if_splits)
  then show ?thesis using slash_last_segment \<open>p \<noteq> []\<close> by metis
qed

end
