(* ===== verification/Effects.thy ===== *)
theory Effects
  imports Go_Lib
begin

text \<open>
  Errors, the outside world and sequencing. An operation of the program is a function of
  the environment (what the outside answers, call by call) and of the world (the database,
  the artifact directory and the number of calls made so far); it returns an error or a
  value, and the world it leaves. Every call to the database engine, the file system, the
  clock and the random source is numbered, and the environment says for each number whether
  the call fails and what it answers, so a theorem that holds for every environment holds
  for every schedule of operational failures, cancelled requests included.
\<close>

section \<open>Errors\<close>

datatype go_error =
    ErrUnauthorized
  | ErrForbidden
  | ErrConflict
  | ErrRecordNotFound
  | ErrDuplicatedKey
  | ErrForeignKey
  | ErrCheckConstraint
  | ErrNotDraft
  | ErrTooLarge
  | ErrQuota
  | ErrMaxBytes
  | ErrNotExist
  | ValidationError string
  | ErrMessage string
  | ErrOperational nat
  | Wrapped string go_error
  | WithText go_error string

text \<open>\<^verbatim>\<open>errors.Is\<close>: a target is found anywhere in the chain of wrapped errors.\<close>

fun errors_is :: "go_error \<Rightarrow> go_error \<Rightarrow> bool" where
  "errors_is (Wrapped m e) t = (Wrapped m e = t \<or> errors_is e t)"
| "errors_is (WithText e m) t = (WithText e m = t \<or> errors_is e t)"
| "errors_is e t = (e = t)"

text \<open>\<^verbatim>\<open>errors.As\<close> with a validation error as the target.\<close>

fun as_validation :: "go_error \<Rightarrow> string option" where
  "as_validation (ValidationError m) = Some m"
| "as_validation (Wrapped m e) = as_validation e"
| "as_validation (WithText e m) = as_validation e"
| "as_validation _ = None"

text \<open>The text of an error, which some messages to the client include.\<close>

fun error_text :: "go_error \<Rightarrow> string" where
  "error_text ErrUnauthorized = ''authentication required''"
| "error_text ErrForbidden = ''access denied''"
| "error_text ErrConflict = ''resource is not editable or request conflicts with current state''"
| "error_text ErrRecordNotFound = ''record not found''"
| "error_text ErrDuplicatedKey = ''duplicated key not allowed''"
| "error_text ErrForeignKey = ''violates foreign key constraint''"
| "error_text ErrCheckConstraint = ''violates check constraint''"
| "error_text ErrNotDraft = ''only a draft revision can be edited''"
| "error_text ErrTooLarge = ''artifact exceeds size limit''"
| "error_text ErrQuota = ''storage quota exceeded''"
| "error_text ErrMaxBytes = ''http: request body too large''"
| "error_text ErrNotExist = ''file does not exist''"
| "error_text (ValidationError m) = m"
| "error_text (ErrMessage m) = m"
| "error_text (ErrOperational n) = ''operational failure''"
| "error_text (Wrapped m e) = m @ '': '' @ error_text e"
| "error_text (WithText e m) = error_text e @ '': '' @ m"

section \<open>Environment and world\<close>

record env =
  faulty :: "nat \<Rightarrow> bool"
  clock :: "nat \<Rightarrow> time"
  random_bytes :: "nat \<Rightarrow> bytes"
  temp_suffix :: "nat \<Rightarrow> string"
  new_id :: "nat \<Rightarrow> id"

definition calm :: "env \<Rightarrow> bool" where
  "calm E \<longleftrightarrow> (\<forall>n. \<not> faulty E n)"

datatype file_kind = Regular | Directory | Special

record fnode =
  f_data :: bytes
  f_kind :: file_kind
  f_mtime :: time

type_synonym directory = "(string \<times> fnode) list"

text \<open>
  Besides the database, the directory and the count of calls, the world holds the keys of
  the files the file transaction under way has saved (a local variable of the source).
\<close>

record 'd world =
  db :: 'd
  dir :: directory
  ticks :: nat
  saved :: "string list"

type_synonym ('d, 'a) go = "env \<Rightarrow> 'd world \<Rightarrow> (go_error + 'a) \<times> 'd world"

section \<open>Sequencing\<close>

definition ret :: "'a \<Rightarrow> ('d, 'a) go" where
  "ret a = (\<lambda>E w. (Inr a, w))"

definition fail :: "go_error \<Rightarrow> ('d, 'a) go" where
  "fail e = (\<lambda>E w. (Inl e, w))"

definition andThen :: "('d, 'a) go \<Rightarrow> ('a \<Rightarrow> ('d, 'b) go) \<Rightarrow> ('d, 'b) go" where
  "andThen m f =
     (\<lambda>E w. case m E w of (Inl e, w') \<Rightarrow> (Inl e, w') | (Inr a, w') \<Rightarrow> f a E w')"

text \<open>The error as a value, for code that looks at it instead of returning it.\<close>

definition attempt :: "('d, 'a) go \<Rightarrow> ('d, go_error + 'a) go" where
  "attempt m = (\<lambda>E w. case m E w of (r, w') \<Rightarrow> (Inr r, w'))"

definition reject :: "bool \<Rightarrow> go_error \<Rightarrow> ('d, unit) go" where
  "reject b e = (if b then fail e else ret ())"

definition of_sum :: "go_error + 'a \<Rightarrow> ('d, 'a) go" where
  "of_sum r = (\<lambda>E w. (r, w))"

definition map_error :: "(go_error \<Rightarrow> go_error) \<Rightarrow> ('d, 'a) go \<Rightarrow> ('d, 'a) go" where
  "map_error f m =
     (\<lambda>E w. case m E w of (Inl e, w') \<Rightarrow> (Inl (f e), w') | (Inr a, w') \<Rightarrow> (Inr a, w'))"

fun for_each :: "'x list \<Rightarrow> ('x \<Rightarrow> ('d, unit) go) \<Rightarrow> ('d, unit) go" where
  "for_each [] f = ret ()"
| "for_each (x # xs) f = andThen (f x) (\<lambda>_. for_each xs f)"

fun fold_go :: "('s \<Rightarrow> 'x \<Rightarrow> ('d, 's) go) \<Rightarrow> 's \<Rightarrow> 'x list \<Rightarrow> ('d, 's) go" where
  "fold_go f s [] = ret s"
| "fold_go f s (x # xs) = andThen (f s x) (\<lambda>s'. fold_go f s' xs)"

section \<open>Calls to the outside\<close>

definition call :: "(env \<Rightarrow> nat \<Rightarrow> 'd world \<Rightarrow> (go_error + 'a) \<times> 'd world) \<Rightarrow> ('d, 'a) go" where
  "call f =
     (\<lambda>E w. let n = ticks w; w1 = w\<lparr>ticks := Suc n\<rparr>
            in if faulty E n then (Inl (ErrOperational n), w1) else f E n w1)"

definition query :: "('d \<Rightarrow> 'a) \<Rightarrow> ('d, 'a) go" where
  "query f = call (\<lambda>E n w. (Inr (f (db w)), w))"

text \<open>
  A statement that writes: it is given the engine's clock and the key the engine would
  assign, and either fails, leaving the database alone, or replaces it.
\<close>

definition exec :: "(time \<Rightarrow> id \<Rightarrow> 'd \<Rightarrow> go_error + 'a \<times> 'd) \<Rightarrow> ('d, 'a) go" where
  "exec f = call (\<lambda>E n w. case f (clock E n) (new_id E n) (db w) of
                           Inl e \<Rightarrow> (Inl e, w)
                         | Inr (a, d) \<Rightarrow> (Inr a, w\<lparr>db := d\<rparr>))"

text \<open>\<^verbatim>\<open>First\<close>: the least key among the rows selected, or the record-not-found error.\<close>

definition first :: "('d \<Rightarrow> 'r list) \<Rightarrow> ('r \<Rightarrow> 'k::linorder) \<Rightarrow> ('r \<Rightarrow> bool) \<Rightarrow> ('d, 'r) go" where
  "first tbl key P =
     andThen (query (\<lambda>d. first_row key P (tbl d)))
       (\<lambda>r. case r of None \<Rightarrow> fail ErrRecordNotFound | Some x \<Rightarrow> ret x)"

definition count :: "('d \<Rightarrow> 'r list) \<Rightarrow> ('r \<Rightarrow> bool) \<Rightarrow> ('d, nat) go" where
  "count tbl P = query (\<lambda>d. length (filter P (tbl d)))"

definition find_all :: "('d \<Rightarrow> 'r list) \<Rightarrow> ('r \<Rightarrow> bool) \<Rightarrow> ('d, 'r list) go" where
  "find_all tbl P = query (\<lambda>d. filter P (tbl d))"

definition now :: "('d, time) go" where
  "now = (\<lambda>E w. (Inr (clock E (ticks w)), w\<lparr>ticks := Suc (ticks w)\<rparr>))"

definition on_dir :: "(env \<Rightarrow> nat \<Rightarrow> directory \<Rightarrow> go_error + 'a \<times> directory) \<Rightarrow> ('d, 'a) go" where
  "on_dir f = call (\<lambda>E n w. case f E n (dir w) of
                             Inl e \<Rightarrow> (Inl e, w)
                           | Inr (a, fs) \<Rightarrow> (Inr a, w\<lparr>dir := fs\<rparr>))"

text \<open>
  A database transaction: begin, the body, commit. An error of the body, or of the commit,
  puts the database back; files and the count of calls are not part of it.
\<close>

definition rollback :: "'d \<Rightarrow> 'd world \<Rightarrow> 'd world" where
  "rollback d w = w\<lparr>db := d\<rparr>"

definition transaction :: "('d, 'a) go \<Rightarrow> ('d, 'a) go" where
  "transaction m =
     (\<lambda>E w0. case query (\<lambda>_. ()) E w0 of
        (Inl e, w) \<Rightarrow> (Inl e, w)
      | (Inr _, w) \<Rightarrow>
          (case andThen m (\<lambda>a. andThen (query (\<lambda>_. ())) (\<lambda>_. ret a)) E w of
             (Inl e, w') \<Rightarrow> (Inl e, rollback (db w) w')
           | (Inr a, w') \<Rightarrow> (Inr a, w')))"

text \<open>\<^verbatim>\<open>defer\<close>: the second operation runs whatever the first one did; its result is dropped.\<close>

definition deferred :: "('d, 'a) go \<Rightarrow> ('d, 'b) go \<Rightarrow> ('d, 'a) go" where
  "deferred m fin = (\<lambda>E w. case m E w of (r, w') \<Rightarrow> (r, snd (fin E w')))"

definition note_saved :: "string \<Rightarrow> ('d, unit) go" where
  "note_saved key = (\<lambda>E w. (Inr (), w\<lparr>saved := saved w @ [key]\<rparr>))"

section \<open>Inverting a run\<close>

lemma ret_run [go_simps]: "ret a E w = (Inr a, w)"
  by (simp add: ret_def)

lemma fail_run [go_simps]: "fail e E w = (Inl e, w)"
  by (simp add: fail_def)

lemma of_sum_run [go_simps]: "of_sum r E w = (r, w)"
  by (simp add: of_sum_def)

lemma reject_run [go_simps]: "reject b e E w = (if b then (Inl e, w) else (Inr (), w))"
  by (simp add: reject_def go_simps)

lemma andThen_run:
  "andThen m f E w = (case m E w of (Inl e, w') \<Rightarrow> (Inl e, w') | (Inr a, w') \<Rightarrow> f a E w')"
  by (simp add: andThen_def)

lemma andThen_Inr: "m E w = (Inr a, w') \<Longrightarrow> andThen m f E w = f a E w'"
  by (simp add: andThen_run)

lemma andThen_InrE [go_elims]:
  assumes "andThen m f E w = (Inr b, w')"
  obtains a w1 where "m E w = (Inr a, w1)" and "f a E w1 = (Inr b, w')"
  using assms by (auto simp: andThen_def split: prod.splits sum.splits)

lemma andThen_InlE:
  assumes "andThen m f E w = (Inl e, w')"
  obtains "m E w = (Inl e, w')"
  | a w1 where "m E w = (Inr a, w1)" and "f a E w1 = (Inl e, w')"
  using assms by (auto simp: andThen_def split: prod.splits sum.splits)

lemma ret_InrE [go_elims]:
  assumes "ret a E w = (Inr b, w')" obtains "b = a" and "w' = w"
  using assms by (simp add: ret_def)

lemma fail_InrE [go_elims]: "fail e E w = (Inr b, w') \<Longrightarrow> P"
  by (simp add: fail_def)

lemma reject_InrE [go_elims]:
  assumes "reject b e E w = (Inr u, w')" obtains "\<not> b" and "w' = w"
  using assms by (auto simp: reject_def ret_def fail_def split: if_splits)

lemma of_sum_InrE [go_elims]:
  assumes "of_sum r E w = (Inr b, w')" obtains "r = Inr b" and "w' = w"
  using assms by (simp add: of_sum_def)

lemma map_error_InrE [go_elims]:
  assumes "map_error f m E w = (Inr b, w')" obtains "m E w = (Inr b, w')"
  using assms by (auto simp: map_error_def split: prod.splits sum.splits)

lemma attempt_InrE [go_elims]:
  assumes "attempt m E w = (Inr r, w')" obtains "m E w = (r, w')"
  using assms by (auto simp: attempt_def split: prod.splits)

lemma query_InrE [go_elims]:
  assumes "query f E w = (Inr a, w')"
  obtains "a = f (db w)" and "w' = w\<lparr>ticks := Suc (ticks w)\<rparr>"
  using assms by (auto simp: query_def call_def Let_def split: if_splits)

lemma query_snd: "snd (query f E w) = w\<lparr>ticks := Suc (ticks w)\<rparr>"
  by (simp add: query_def call_def Let_def)

lemma now_InrE [go_elims]:
  assumes "now E w = (Inr t, w')"
  obtains "t = clock E (ticks w)" and "w' = w\<lparr>ticks := Suc (ticks w)\<rparr>"
  using assms by (simp add: now_def)

lemma deferred_InrE [go_elims]:
  assumes "deferred m fin E w = (Inr a, w')"
  obtains w1 where "m E w = (Inr a, w1)" and "w' = snd (fin E w1)"
  using assms by (auto simp: deferred_def split: prod.splits)

lemma note_saved_InrE [go_elims]:
  assumes "note_saved key E w = (Inr u, w')"
  obtains "w' = w\<lparr>saved := saved w @ [key]\<rparr>"
  using assms by (simp add: note_saved_def)

lemma exec_InrE [go_elims]:
  assumes "exec f E w = (Inr a, w')"
  obtains d where "f (clock E (ticks w)) (new_id E (ticks w)) (db w) = Inr (a, d)"
    and "w' = w\<lparr>ticks := Suc (ticks w), db := d\<rparr>"
  using assms by (auto simp: exec_def call_def Let_def split: if_splits sum.splits prod.splits)

lemma on_dir_InrE [go_elims]:
  assumes "on_dir f E w = (Inr a, w')"
  obtains fs where "f E (ticks w) (dir w) = Inr (a, fs)"
    and "w' = w\<lparr>ticks := Suc (ticks w), dir := fs\<rparr>"
  using assms by (auto simp: on_dir_def call_def Let_def split: if_splits sum.splits prod.splits)

lemma first_InrE [go_elims]:
  assumes "first tbl key P E w = (Inr r, w')"
  obtains "first_row key P (tbl (db w)) = Some r" and "w' = w\<lparr>ticks := Suc (ticks w)\<rparr>"
  using assms unfolding first_def by (auto elim!: go_elims split: option.splits)

lemma first_Inl:
  "first tbl key P E w = (Inl e, w') \<Longrightarrow> errors_is e ErrRecordNotFound \<Longrightarrow> first_row key P (tbl (db w)) = None"
  by (auto simp: first_def query_def call_def andThen_def Let_def fail_def ret_def
      split: if_splits option.splits)

lemma count_InrE [go_elims]:
  assumes "count tbl P E w = (Inr n, w')"
  obtains "n = length (filter P (tbl (db w)))" and "w' = w\<lparr>ticks := Suc (ticks w)\<rparr>"
  using assms unfolding count_def by (auto elim!: go_elims)

lemma find_all_InrE [go_elims]:
  assumes "find_all tbl P E w = (Inr rs, w')"
  obtains "rs = filter P (tbl (db w))" and "w' = w\<lparr>ticks := Suc (ticks w)\<rparr>"
  using assms unfolding find_all_def by (auto elim!: go_elims)

lemma transaction_InrE [go_elims]:
  assumes "transaction m E w = (Inr a, w')"
  obtains w1 where "m E (w\<lparr>ticks := Suc (ticks w)\<rparr>) = (Inr a, w1)"
    and "w' = w1\<lparr>ticks := Suc (ticks w1)\<rparr>"
  using assms unfolding transaction_def
  by (auto split: prod.splits sum.splits elim!: go_elims)

text \<open>A failed transaction leaves the database as it was, whatever failed in it.\<close>

lemma transaction_Inl: "transaction m E w = (Inl e, w') \<Longrightarrow> db w' = db w"
proof -
  assume h: "transaction m E w = (Inl e, w')"
  have "db (snd (query (\<lambda>_. ()) E w)) = db w" by (simp add: query_snd)
  with h show ?thesis
    by (auto simp: transaction_def rollback_def split: prod.splits sum.splits)
qed

section \<open>Runs without faults\<close>

lemma query_calm [go_simps]: "calm E \<Longrightarrow> query f E w = (Inr (f (db w)), w\<lparr>ticks := Suc (ticks w)\<rparr>)"
  by (simp add: query_def call_def calm_def Let_def)

lemma now_run [go_simps]: "now E w = (Inr (clock E (ticks w)), w\<lparr>ticks := Suc (ticks w)\<rparr>)"
  by (simp add: now_def)

lemma count_calm [go_simps]:
  "calm E \<Longrightarrow> count tbl P E w = (Inr (length (filter P (tbl (db w)))), w\<lparr>ticks := Suc (ticks w)\<rparr>)"
  by (simp add: count_def go_simps)

lemma find_all_calm [go_simps]:
  "calm E \<Longrightarrow> find_all tbl P E w = (Inr (filter P (tbl (db w))), w\<lparr>ticks := Suc (ticks w)\<rparr>)"
  by (simp add: find_all_def go_simps)

lemma first_calm [go_simps]:
  "calm E \<Longrightarrow> first tbl key P E w =
     (case first_row key P (tbl (db w)) of
        None \<Rightarrow> (Inl ErrRecordNotFound, w\<lparr>ticks := Suc (ticks w)\<rparr>)
      | Some r \<Rightarrow> (Inr r, w\<lparr>ticks := Suc (ticks w)\<rparr>))"
  by (simp add: first_def andThen_run go_simps split: option.split)

lemma exec_calm [go_simps]:
  "calm E \<Longrightarrow> exec f E w =
     (case f (clock E (ticks w)) (new_id E (ticks w)) (db w) of
        Inl e \<Rightarrow> (Inl e, w\<lparr>ticks := Suc (ticks w)\<rparr>)
      | Inr (a, d) \<Rightarrow> (Inr a, w\<lparr>ticks := Suc (ticks w), db := d\<rparr>))"
  by (simp add: exec_def call_def calm_def Let_def split: sum.split prod.split)

lemma transaction_Inr:
  assumes "calm E" and "m E (w\<lparr>ticks := Suc (ticks w)\<rparr>) = (Inr a, w')"
  shows "transaction m E w = (Inr a, w'\<lparr>ticks := Suc (ticks w')\<rparr>)"
  using assms by (simp add: transaction_def query_calm andThen_run go_simps)

section \<open>Operations that respect an order on worlds\<close>

definition keeps :: "('d world \<Rightarrow> 'd world \<Rightarrow> bool) \<Rightarrow> ('d, 'a) go \<Rightarrow> bool" where
  "keeps R m \<longleftrightarrow> (\<forall>E w. R w (snd (m E w)))"

text \<open>
  What an order on worlds must promise for the combinators to respect it: reflexive,
  transitive, indifferent to the count of calls, and closed under putting back the
  database a transaction started from.
\<close>

locale world_order =
  fixes R :: "'d world \<Rightarrow> 'd world \<Rightarrow> bool"
  assumes R_refl: "R w w"
    and R_trans: "R w1 w2 \<Longrightarrow> R w2 w3 \<Longrightarrow> R w1 w3"
    and R_tick: "R w (w\<lparr>ticks := n\<rparr>)"
    and R_saved: "R w (w\<lparr>saved := ks\<rparr>)"
    and R_rollback: "R w w' \<Longrightarrow> R w (w'\<lparr>db := db w\<rparr>)"
begin

lemma keepsD: "keeps R m \<Longrightarrow> m E w = (r, w') \<Longrightarrow> R w w'"
  unfolding keeps_def by (metis snd_conv)

lemma keeps_ret: "keeps R (ret a)"
  by (simp add: keeps_def ret_def R_refl)

lemma keeps_fail: "keeps R (fail e)"
  by (simp add: keeps_def fail_def R_refl)

lemma keeps_of_sum: "keeps R (of_sum r)"
  by (simp add: keeps_def of_sum_def R_refl)

lemma keeps_reject: "keeps R (reject b e)"
  by (simp add: reject_def keeps_ret keeps_fail)

lemma keeps_andThen:
  "keeps R m \<Longrightarrow> (\<And>a. keeps R (f a)) \<Longrightarrow> keeps R (andThen m f)"
  unfolding keeps_def andThen_def
  by (auto split: prod.split sum.split) (metis R_trans snd_conv)+

text \<open>A second step that respects the order only in the worlds the first one leads to.\<close>

lemma andThen_after:
  assumes "R w (snd (m E w))" and "\<And>a w'. m E w = (Inr a, w') \<Longrightarrow> R w' (snd (f a E w'))"
  shows "R w (snd (andThen m f E w))"
proof (cases "m E w")
  case (Pair r w')
  with assms have "R w w'" "\<And>a. r = Inr a \<Longrightarrow> R w' (snd (f a E w'))" by auto
  with Pair show ?thesis by (cases r) (auto simp: andThen_def intro: R_trans)
qed

lemma keeps_andThen_after:
  "keeps R m \<Longrightarrow> (\<And>E w a w'. m E w = (Inr a, w') \<Longrightarrow> R w' (snd (f a E w'))) \<Longrightarrow> keeps R (andThen m f)"
  using andThen_after unfolding keeps_def by blast

lemma keeps_deferred: "keeps R m \<Longrightarrow> keeps R fin \<Longrightarrow> keeps R (deferred m fin)"
  unfolding keeps_def deferred_def by (auto split: prod.split) (metis R_trans snd_conv)

lemma keeps_note_saved: "keeps R (note_saved key)"
  by (simp add: keeps_def note_saved_def R_saved)

lemma keeps_attempt: "keeps R m \<Longrightarrow> keeps R (attempt m)"
  unfolding keeps_def attempt_def by (auto split: prod.split) (metis snd_conv)

lemma keeps_map_error: "keeps R m \<Longrightarrow> keeps R (map_error f m)"
  unfolding keeps_def map_error_def by (auto split: prod.split sum.split) (metis snd_conv)+

lemma keeps_query: "keeps R (query f)"
  by (simp add: keeps_def query_snd R_tick)

lemma keeps_now: "keeps R now"
  by (simp add: keeps_def now_def R_tick)

lemma keeps_first: "keeps R (first tbl key P)"
  unfolding first_def
  by (intro keeps_andThen keeps_query) (simp add: keeps_ret keeps_fail split: option.split)

lemma keeps_count: "keeps R (count tbl P)"
  by (simp add: count_def keeps_query)

lemma keeps_find_all: "keeps R (find_all tbl P)"
  by (simp add: find_all_def keeps_query)

lemma keeps_exec:
  assumes "\<And>t i w a d. f t i (db w) = Inr (a, d) \<Longrightarrow> R w (w\<lparr>db := d\<rparr>)"
  shows "keeps R (exec f)"
  unfolding keeps_def
proof (intro allI)
  fix E and w :: "'d world"
  let ?w = "w\<lparr>ticks := Suc (ticks w)\<rparr>"
  have "R ?w (?w\<lparr>db := d\<rparr>)" if "f t i (db w) = Inr (a, d)" for t i a d
    using assms [of t i ?w a d] that by simp
  then have "R w (?w\<lparr>db := d\<rparr>)" if "f t i (db w) = Inr (a, d)" for t i a d
    using that R_tick R_trans by blast
  then show "R w (snd (exec f E w))"
    by (auto simp: exec_def call_def Let_def R_tick split: sum.split prod.split)
qed

lemma keeps_on_dir:
  assumes "\<And>E n w a fs. f E n (dir w) = Inr (a, fs) \<Longrightarrow> R w (w\<lparr>dir := fs\<rparr>)"
  shows "keeps R (on_dir f)"
  unfolding keeps_def
proof (intro allI)
  fix E and w :: "'d world"
  let ?w = "w\<lparr>ticks := Suc (ticks w)\<rparr>"
  have "R ?w (?w\<lparr>dir := fs\<rparr>)" if "f E n (dir w) = Inr (a, fs)" for n a fs
    using assms [of E n ?w a fs] that by simp
  then have "R w (?w\<lparr>dir := fs\<rparr>)" if "f E n (dir w) = Inr (a, fs)" for n a fs
    using that R_tick R_trans by blast
  then show "R w (snd (on_dir f E w))"
    by (auto simp: on_dir_def call_def Let_def R_tick split: sum.split prod.split)
qed

lemma keeps_for_each: "(\<And>x. keeps R (f x)) \<Longrightarrow> keeps R (for_each xs f)"
  by (induction xs) (auto intro: keeps_ret keeps_andThen)

lemma keeps_fold_go: "(\<And>s x. keeps R (f s x)) \<Longrightarrow> keeps R (fold_go f s xs)"
  by (induction xs arbitrary: s) (auto intro: keeps_ret keeps_andThen)

lemma keeps_transaction:
  assumes "keeps R m"
  shows "keeps R (transaction m)"
  unfolding keeps_def
proof (intro allI)
  fix E and w :: "'d world"
  let ?w = "w\<lparr>ticks := Suc (ticks w)\<rparr>"
  let ?m = "andThen m (\<lambda>a. andThen (query (\<lambda>_. ())) (\<lambda>_. ret a))"
  have "keeps R ?m"
    by (intro keeps_andThen assms keeps_query keeps_ret)
  then have *: "R ?w w'" if "?m E ?w = (r, w')" for r w'
    using that by (rule keepsD)
  have "R w w'" if "?m E ?w = (r, w')" for r w'
    using R_trans [OF R_tick * [OF that]] .
  moreover have "R w (w'\<lparr>db := db w\<rparr>)" if "?m E ?w = (r, w')" for r w'
    using R_trans [OF R_tick R_rollback [OF * [OF that]]] by simp
  ultimately show "R w (snd (transaction m E w))"
    by (auto simp: transaction_def rollback_def query_def call_def Let_def R_tick
        split: prod.splits sum.splits)
qed

lemma keeps_if: "keeps R m \<Longrightarrow> keeps R n \<Longrightarrow> keeps R (if b then m else n)"
  by simp

lemma keeps_option:
  "keeps R m \<Longrightarrow> (\<And>a. keeps R (f a)) \<Longrightarrow> keeps R (case x of None \<Rightarrow> m | Some a \<Rightarrow> f a)"
  by (simp split: option.split)

lemma keeps_sum:
  "(\<And>e. keeps R (g e)) \<Longrightarrow> (\<And>a. keeps R (f a)) \<Longrightarrow> keeps R (case x of Inl e \<Rightarrow> g e | Inr a \<Rightarrow> f a)"
  by (simp split: sum.split)

lemmas keeps_rules =
  keeps_if keeps_option keeps_sum keeps_deferred keeps_note_saved
  keeps_ret keeps_fail keeps_of_sum keeps_reject keeps_andThen keeps_attempt
  keeps_map_error keeps_query keeps_now keeps_first keeps_count keeps_find_all
  keeps_for_each keeps_fold_go keeps_transaction

end

text \<open>The order every operation keeps whatever it does, and the one read-only operations keep.\<close>

definition db_same :: "'d world \<Rightarrow> 'd world \<Rightarrow> bool" where
  "db_same w w' \<longleftrightarrow> db w' = db w \<and> dir w' = dir w"

interpretation reads: world_order db_same
  by unfold_locales (auto simp: db_same_def)

lemma db_sameD: "keeps db_same m \<Longrightarrow> m E w = (r, w') \<Longrightarrow> db w' = db w \<and> dir w' = dir w"
  by (drule (1) reads.keepsD) (simp add: db_same_def)

end
