(* ===== verification/Table.thy ===== *)
theory Table
  imports Effects
begin

text \<open>
  A table of the relational store: rows with a primary key, a row condition (the
  \<^verbatim>\<open>check\<close> constraints), a clash relation (the unique indexes) and references to other
  tables (the foreign keys). A statement that would break a constraint fails and leaves
  the table alone; the engine checks row conditions first, unique indexes next, foreign
  keys last. The locale states what a table promises its clients, and every table of the
  schema is an interpretation of it.
\<close>

section \<open>Statements on one table\<close>

definition insert_row ::
  "('r \<Rightarrow> id) \<Rightarrow> ('r \<Rightarrow> bool) \<Rightarrow> ('r \<Rightarrow> 'r \<Rightarrow> bool) \<Rightarrow> ('r \<Rightarrow> bool) \<Rightarrow> 'r \<Rightarrow> 'r list \<Rightarrow>
     go_error + 'r \<times> 'r list" where
  "insert_row pk chk clash ref r rows =
     (if \<not> chk r then Inl ErrCheckConstraint
      else if \<exists>q\<in>set rows. pk q = pk r \<or> clash q r then Inl ErrDuplicatedKey
      else if \<not> ref r then Inl ErrForeignKey
      else Inr (r, rows @ [r]))"

definition update_rows ::
  "('r \<Rightarrow> id) \<Rightarrow> ('r \<Rightarrow> bool) \<Rightarrow> ('r \<Rightarrow> 'r \<Rightarrow> bool) \<Rightarrow> ('r \<Rightarrow> bool) \<Rightarrow> ('r \<Rightarrow> bool) \<Rightarrow> ('r \<Rightarrow> 'r) \<Rightarrow>
     'r list \<Rightarrow> go_error + nat \<times> 'r list" where
  "update_rows pk chk clash ref sel upd rows =
     (let hit = filter sel rows
      in if \<exists>r\<in>set hit. \<not> chk (upd r) then Inl ErrCheckConstraint
         else if \<exists>r\<in>set hit. \<exists>q\<in>set rows. pk q \<noteq> pk r \<and> clash q (upd r) then Inl ErrDuplicatedKey
         else if \<exists>r\<in>set hit. \<not> ref (upd r) then Inl ErrForeignKey
         else Inr (length hit, modify sel upd rows))"

text \<open>The result of a statement on one table, put back into the database.\<close>

definition with_rows :: "('rows \<Rightarrow> 'd) \<Rightarrow> go_error + 'a \<times> 'rows \<Rightarrow> go_error + 'a \<times> 'd" where
  "with_rows put r = (case r of Inl e \<Rightarrow> Inl e | Inr (a, rows) \<Rightarrow> Inr (a, put rows))"

lemma with_rows_InrE [go_elims]:
  assumes "with_rows put r = Inr (a, d)"
  obtains rows where "r = Inr (a, rows)" and "d = put rows"
  using assms by (auto simp: with_rows_def split: sum.splits prod.splits)

lemma with_rows_Inr [simp]: "with_rows put (Inr (a, rows)) = Inr (a, put rows)"
  by (simp add: with_rows_def)

lemma with_rows_Inl [simp]: "with_rows put (Inl e) = Inl e"
  by (simp add: with_rows_def)

lemma insert_row_InrE [go_elims]:
  assumes "insert_row pk chk clash ref r rows = Inr (a, rows')"
  obtains "a = r" and "rows' = rows @ [r]" and "chk r" and "ref r"
    and "\<And>q. q \<in> set rows \<Longrightarrow> pk q \<noteq> pk r \<and> \<not> clash q r"
  using assms by (auto simp: insert_row_def split: if_splits)

lemma update_rows_InrE [go_elims]:
  assumes "update_rows pk chk clash ref sel upd rows = Inr (n, rows')"
  obtains "n = length (filter sel rows)" and "rows' = modify sel upd rows"
    and "\<And>r. r \<in> set rows \<Longrightarrow> sel r \<Longrightarrow> chk (upd r) \<and> ref (upd r)"
    and "\<And>r q. r \<in> set rows \<Longrightarrow> sel r \<Longrightarrow> q \<in> set rows \<Longrightarrow> pk q \<noteq> pk r \<Longrightarrow> \<not> clash q (upd r)"
  using assms by (auto simp: update_rows_def Let_def split: if_splits)

text \<open>The key an insert uses: the one given, or the one the engine assigns to a zero key.\<close>

definition assigned :: "id \<Rightarrow> id \<Rightarrow> id" where
  "assigned i k = (if k = 0 then i else k)"

text \<open>A time column filled on insert when it is the zero time.\<close>

definition stamp :: "time \<Rightarrow> time \<Rightarrow> time" where
  "stamp t c = (if c = zero_time then t else c)"

section \<open>Presence of a key\<close>

definition has :: "('r \<Rightarrow> id) \<Rightarrow> id \<Rightarrow> 'r list \<Rightarrow> bool" where
  "has pk k rows \<longleftrightarrow> (\<exists>r\<in>set rows. pk r = k)"

lemma has_append [row_simps]: "has pk k (xs @ ys) \<longleftrightarrow> has pk k xs \<or> has pk k ys"
  by (auto simp: has_def)

lemma has_Cons [row_simps]: "has pk k (x # xs) \<longleftrightarrow> pk x = k \<or> has pk k xs"
  by (auto simp: has_def)

lemma has_Nil [row_simps]: "\<not> has pk k []"
  by (simp add: has_def)

lemma update_rows_runs:
  assumes "\<And>r. r \<in> set rows \<Longrightarrow> sel r \<Longrightarrow> chk (upd r) \<and> ref (upd r)"
    and "\<And>r q. r \<in> set rows \<Longrightarrow> sel r \<Longrightarrow> q \<in> set rows \<Longrightarrow> pk q \<noteq> pk r \<Longrightarrow> \<not> clash q (upd r)"
  shows "update_rows pk chk clash ref sel upd rows = Inr (length (filter sel rows), modify sel upd rows)"
  using assms by (auto simp: update_rows_def Let_def)

lemma has_modify: "(\<And>r. sel r \<Longrightarrow> pk (f r) = pk r) \<Longrightarrow> has pk k (modify sel f rows) = has pk k rows"
proof -
  have *: "has pk k xs \<longleftrightarrow> k \<in> set (map pk xs)" for xs by (auto simp: has_def)
  assume "\<And>r. sel r \<Longrightarrow> pk (f r) = pk r"
  then show ?thesis unfolding * by (simp only: map_modify)
qed

lemma hasI: "r \<in> set rows \<Longrightarrow> has pk (pk r) rows"
  by (auto simp: has_def)

lemma has_filter: "has pk k (filter P rows) \<longleftrightarrow> (\<exists>r\<in>set rows. P r \<and> pk r = k)"
  by (auto simp: has_def)

definition keys_grow :: "('r \<Rightarrow> id) \<Rightarrow> 'r list \<Rightarrow> 'r list \<Rightarrow> bool" where
  "keys_grow pk rows rows' \<longleftrightarrow> (\<forall>k. has pk k rows \<longrightarrow> has pk k rows')"

lemma keys_grow_refl [simp]: "keys_grow pk rows rows"
  by (simp add: keys_grow_def)

lemma keys_grow_append [simp]: "keys_grow pk rows (rows @ xs)"
  by (simp add: keys_grow_def has_append)

lemma keys_grow_modify: "(\<And>r. sel r \<Longrightarrow> pk (f r) = pk r) \<Longrightarrow> keys_grow pk rows (modify sel f rows)"
  by (simp add: keys_grow_def has_modify)

section \<open>What a table promises\<close>

definition table_ok :: "('r \<Rightarrow> id) \<Rightarrow> ('r \<Rightarrow> bool) \<Rightarrow> ('r \<Rightarrow> 'r \<Rightarrow> bool) \<Rightarrow> 'r list \<Rightarrow> bool" where
  "table_ok pk chk clash rows \<longleftrightarrow>
     distinct (map pk rows) \<and> (\<forall>r\<in>set rows. chk r) \<and>
     (\<forall>r\<in>set rows. \<forall>q\<in>set rows. clash r q \<longrightarrow> pk r = pk q)"

locale schema_table =
  fixes pk :: "'r \<Rightarrow> id" and chk :: "'r \<Rightarrow> bool" and clash :: "'r \<Rightarrow> 'r \<Rightarrow> bool"
  assumes clash_sym: "clash r q \<Longrightarrow> clash q r"
begin

lemma insert_ok:
  assumes "insert_row pk chk clash ref r rows = Inr (a, rows')" and "table_ok pk chk clash rows"
  shows "table_ok pk chk clash rows'"
  using assms(1)
proof (rule insert_row_InrE)
  assume "rows' = rows @ [r]" "chk r" "\<And>q. q \<in> set rows \<Longrightarrow> pk q \<noteq> pk r \<and> \<not> clash q r"
  with assms(2) show ?thesis unfolding table_ok_def using clash_sym by fastforce
qed

lemma update_ok:
  assumes run: "update_rows pk chk clash ref sel upd rows = Inr (n, rows')"
    and ok: "table_ok pk chk clash rows"
    and key: "\<And>r. sel r \<Longrightarrow> pk (upd r) = pk r"
    and one: "\<And>r q. sel r \<Longrightarrow> sel q \<Longrightarrow> pk r = pk q"
  shows "table_ok pk chk clash rows'"
  using run
proof (rule update_rows_InrE)
  assume m: "rows' = modify sel upd rows"
    and c: "\<And>r. r \<in> set rows \<Longrightarrow> sel r \<Longrightarrow> chk (upd r) \<and> ref (upd r)"
    and u: "\<And>r q. r \<in> set rows \<Longrightarrow> sel r \<Longrightarrow> q \<in> set rows \<Longrightarrow> pk q \<noteq> pk r \<Longrightarrow> \<not> clash q (upd r)"
  have "distinct (map pk rows')" using ok m by (simp add: table_ok_def map_modify key)
  moreover have "\<forall>r\<in>set rows'. chk r"
    using ok c by (auto simp: m in_set_modify table_ok_def)
  moreover have "pk r = pk q" if r: "r \<in> set rows'" and q: "q \<in> set rows'" and rq: "clash r q" for r q
  proof -
    from r obtain r0 where r0: "r0 \<in> set rows" "r = (if sel r0 then upd r0 else r0)"
      by (auto simp: m in_set_modify)
    from q obtain q0 where q0: "q0 \<in> set rows" "q = (if sel q0 then upd q0 else q0)"
      by (auto simp: m in_set_modify)
    show ?thesis
    proof (cases "sel r0"; cases "sel q0")
      assume "sel r0" "sel q0"
      then show ?thesis using r0 q0 one key by metis
    next
      assume s: "sel r0" "\<not> sel q0"
      then have "clash q0 (upd r0)" using r0 q0 rq clash_sym by auto
      then show ?thesis using u [OF r0(1) s(1) q0(1)] r0 q0 s key by metis
    next
      assume s: "\<not> sel r0" "sel q0"
      then have "clash r0 (upd q0)" using r0 q0 rq by auto
      then show ?thesis using u [OF q0(1) s(2) r0(1)] r0 q0 s key by metis
    next
      assume s: "\<not> sel r0" "\<not> sel q0"
      then show ?thesis using ok r0 q0 rq by (simp add: table_ok_def)
    qed
  qed
  ultimately show ?thesis unfolding table_ok_def by blast
qed

lemma modify_ok:
  assumes ok: "table_ok pk chk clash rows"
    and key: "\<And>r. sel r \<Longrightarrow> pk (f r) = pk r"
    and check: "\<And>r. r \<in> set rows \<Longrightarrow> sel r \<Longrightarrow> chk (f r)"
    and same: "\<And>r q. clash (f r) q = clash r q"
  shows "table_ok pk chk clash (modify sel f rows)"
proof -
  let ?g = "\<lambda>r. if sel r then f r else r"
  have sym: "clash a b = clash b a" for a b using clash_sym by blast
  have "clash a (f b) = clash a b" for a b
    using same [of b a] sym [of a "f b"] sym [of a b] by simp
  then have g: "clash (?g r) (?g q) = clash r q" for r q
    using same by simp
  have "pk (?g r) = pk r" for r by (simp add: key)
  moreover have "chk (?g r)" if "r \<in> set rows" for r
    using that ok check by (simp add: table_ok_def)
  moreover have "distinct (map pk (modify sel f rows))"
    using ok by (simp add: map_modify key table_ok_def)
  moreover have "pk x = pk y"
    if "x \<in> set (modify sel f rows)" "y \<in> set (modify sel f rows)" "clash x y" for x y
  proof -
    from that(1,2) obtain r q where r: "r \<in> set rows" "x = ?g r" and q: "q \<in> set rows" "y = ?g q"
      unfolding in_set_modify by blast
    with that(3) g have "clash r q" by blast
    with ok r(1) q(1) have "pk r = pk q" by (simp add: table_ok_def)
    then show ?thesis unfolding r(2) q(2) by (simp add: key)
  qed
  moreover have "chk x" if "x \<in> set (modify sel f rows)" for x
    using that calculation(2) unfolding in_set_modify by blast
  ultimately show ?thesis unfolding table_ok_def by blast
qed

lemma filter_ok: "table_ok pk chk clash rows \<Longrightarrow> table_ok pk chk clash (filter P rows)"
  by (auto simp: table_ok_def distinct_filter_map)

lemma empty_ok: "table_ok pk chk clash []"
  by (simp add: table_ok_def)

lemma lookup:
  assumes "table_ok pk chk clash rows" and "r \<in> set rows" and "pk r = k"
  shows "first_row key (\<lambda>q. pk q = k) rows = Some r"
  using assms first_row_by_key [of pk rows r key] by (simp add: table_ok_def)

lemma unique_row:
  "table_ok pk chk clash rows \<Longrightarrow> r \<in> set rows \<Longrightarrow> q \<in> set rows \<Longrightarrow> pk r = pk q \<Longrightarrow> r = q"
  unfolding table_ok_def by (blast dest: distinct_key_eq)

lemma no_clash:
  "table_ok pk chk clash rows \<Longrightarrow> r \<in> set rows \<Longrightarrow> q \<in> set rows \<Longrightarrow> clash r q \<Longrightarrow> r = q"
  using unique_row unfolding table_ok_def by blast

lemma row_check: "table_ok pk chk clash rows \<Longrightarrow> r \<in> set rows \<Longrightarrow> chk r"
  by (simp add: table_ok_def)

lemma lookup_inserted:
  assumes "insert_row pk chk clash ref r rows = Inr (a, rows')" and "table_ok pk chk clash rows"
  shows "first_row key (\<lambda>q. pk q = pk r) rows' = Some r"
    and "k \<noteq> pk r \<Longrightarrow> first_row key (\<lambda>q. pk q = k) rows' = first_row key (\<lambda>q. pk q = k) rows"
proof -
  from assms(1) have "rows' = rows @ [r]" "a = r" by (auto elim!: insert_row_InrE)
  with insert_ok [OF assms] lookup [OF _ _ refl, of rows' r] show "first_row key (\<lambda>q. pk q = pk r) rows' = Some r" by simp
  show "k \<noteq> pk r \<Longrightarrow> first_row key (\<lambda>q. pk q = k) rows' = first_row key (\<lambda>q. pk q = k) rows"
    using \<open>rows' = rows @ [r]\<close> by (simp add: first_row_def)
qed

end

end
