(* ===== verification/Models.thy ===== *)
theory Models
  imports Table
begin

text \<open>
  The data model (internal/db/models.go): one record per table, the row conditions, unique
  indexes and foreign keys its struct tags declare, and the statements the program issues
  on it. Association fields, which only carry the foreign-key tags, appear as the
  reference conditions. Each table is an interpretation of the interface of the theory
  Table, and every statement preserves the integrity of the whole schema.
\<close>

section \<open>Rows\<close>

record user =
  u_id :: id
  u_email :: string
  u_password_hash :: string
  u_name :: string
  u_role :: string
  u_created_at :: time
  u_updated_at :: time

record session =
  ss_id :: id
  ss_user_id :: id
  ss_token_hash :: string
  ss_expires_at :: time
  ss_created_at :: time

record contest =
  c_id :: id
  c_title :: string
  c_description :: string
  c_visibility :: string
  c_start_at :: "time option"
  c_end_at :: "time option"
  c_created_at :: time
  c_updated_at :: time

record series =
  s_id :: id
  s_contest_id :: id
  s_title :: string
  s_position :: int
  s_created_at :: time
  s_updated_at :: time
  s_start_at :: "time option"
  s_end_at :: "time option"
  s_release_at :: "time option"

record membership =
  m_id :: id
  m_contest_id :: id
  m_user_id :: id
  m_role :: string

record import_preview =
  pv_id :: id
  pv_owner_id :: id
  pv_revision_id :: id
  pv_artifact_id :: id
  pv_expires_at :: time
  pv_committed_at :: "time option"

record artifact =
  a_id :: id
  a_owner_id :: id
  a_storage_key :: string
  a_sha256 :: string
  a_size_bytes :: int
  a_content_type :: string
  a_filename :: string
  a_created_at :: time

record problem =
  p_id :: id
  p_owner_id :: id
  p_title :: string
  p_code :: string
  p_kind :: string
  p_created_at :: time
  p_updated_at :: time

record revision =
  r_id :: id
  r_problem_id :: id
  r_number :: int
  r_state :: string
  r_statement :: string
  r_pdf_artifact_id :: "id option"
  r_time_limit_millis :: "int option"
  r_memory_limit_kib :: "int option"
  r_language_metadata :: string
  r_checker_metadata :: string
  r_published_at :: "time option"
  r_created_at :: time
  r_updated_at :: time

record series_problem =
  sp_id :: id
  sp_series_id :: id
  sp_problem_id :: id
  sp_published_revision_id :: id
  sp_code :: string
  sp_position :: int
  sp_created_at :: time
  sp_updated_at :: time

record test_case =
  t_id :: id
  t_problem_revision_id :: id
  t_position :: int
  t_is_sample :: bool
  t_points :: "int option"
  t_time_limit_override_millis :: "int option"
  t_input_artifact_id :: id
  t_output_artifact_id :: id
  t_created_at :: time
  t_updated_at :: time

record database =
  users :: "user list"
  sessions :: "session list"
  contests :: "contest list"
  series_rows :: "series list"
  memberships :: "membership list"
  previews :: "import_preview list"
  artifacts :: "artifact list"
  problems :: "problem list"
  revisions :: "revision list"
  series_problems :: "series_problem list"
  test_cases :: "test_case list"

definition empty_database :: database where
  "empty_database =
     \<lparr>users = [], sessions = [], contests = [], series_rows = [], memberships = [], previews = [],
      artifacts = [], problems = [], revisions = [], series_problems = [], test_cases = []\<rparr>"

section \<open>Constants\<close>

definition RoleAdmin :: string where "RoleAdmin = ''admin''"
definition RoleUser :: string where "RoleUser = ''user''"
definition ContestDraft :: string where "ContestDraft = ''draft''"
definition ContestPublished :: string where "ContestPublished = ''published''"
definition RevisionDraft :: string where "RevisionDraft = ''draft''"
definition RevisionPublished :: string where "RevisionPublished = ''published''"

lemmas db_constants = RoleAdmin_def RoleUser_def ContestDraft_def ContestPublished_def
  RevisionDraft_def RevisionPublished_def

section \<open>Row conditions, unique indexes and references\<close>

definition pos_opt :: "int option \<Rightarrow> bool" where
  "pos_opt x = (case x of None \<Rightarrow> True | Some n \<Rightarrow> 0 < n)"

definition nonneg_opt :: "int option \<Rightarrow> bool" where
  "nonneg_opt x = (case x of None \<Rightarrow> True | Some n \<Rightarrow> 0 \<le> n)"

definition user_check :: "user \<Rightarrow> bool" where
  "user_check u = True"

definition user_clash :: "user \<Rightarrow> user \<Rightarrow> bool" where
  "user_clash a b = (u_email a = u_email b)"

definition session_check :: "session \<Rightarrow> bool" where
  "session_check s = True"

definition session_clash :: "session \<Rightarrow> session \<Rightarrow> bool" where
  "session_clash a b = (ss_token_hash a = ss_token_hash b)"

definition session_refs :: "database \<Rightarrow> session \<Rightarrow> bool" where
  "session_refs d s = has u_id (ss_user_id s) (users d)"

definition contest_check :: "contest \<Rightarrow> bool" where
  "contest_check c \<longleftrightarrow>
     c_title c \<noteq> [] \<and> c_visibility c \<in> {ContestDraft, ContestPublished} \<and>
     (case (c_start_at c, c_end_at c) of (Some a, Some b) \<Rightarrow> a < b | _ \<Rightarrow> True)"

definition contest_clash :: "contest \<Rightarrow> contest \<Rightarrow> bool" where
  "contest_clash a b = False"

definition series_check :: "series \<Rightarrow> bool" where
  "series_check s \<longleftrightarrow> s_title s \<noteq> [] \<and> 0 \<le> s_position s"

definition series_clash :: "series \<Rightarrow> series \<Rightarrow> bool" where
  "series_clash a b \<longleftrightarrow> s_contest_id a = s_contest_id b \<and> s_position a = s_position b"

definition series_refs :: "database \<Rightarrow> series \<Rightarrow> bool" where
  "series_refs d s = has c_id (s_contest_id s) (contests d)"

definition membership_check :: "membership \<Rightarrow> bool" where
  "membership_check m \<longleftrightarrow> m_role m \<in> {''organizer'', ''participant''}"

definition membership_clash :: "membership \<Rightarrow> membership \<Rightarrow> bool" where
  "membership_clash a b \<longleftrightarrow> m_contest_id a = m_contest_id b \<and> m_user_id a = m_user_id b"

definition membership_refs :: "database \<Rightarrow> membership \<Rightarrow> bool" where
  "membership_refs d m \<longleftrightarrow>
     has c_id (m_contest_id m) (contests d) \<and> has u_id (m_user_id m) (users d)"

definition preview_check :: "import_preview \<Rightarrow> bool" where
  "preview_check p = True"

definition preview_clash :: "import_preview \<Rightarrow> import_preview \<Rightarrow> bool" where
  "preview_clash a b = False"

definition preview_refs :: "database \<Rightarrow> import_preview \<Rightarrow> bool" where
  "preview_refs d p \<longleftrightarrow>
     has u_id (pv_owner_id p) (users d) \<and> has r_id (pv_revision_id p) (revisions d) \<and>
     has a_id (pv_artifact_id p) (artifacts d)"

definition artifact_check :: "artifact \<Rightarrow> bool" where
  "artifact_check a \<longleftrightarrow> 0 \<le> a_size_bytes a"

definition artifact_clash :: "artifact \<Rightarrow> artifact \<Rightarrow> bool" where
  "artifact_clash a b = (a_storage_key a = a_storage_key b)"

definition artifact_refs :: "database \<Rightarrow> artifact \<Rightarrow> bool" where
  "artifact_refs d a = has u_id (a_owner_id a) (users d)"

definition problem_check :: "problem \<Rightarrow> bool" where
  "problem_check p \<longleftrightarrow> p_title p \<noteq> [] \<and> p_code p \<noteq> [] \<and> p_kind p = ''programming''"

definition problem_clash :: "problem \<Rightarrow> problem \<Rightarrow> bool" where
  "problem_clash a b = (p_code a = p_code b)"

definition problem_refs :: "database \<Rightarrow> problem \<Rightarrow> bool" where
  "problem_refs d p = has u_id (p_owner_id p) (users d)"

definition revision_check :: "revision \<Rightarrow> bool" where
  "revision_check r \<longleftrightarrow>
     0 < r_number r \<and> r_state r \<in> {RevisionDraft, RevisionPublished} \<and>
     pos_opt (r_time_limit_millis r) \<and> pos_opt (r_memory_limit_kib r)"

definition revision_clash :: "revision \<Rightarrow> revision \<Rightarrow> bool" where
  "revision_clash a b \<longleftrightarrow> r_problem_id a = r_problem_id b \<and> r_number a = r_number b"

definition revision_refs :: "database \<Rightarrow> revision \<Rightarrow> bool" where
  "revision_refs d r \<longleftrightarrow>
     has p_id (r_problem_id r) (problems d) \<and>
     (\<forall>a\<in>set_option (r_pdf_artifact_id r). has a_id a (artifacts d))"

definition series_problem_check :: "series_problem \<Rightarrow> bool" where
  "series_problem_check a \<longleftrightarrow> sp_code a \<noteq> [] \<and> 0 \<le> sp_position a"

definition series_problem_clash :: "series_problem \<Rightarrow> series_problem \<Rightarrow> bool" where
  "series_problem_clash a b \<longleftrightarrow>
     sp_series_id a = sp_series_id b \<and> (sp_position a = sp_position b \<or> sp_code a = sp_code b)"

definition series_problem_refs :: "database \<Rightarrow> series_problem \<Rightarrow> bool" where
  "series_problem_refs d a \<longleftrightarrow>
     has s_id (sp_series_id a) (series_rows d) \<and> has p_id (sp_problem_id a) (problems d) \<and>
     has r_id (sp_published_revision_id a) (revisions d)"

definition test_check :: "test_case \<Rightarrow> bool" where
  "test_check t \<longleftrightarrow>
     0 \<le> t_position t \<and> nonneg_opt (t_points t) \<and> pos_opt (t_time_limit_override_millis t)"

definition test_clash :: "test_case \<Rightarrow> test_case \<Rightarrow> bool" where
  "test_clash a b \<longleftrightarrow>
     t_problem_revision_id a = t_problem_revision_id b \<and> t_position a = t_position b"

definition test_refs :: "database \<Rightarrow> test_case \<Rightarrow> bool" where
  "test_refs d t \<longleftrightarrow>
     has r_id (t_problem_revision_id t) (revisions d) \<and>
     has a_id (t_input_artifact_id t) (artifacts d) \<and> has a_id (t_output_artifact_id t) (artifacts d)"

lemmas check_defs = user_check_def session_check_def contest_check_def series_check_def
  membership_check_def preview_check_def artifact_check_def problem_check_def revision_check_def
  series_problem_check_def test_check_def

lemmas clash_defs = user_clash_def session_clash_def contest_clash_def series_clash_def
  membership_clash_def preview_clash_def artifact_clash_def problem_clash_def revision_clash_def
  series_problem_clash_def test_clash_def

lemmas refs_defs = session_refs_def series_refs_def membership_refs_def preview_refs_def
  artifact_refs_def problem_refs_def revision_refs_def series_problem_refs_def test_refs_def

section \<open>Every table keeps the table interface\<close>

interpretation users: schema_table u_id user_check user_clash
  by unfold_locales (simp add: clash_defs)
interpretation sessions: schema_table ss_id session_check session_clash
  by unfold_locales (simp add: clash_defs)
interpretation contests: schema_table c_id contest_check contest_clash
  by unfold_locales (simp add: clash_defs)
interpretation series_rows: schema_table s_id series_check series_clash
  by unfold_locales (simp add: clash_defs)
interpretation memberships: schema_table m_id membership_check membership_clash
  by unfold_locales (simp add: clash_defs)
interpretation previews: schema_table pv_id preview_check preview_clash
  by unfold_locales (simp add: clash_defs)
interpretation artifacts: schema_table a_id artifact_check artifact_clash
  by unfold_locales (simp add: clash_defs)
interpretation problems: schema_table p_id problem_check problem_clash
  by unfold_locales (simp add: clash_defs)
interpretation revisions: schema_table r_id revision_check revision_clash
  by unfold_locales (simp add: clash_defs)
interpretation series_problems: schema_table sp_id series_problem_check series_problem_clash
  by unfold_locales (auto simp: clash_defs)
interpretation test_cases: schema_table t_id test_check test_clash
  by unfold_locales (simp add: clash_defs)

definition tables_ok :: "database \<Rightarrow> bool" where
  "tables_ok d \<longleftrightarrow>
     table_ok u_id user_check user_clash (users d) \<and>
     table_ok ss_id session_check session_clash (sessions d) \<and>
     table_ok c_id contest_check contest_clash (contests d) \<and>
     table_ok s_id series_check series_clash (series_rows d) \<and>
     table_ok m_id membership_check membership_clash (memberships d) \<and>
     table_ok pv_id preview_check preview_clash (previews d) \<and>
     table_ok a_id artifact_check artifact_clash (artifacts d) \<and>
     table_ok p_id problem_check problem_clash (problems d) \<and>
     table_ok r_id revision_check revision_clash (revisions d) \<and>
     table_ok sp_id series_problem_check series_problem_clash (series_problems d) \<and>
     table_ok t_id test_check test_clash (test_cases d)"

definition refs_ok :: "database \<Rightarrow> bool" where
  "refs_ok d \<longleftrightarrow>
     (\<forall>x\<in>set (sessions d). session_refs d x) \<and>
     (\<forall>x\<in>set (series_rows d). series_refs d x) \<and>
     (\<forall>x\<in>set (memberships d). membership_refs d x) \<and>
     (\<forall>x\<in>set (previews d). preview_refs d x) \<and>
     (\<forall>x\<in>set (artifacts d). artifact_refs d x) \<and>
     (\<forall>x\<in>set (problems d). problem_refs d x) \<and>
     (\<forall>x\<in>set (revisions d). revision_refs d x) \<and>
     (\<forall>x\<in>set (series_problems d). series_problem_refs d x) \<and>
     (\<forall>x\<in>set (test_cases d). test_refs d x)"

definition db_ok :: "database \<Rightarrow> bool" where
  "db_ok d \<longleftrightarrow> tables_ok d \<and> refs_ok d"

lemma empty_database_ok: "db_ok empty_database"
  by (simp add: db_ok_def tables_ok_def refs_ok_def empty_database_def table_ok_def)

lemma db_ok_tables:
  assumes "db_ok d"
  shows "table_ok u_id user_check user_clash (users d)"
    and "table_ok ss_id session_check session_clash (sessions d)"
    and "table_ok c_id contest_check contest_clash (contests d)"
    and "table_ok s_id series_check series_clash (series_rows d)"
    and "table_ok m_id membership_check membership_clash (memberships d)"
    and "table_ok pv_id preview_check preview_clash (previews d)"
    and "table_ok a_id artifact_check artifact_clash (artifacts d)"
    and "table_ok p_id problem_check problem_clash (problems d)"
    and "table_ok r_id revision_check revision_clash (revisions d)"
    and "table_ok sp_id series_problem_check series_problem_clash (series_problems d)"
    and "table_ok t_id test_check test_clash (test_cases d)"
  using assms by (simp_all add: db_ok_def tables_ok_def)

text \<open>In an intact database a row is the one its key finds.\<close>

lemmas key_unique =
  users.unique_row [OF db_ok_tables(1)] contests.unique_row [OF db_ok_tables(3)]
  series_rows.unique_row [OF db_ok_tables(4)] previews.unique_row [OF db_ok_tables(6)]
  artifacts.unique_row [OF db_ok_tables(7)] problems.unique_row [OF db_ok_tables(8)]
  revisions.unique_row [OF db_ok_tables(9)] series_problems.unique_row [OF db_ok_tables(10)]
  test_cases.unique_row [OF db_ok_tables(11)]

lemmas key_lookup =
  users.lookup [OF db_ok_tables(1)] contests.lookup [OF db_ok_tables(3)]
  series_rows.lookup [OF db_ok_tables(4)] previews.lookup [OF db_ok_tables(6)]
  artifacts.lookup [OF db_ok_tables(7)] problems.lookup [OF db_ok_tables(8)]
  revisions.lookup [OF db_ok_tables(9)] series_problems.lookup [OF db_ok_tables(10)]
  test_cases.lookup [OF db_ok_tables(11)]

end
