(* ===== verification/Statements.thy ===== *)
theory Statements
  imports Models
begin

text \<open>
  The statements of the store on the schema of internal/db/models.go: inserts with the
  engine's key and time stamps, updates of selected rows, and deletes with the cascades
  and restrictions of the foreign keys. A delete or an update reports the number of rows
  it affected. Every statement preserves the integrity of the schema.
\<close>

section \<open>Inserts\<close>

definition insert_user :: "user \<Rightarrow> time \<Rightarrow> id \<Rightarrow> database \<Rightarrow> go_error + user \<times> database" where
  "insert_user x t i d =
     with_rows (\<lambda>rows. d\<lparr>users := rows\<rparr>)
       (insert_row u_id user_check user_clash (\<lambda>_. True)
          (x\<lparr>u_id := assigned i (u_id x),
             u_created_at := stamp t (u_created_at x),
             u_updated_at := stamp t (u_updated_at x)\<rparr>) (users d))"

definition insert_session :: "session \<Rightarrow> time \<Rightarrow> id \<Rightarrow> database \<Rightarrow> go_error + session \<times> database" where
  "insert_session x t i d =
     with_rows (\<lambda>rows. d\<lparr>sessions := rows\<rparr>)
       (insert_row ss_id session_check session_clash (session_refs d)
          (x\<lparr>ss_id := assigned i (ss_id x),
             ss_created_at := stamp t (ss_created_at x)\<rparr>) (sessions d))"

definition insert_contest :: "contest \<Rightarrow> time \<Rightarrow> id \<Rightarrow> database \<Rightarrow> go_error + contest \<times> database" where
  "insert_contest x t i d =
     with_rows (\<lambda>rows. d\<lparr>contests := rows\<rparr>)
       (insert_row c_id contest_check contest_clash (\<lambda>_. True)
          (x\<lparr>c_id := assigned i (c_id x),
             c_created_at := stamp t (c_created_at x),
             c_updated_at := stamp t (c_updated_at x)\<rparr>) (contests d))"

definition insert_series :: "series \<Rightarrow> time \<Rightarrow> id \<Rightarrow> database \<Rightarrow> go_error + series \<times> database" where
  "insert_series x t i d =
     with_rows (\<lambda>rows. d\<lparr>series_rows := rows\<rparr>)
       (insert_row s_id series_check series_clash (series_refs d)
          (x\<lparr>s_id := assigned i (s_id x),
             s_created_at := stamp t (s_created_at x),
             s_updated_at := stamp t (s_updated_at x)\<rparr>) (series_rows d))"

definition insert_preview :: "import_preview \<Rightarrow> time \<Rightarrow> id \<Rightarrow> database \<Rightarrow> go_error + import_preview \<times> database" where
  "insert_preview x t i d =
     with_rows (\<lambda>rows. d\<lparr>previews := rows\<rparr>)
       (insert_row pv_id preview_check preview_clash (preview_refs d)
          (x\<lparr>pv_id := assigned i (pv_id x)\<rparr>) (previews d))"

definition insert_artifact :: "artifact \<Rightarrow> time \<Rightarrow> id \<Rightarrow> database \<Rightarrow> go_error + artifact \<times> database" where
  "insert_artifact x t i d =
     with_rows (\<lambda>rows. d\<lparr>artifacts := rows\<rparr>)
       (insert_row a_id artifact_check artifact_clash (artifact_refs d)
          (x\<lparr>a_id := assigned i (a_id x),
             a_created_at := stamp t (a_created_at x)\<rparr>) (artifacts d))"

definition insert_problem :: "problem \<Rightarrow> time \<Rightarrow> id \<Rightarrow> database \<Rightarrow> go_error + problem \<times> database" where
  "insert_problem x t i d =
     with_rows (\<lambda>rows. d\<lparr>problems := rows\<rparr>)
       (insert_row p_id problem_check problem_clash (problem_refs d)
          (x\<lparr>p_id := assigned i (p_id x),
             p_created_at := stamp t (p_created_at x),
             p_updated_at := stamp t (p_updated_at x)\<rparr>) (problems d))"

definition insert_revision :: "revision \<Rightarrow> time \<Rightarrow> id \<Rightarrow> database \<Rightarrow> go_error + revision \<times> database" where
  "insert_revision x t i d =
     with_rows (\<lambda>rows. d\<lparr>revisions := rows\<rparr>)
       (insert_row r_id revision_check revision_clash (revision_refs d)
          (x\<lparr>r_id := assigned i (r_id x),
             r_created_at := stamp t (r_created_at x),
             r_updated_at := stamp t (r_updated_at x)\<rparr>) (revisions d))"

definition insert_series_problem :: "series_problem \<Rightarrow> time \<Rightarrow> id \<Rightarrow> database \<Rightarrow> go_error + series_problem \<times> database" where
  "insert_series_problem x t i d =
     with_rows (\<lambda>rows. d\<lparr>series_problems := rows\<rparr>)
       (insert_row sp_id series_problem_check series_problem_clash (series_problem_refs d)
          (x\<lparr>sp_id := assigned i (sp_id x),
             sp_created_at := stamp t (sp_created_at x),
             sp_updated_at := stamp t (sp_updated_at x)\<rparr>) (series_problems d))"

definition insert_test :: "test_case \<Rightarrow> time \<Rightarrow> id \<Rightarrow> database \<Rightarrow> go_error + test_case \<times> database" where
  "insert_test x t i d =
     with_rows (\<lambda>rows. d\<lparr>test_cases := rows\<rparr>)
       (insert_row t_id test_check test_clash (test_refs d)
          (x\<lparr>t_id := assigned i (t_id x),
             t_created_at := stamp t (t_created_at x),
             t_updated_at := stamp t (t_updated_at x)\<rparr>) (test_cases d))"

text \<open>
  The upsert of a membership (\<^verbatim>\<open>ON CONFLICT (contest_id, user_id) DO UPDATE SET role\<close>):
  with a row for the pair its role is replaced, otherwise a row is inserted.
\<close>

definition upsert_membership :: "membership \<Rightarrow> time \<Rightarrow> id \<Rightarrow> database \<Rightarrow> go_error + membership \<times> database" where
  "upsert_membership x t i d =
     (if \<exists>m\<in>set (memberships d). membership_clash m x then
        (if \<not> membership_check x then Inl ErrCheckConstraint
         else Inr (x, d\<lparr>memberships := modify (\<lambda>m. membership_clash m x) (\<lambda>m. m\<lparr>m_role := m_role x\<rparr>)
                          (memberships d)\<rparr>))
      else with_rows (\<lambda>rows. d\<lparr>memberships := rows\<rparr>)
             (insert_row m_id membership_check membership_clash (membership_refs d)
                (x\<lparr>m_id := assigned i (m_id x)\<rparr>) (memberships d)))"

section \<open>Updates\<close>

definition update_contests :: "(contest \<Rightarrow> bool) \<Rightarrow> (contest \<Rightarrow> contest) \<Rightarrow> database \<Rightarrow> go_error + nat \<times> database" where
  "update_contests sel upd d =
     with_rows (\<lambda>rows. d\<lparr>contests := rows\<rparr>)
       (update_rows c_id contest_check contest_clash (\<lambda>_. True) sel upd (contests d))"

definition update_series_rows :: "(series \<Rightarrow> bool) \<Rightarrow> (series \<Rightarrow> series) \<Rightarrow> database \<Rightarrow> go_error + nat \<times> database" where
  "update_series_rows sel upd d =
     with_rows (\<lambda>rows. d\<lparr>series_rows := rows\<rparr>)
       (update_rows s_id series_check series_clash (series_refs d) sel upd (series_rows d))"

definition update_previews :: "(import_preview \<Rightarrow> bool) \<Rightarrow> (import_preview \<Rightarrow> import_preview) \<Rightarrow> database \<Rightarrow> go_error + nat \<times> database" where
  "update_previews sel upd d =
     with_rows (\<lambda>rows. d\<lparr>previews := rows\<rparr>)
       (update_rows pv_id preview_check preview_clash (preview_refs d) sel upd (previews d))"

definition update_problems :: "(problem \<Rightarrow> bool) \<Rightarrow> (problem \<Rightarrow> problem) \<Rightarrow> database \<Rightarrow> go_error + nat \<times> database" where
  "update_problems sel upd d =
     with_rows (\<lambda>rows. d\<lparr>problems := rows\<rparr>)
       (update_rows p_id problem_check problem_clash (problem_refs d) sel upd (problems d))"

definition update_revisions :: "(revision \<Rightarrow> bool) \<Rightarrow> (revision \<Rightarrow> revision) \<Rightarrow> database \<Rightarrow> go_error + nat \<times> database" where
  "update_revisions sel upd d =
     with_rows (\<lambda>rows. d\<lparr>revisions := rows\<rparr>)
       (update_rows r_id revision_check revision_clash (revision_refs d) sel upd (revisions d))"

definition update_series_problems :: "(series_problem \<Rightarrow> bool) \<Rightarrow> (series_problem \<Rightarrow> series_problem) \<Rightarrow> database \<Rightarrow> go_error + nat \<times> database" where
  "update_series_problems sel upd d =
     with_rows (\<lambda>rows. d\<lparr>series_problems := rows\<rparr>)
       (update_rows sp_id series_problem_check series_problem_clash (series_problem_refs d) sel upd (series_problems d))"

definition update_test_cases :: "(test_case \<Rightarrow> bool) \<Rightarrow> (test_case \<Rightarrow> test_case) \<Rightarrow> database \<Rightarrow> go_error + nat \<times> database" where
  "update_test_cases sel upd d =
     with_rows (\<lambda>rows. d\<lparr>test_cases := rows\<rparr>)
       (update_rows t_id test_check test_clash (test_refs d) sel upd (test_cases d))"

section \<open>Deletes\<close>

definition delete_sessions :: "(session \<Rightarrow> bool) \<Rightarrow> database \<Rightarrow> go_error + nat \<times> database" where
  "delete_sessions sel d =
     Inr (length (filter sel (sessions d)), d\<lparr>sessions := filter (\<lambda>x. \<not> sel x) (sessions d)\<rparr>)"

definition delete_memberships :: "(membership \<Rightarrow> bool) \<Rightarrow> database \<Rightarrow> go_error + nat \<times> database" where
  "delete_memberships sel d =
     Inr (length (filter sel (memberships d)),
          d\<lparr>memberships := filter (\<lambda>x. \<not> sel x) (memberships d)\<rparr>)"

definition delete_previews :: "(import_preview \<Rightarrow> bool) \<Rightarrow> database \<Rightarrow> go_error + nat \<times> database" where
  "delete_previews sel d =
     Inr (length (filter sel (previews d)), d\<lparr>previews := filter (\<lambda>x. \<not> sel x) (previews d)\<rparr>)"

definition delete_test_cases :: "(test_case \<Rightarrow> bool) \<Rightarrow> database \<Rightarrow> go_error + nat \<times> database" where
  "delete_test_cases sel d =
     Inr (length (filter sel (test_cases d)), d\<lparr>test_cases := filter (\<lambda>x. \<not> sel x) (test_cases d)\<rparr>)"

definition delete_series_problems :: "(series_problem \<Rightarrow> bool) \<Rightarrow> database \<Rightarrow> go_error + nat \<times> database" where
  "delete_series_problems sel d =
     Inr (length (filter sel (series_problems d)),
          d\<lparr>series_problems := filter (\<lambda>x. \<not> sel x) (series_problems d)\<rparr>)"

text \<open>Deleting a series deletes its assignments; deleting a contest also its series and members.\<close>

definition delete_series :: "(series \<Rightarrow> bool) \<Rightarrow> database \<Rightarrow> go_error + nat \<times> database" where
  "delete_series sel d =
     (let gone = filter sel (series_rows d)
      in Inr (length gone,
              d\<lparr>series_rows := filter (\<lambda>x. \<not> sel x) (series_rows d),
                series_problems := filter (\<lambda>a. \<not> has s_id (sp_series_id a) gone) (series_problems d)\<rparr>))"

definition delete_contests :: "(contest \<Rightarrow> bool) \<Rightarrow> database \<Rightarrow> go_error + nat \<times> database" where
  "delete_contests sel d =
     (let gone = filter sel (contests d);
          gone_series = filter (\<lambda>s. has c_id (s_contest_id s) gone) (series_rows d)
      in Inr (length gone,
              d\<lparr>contests := filter (\<lambda>x. \<not> sel x) (contests d),
                memberships := filter (\<lambda>m. \<not> has c_id (m_contest_id m) gone) (memberships d),
                series_rows := filter (\<lambda>s. \<not> has c_id (s_contest_id s) gone) (series_rows d),
                series_problems :=
                  filter (\<lambda>a. \<not> has s_id (sp_series_id a) gone_series) (series_problems d)\<rparr>))"

text \<open>An artifact still referenced by a revision, a test or a preview cannot be deleted.\<close>

definition artifact_referenced :: "database \<Rightarrow> id \<Rightarrow> bool" where
  "artifact_referenced d k \<longleftrightarrow>
     (\<exists>r\<in>set (revisions d). r_pdf_artifact_id r = Some k) \<or>
     (\<exists>t\<in>set (test_cases d). t_input_artifact_id t = k \<or> t_output_artifact_id t = k) \<or>
     (\<exists>p\<in>set (previews d). pv_artifact_id p = k)"

definition delete_artifacts :: "(artifact \<Rightarrow> bool) \<Rightarrow> database \<Rightarrow> go_error + nat \<times> database" where
  "delete_artifacts sel d =
     (let gone = filter sel (artifacts d)
      in if \<exists>a\<in>set gone. artifact_referenced d (a_id a) then Inl ErrForeignKey
         else Inr (length gone, d\<lparr>artifacts := filter (\<lambda>x. \<not> sel x) (artifacts d)\<rparr>))"

section \<open>Every statement preserves the integrity of the schema\<close>

text \<open>The keys other tables refer to are still there.\<close>

definition grows :: "database \<Rightarrow> database \<Rightarrow> bool" where
  "grows d d' \<longleftrightarrow>
     keys_grow u_id (users d) (users d') \<and> keys_grow c_id (contests d) (contests d') \<and>
     keys_grow s_id (series_rows d) (series_rows d') \<and> keys_grow a_id (artifacts d) (artifacts d') \<and>
     keys_grow p_id (problems d) (problems d') \<and> keys_grow r_id (revisions d) (revisions d')"

lemma refs_mono:
  assumes "grows d d'"
  shows "session_refs d s \<Longrightarrow> session_refs d' s" and "series_refs d e \<Longrightarrow> series_refs d' e"
    and "membership_refs d m \<Longrightarrow> membership_refs d' m" and "preview_refs d p \<Longrightarrow> preview_refs d' p"
    and "artifact_refs d a \<Longrightarrow> artifact_refs d' a" and "problem_refs d q \<Longrightarrow> problem_refs d' q"
    and "revision_refs d r \<Longrightarrow> revision_refs d' r"
    and "series_problem_refs d b \<Longrightarrow> series_problem_refs d' b" and "test_refs d t \<Longrightarrow> test_refs d' t"
  using assms by (auto simp: grows_def refs_defs keys_grow_def)

lemma insert_user_ok:
  assumes "insert_user x t i d = Inr (y, d')" and "db_ok d"
  shows "db_ok d'"
proof -
  from assms(1) obtain r rows where run: "insert_row u_id user_check user_clash (\<lambda>_. True) r (users d) = Inr (y, rows)"
    and d': "d' = d\<lparr>users := rows\<rparr>"
    unfolding insert_user_def by (auto elim!: with_rows_InrE)
  have "tables_ok d'"
    using assms(2) users.insert_ok [OF run] by (simp add: db_ok_def tables_ok_def d')
  moreover from run have rows: "rows = users d @ [r]" and ref: "(\<lambda>_. True) r"
    by (auto elim!: insert_row_InrE)
  have "grows d d'" by (simp add: grows_def d' rows)
  from refs_mono [OF this] have "refs_ok d'"
    using assms(2) ref by (auto simp: db_ok_def refs_ok_def d' rows)
  ultimately show ?thesis by (simp add: db_ok_def)
qed

lemma insert_session_ok:
  assumes "insert_session x t i d = Inr (y, d')" and "db_ok d"
  shows "db_ok d'"
proof -
  from assms(1) obtain r rows where run: "insert_row ss_id session_check session_clash (session_refs d) r (sessions d) = Inr (y, rows)"
    and d': "d' = d\<lparr>sessions := rows\<rparr>"
    unfolding insert_session_def by (auto elim!: with_rows_InrE)
  have "tables_ok d'"
    using assms(2) sessions.insert_ok [OF run] by (simp add: db_ok_def tables_ok_def d')
  moreover from run have rows: "rows = sessions d @ [r]" and ref: "(session_refs d) r"
    by (auto elim!: insert_row_InrE)
  have "grows d d'" by (simp add: grows_def d' rows)
  from refs_mono [OF this] have "refs_ok d'"
    using assms(2) ref by (auto simp: db_ok_def refs_ok_def d' rows)
  ultimately show ?thesis by (simp add: db_ok_def)
qed

lemma insert_contest_ok:
  assumes "insert_contest x t i d = Inr (y, d')" and "db_ok d"
  shows "db_ok d'"
proof -
  from assms(1) obtain r rows where run: "insert_row c_id contest_check contest_clash (\<lambda>_. True) r (contests d) = Inr (y, rows)"
    and d': "d' = d\<lparr>contests := rows\<rparr>"
    unfolding insert_contest_def by (auto elim!: with_rows_InrE)
  have "tables_ok d'"
    using assms(2) contests.insert_ok [OF run] by (simp add: db_ok_def tables_ok_def d')
  moreover from run have rows: "rows = contests d @ [r]" and ref: "(\<lambda>_. True) r"
    by (auto elim!: insert_row_InrE)
  have "grows d d'" by (simp add: grows_def d' rows)
  from refs_mono [OF this] have "refs_ok d'"
    using assms(2) ref by (auto simp: db_ok_def refs_ok_def d' rows)
  ultimately show ?thesis by (simp add: db_ok_def)
qed

lemma insert_series_ok:
  assumes "insert_series x t i d = Inr (y, d')" and "db_ok d"
  shows "db_ok d'"
proof -
  from assms(1) obtain r rows where run: "insert_row s_id series_check series_clash (series_refs d) r (series_rows d) = Inr (y, rows)"
    and d': "d' = d\<lparr>series_rows := rows\<rparr>"
    unfolding insert_series_def by (auto elim!: with_rows_InrE)
  have "tables_ok d'"
    using assms(2) series_rows.insert_ok [OF run] by (simp add: db_ok_def tables_ok_def d')
  moreover from run have rows: "rows = series_rows d @ [r]" and ref: "(series_refs d) r"
    by (auto elim!: insert_row_InrE)
  have "grows d d'" by (simp add: grows_def d' rows)
  from refs_mono [OF this] have "refs_ok d'"
    using assms(2) ref by (auto simp: db_ok_def refs_ok_def d' rows)
  ultimately show ?thesis by (simp add: db_ok_def)
qed

lemma insert_preview_ok:
  assumes "insert_preview x t i d = Inr (y, d')" and "db_ok d"
  shows "db_ok d'"
proof -
  from assms(1) obtain r rows where run: "insert_row pv_id preview_check preview_clash (preview_refs d) r (previews d) = Inr (y, rows)"
    and d': "d' = d\<lparr>previews := rows\<rparr>"
    unfolding insert_preview_def by (auto elim!: with_rows_InrE)
  have "tables_ok d'"
    using assms(2) previews.insert_ok [OF run] by (simp add: db_ok_def tables_ok_def d')
  moreover from run have rows: "rows = previews d @ [r]" and ref: "(preview_refs d) r"
    by (auto elim!: insert_row_InrE)
  have "grows d d'" by (simp add: grows_def d' rows)
  from refs_mono [OF this] have "refs_ok d'"
    using assms(2) ref by (auto simp: db_ok_def refs_ok_def d' rows)
  ultimately show ?thesis by (simp add: db_ok_def)
qed

lemma insert_artifact_ok:
  assumes "insert_artifact x t i d = Inr (y, d')" and "db_ok d"
  shows "db_ok d'"
proof -
  from assms(1) obtain r rows where run: "insert_row a_id artifact_check artifact_clash (artifact_refs d) r (artifacts d) = Inr (y, rows)"
    and d': "d' = d\<lparr>artifacts := rows\<rparr>"
    unfolding insert_artifact_def by (auto elim!: with_rows_InrE)
  have "tables_ok d'"
    using assms(2) artifacts.insert_ok [OF run] by (simp add: db_ok_def tables_ok_def d')
  moreover from run have rows: "rows = artifacts d @ [r]" and ref: "(artifact_refs d) r"
    by (auto elim!: insert_row_InrE)
  have "grows d d'" by (simp add: grows_def d' rows)
  from refs_mono [OF this] have "refs_ok d'"
    using assms(2) ref by (auto simp: db_ok_def refs_ok_def d' rows)
  ultimately show ?thesis by (simp add: db_ok_def)
qed

lemma insert_problem_ok:
  assumes "insert_problem x t i d = Inr (y, d')" and "db_ok d"
  shows "db_ok d'"
proof -
  from assms(1) obtain r rows where run: "insert_row p_id problem_check problem_clash (problem_refs d) r (problems d) = Inr (y, rows)"
    and d': "d' = d\<lparr>problems := rows\<rparr>"
    unfolding insert_problem_def by (auto elim!: with_rows_InrE)
  have "tables_ok d'"
    using assms(2) problems.insert_ok [OF run] by (simp add: db_ok_def tables_ok_def d')
  moreover from run have rows: "rows = problems d @ [r]" and ref: "(problem_refs d) r"
    by (auto elim!: insert_row_InrE)
  have "grows d d'" by (simp add: grows_def d' rows)
  from refs_mono [OF this] have "refs_ok d'"
    using assms(2) ref by (auto simp: db_ok_def refs_ok_def d' rows)
  ultimately show ?thesis by (simp add: db_ok_def)
qed

lemma insert_revision_ok:
  assumes "insert_revision x t i d = Inr (y, d')" and "db_ok d"
  shows "db_ok d'"
proof -
  from assms(1) obtain r rows where run: "insert_row r_id revision_check revision_clash (revision_refs d) r (revisions d) = Inr (y, rows)"
    and d': "d' = d\<lparr>revisions := rows\<rparr>"
    unfolding insert_revision_def by (auto elim!: with_rows_InrE)
  have "tables_ok d'"
    using assms(2) revisions.insert_ok [OF run] by (simp add: db_ok_def tables_ok_def d')
  moreover from run have rows: "rows = revisions d @ [r]" and ref: "(revision_refs d) r"
    by (auto elim!: insert_row_InrE)
  have "grows d d'" by (simp add: grows_def d' rows)
  from refs_mono [OF this] have "refs_ok d'"
    using assms(2) ref by (auto simp: db_ok_def refs_ok_def d' rows)
  ultimately show ?thesis by (simp add: db_ok_def)
qed

lemma insert_series_problem_ok:
  assumes "insert_series_problem x t i d = Inr (y, d')" and "db_ok d"
  shows "db_ok d'"
proof -
  from assms(1) obtain r rows where run: "insert_row sp_id series_problem_check series_problem_clash (series_problem_refs d) r (series_problems d) = Inr (y, rows)"
    and d': "d' = d\<lparr>series_problems := rows\<rparr>"
    unfolding insert_series_problem_def by (auto elim!: with_rows_InrE)
  have "tables_ok d'"
    using assms(2) series_problems.insert_ok [OF run] by (simp add: db_ok_def tables_ok_def d')
  moreover from run have rows: "rows = series_problems d @ [r]" and ref: "(series_problem_refs d) r"
    by (auto elim!: insert_row_InrE)
  have "grows d d'" by (simp add: grows_def d' rows)
  from refs_mono [OF this] have "refs_ok d'"
    using assms(2) ref by (auto simp: db_ok_def refs_ok_def d' rows)
  ultimately show ?thesis by (simp add: db_ok_def)
qed

lemma insert_test_ok:
  assumes "insert_test x t i d = Inr (y, d')" and "db_ok d"
  shows "db_ok d'"
proof -
  from assms(1) obtain r rows where run: "insert_row t_id test_check test_clash (test_refs d) r (test_cases d) = Inr (y, rows)"
    and d': "d' = d\<lparr>test_cases := rows\<rparr>"
    unfolding insert_test_def by (auto elim!: with_rows_InrE)
  have "tables_ok d'"
    using assms(2) test_cases.insert_ok [OF run] by (simp add: db_ok_def tables_ok_def d')
  moreover from run have rows: "rows = test_cases d @ [r]" and ref: "(test_refs d) r"
    by (auto elim!: insert_row_InrE)
  have "grows d d'" by (simp add: grows_def d' rows)
  from refs_mono [OF this] have "refs_ok d'"
    using assms(2) ref by (auto simp: db_ok_def refs_ok_def d' rows)
  ultimately show ?thesis by (simp add: db_ok_def)
qed

lemma update_contests_ok:
  assumes "update_contests sel upd d = Inr (n, d')" and "db_ok d"
    and key: "\<And>r. sel r \<Longrightarrow> c_id (upd r) = c_id r" and one: "\<And>r q. sel r \<Longrightarrow> sel q \<Longrightarrow> c_id r = c_id q"
  shows "db_ok d'"
proof -
  from assms(1) obtain rows where run: "update_rows c_id contest_check contest_clash (\<lambda>_. True) sel upd (contests d) = Inr (n, rows)"
    and d': "d' = d\<lparr>contests := rows\<rparr>"
    unfolding update_contests_def by (auto elim!: with_rows_InrE)
  have "tables_ok d'"
    using assms(2) contests.update_ok [OF run _ key one] by (simp add: db_ok_def tables_ok_def d')
  moreover from run have rows: "rows = modify sel upd (contests d)"
    and ref: "\<And>r. r \<in> set (contests d) \<Longrightarrow> sel r \<Longrightarrow> (\<lambda>_. True) (upd r)"
    by (auto elim!: update_rows_InrE)
  have "grows d d'" by (simp add: grows_def d' rows keys_grow_modify key)
  from refs_mono [OF this] have "refs_ok d'"
    using assms(2) ref by (auto simp: db_ok_def refs_ok_def d' rows in_set_modify)
  ultimately show ?thesis by (simp add: db_ok_def)
qed

lemma update_series_rows_ok:
  assumes "update_series_rows sel upd d = Inr (n, d')" and "db_ok d"
    and key: "\<And>r. sel r \<Longrightarrow> s_id (upd r) = s_id r" and one: "\<And>r q. sel r \<Longrightarrow> sel q \<Longrightarrow> s_id r = s_id q"
  shows "db_ok d'"
proof -
  from assms(1) obtain rows where run: "update_rows s_id series_check series_clash (series_refs d) sel upd (series_rows d) = Inr (n, rows)"
    and d': "d' = d\<lparr>series_rows := rows\<rparr>"
    unfolding update_series_rows_def by (auto elim!: with_rows_InrE)
  have "tables_ok d'"
    using assms(2) series_rows.update_ok [OF run _ key one] by (simp add: db_ok_def tables_ok_def d')
  moreover from run have rows: "rows = modify sel upd (series_rows d)"
    and ref: "\<And>r. r \<in> set (series_rows d) \<Longrightarrow> sel r \<Longrightarrow> (series_refs d) (upd r)"
    by (auto elim!: update_rows_InrE)
  have "grows d d'" by (simp add: grows_def d' rows keys_grow_modify key)
  from refs_mono [OF this] have "refs_ok d'"
    using assms(2) ref by (auto simp: db_ok_def refs_ok_def d' rows in_set_modify)
  ultimately show ?thesis by (simp add: db_ok_def)
qed

lemma update_previews_ok:
  assumes "update_previews sel upd d = Inr (n, d')" and "db_ok d"
    and key: "\<And>r. sel r \<Longrightarrow> pv_id (upd r) = pv_id r" and one: "\<And>r q. sel r \<Longrightarrow> sel q \<Longrightarrow> pv_id r = pv_id q"
  shows "db_ok d'"
proof -
  from assms(1) obtain rows where run: "update_rows pv_id preview_check preview_clash (preview_refs d) sel upd (previews d) = Inr (n, rows)"
    and d': "d' = d\<lparr>previews := rows\<rparr>"
    unfolding update_previews_def by (auto elim!: with_rows_InrE)
  have "tables_ok d'"
    using assms(2) previews.update_ok [OF run _ key one] by (simp add: db_ok_def tables_ok_def d')
  moreover from run have rows: "rows = modify sel upd (previews d)"
    and ref: "\<And>r. r \<in> set (previews d) \<Longrightarrow> sel r \<Longrightarrow> (preview_refs d) (upd r)"
    by (auto elim!: update_rows_InrE)
  have "grows d d'" by (simp add: grows_def d' rows keys_grow_modify key)
  from refs_mono [OF this] have "refs_ok d'"
    using assms(2) ref by (auto simp: db_ok_def refs_ok_def d' rows in_set_modify)
  ultimately show ?thesis by (simp add: db_ok_def)
qed

lemma update_problems_ok:
  assumes "update_problems sel upd d = Inr (n, d')" and "db_ok d"
    and key: "\<And>r. sel r \<Longrightarrow> p_id (upd r) = p_id r" and one: "\<And>r q. sel r \<Longrightarrow> sel q \<Longrightarrow> p_id r = p_id q"
  shows "db_ok d'"
proof -
  from assms(1) obtain rows where run: "update_rows p_id problem_check problem_clash (problem_refs d) sel upd (problems d) = Inr (n, rows)"
    and d': "d' = d\<lparr>problems := rows\<rparr>"
    unfolding update_problems_def by (auto elim!: with_rows_InrE)
  have "tables_ok d'"
    using assms(2) problems.update_ok [OF run _ key one] by (simp add: db_ok_def tables_ok_def d')
  moreover from run have rows: "rows = modify sel upd (problems d)"
    and ref: "\<And>r. r \<in> set (problems d) \<Longrightarrow> sel r \<Longrightarrow> (problem_refs d) (upd r)"
    by (auto elim!: update_rows_InrE)
  have "grows d d'" by (simp add: grows_def d' rows keys_grow_modify key)
  from refs_mono [OF this] have "refs_ok d'"
    using assms(2) ref by (auto simp: db_ok_def refs_ok_def d' rows in_set_modify)
  ultimately show ?thesis by (simp add: db_ok_def)
qed

lemma update_revisions_ok:
  assumes "update_revisions sel upd d = Inr (n, d')" and "db_ok d"
    and key: "\<And>r. sel r \<Longrightarrow> r_id (upd r) = r_id r" and one: "\<And>r q. sel r \<Longrightarrow> sel q \<Longrightarrow> r_id r = r_id q"
  shows "db_ok d'"
proof -
  from assms(1) obtain rows where run: "update_rows r_id revision_check revision_clash (revision_refs d) sel upd (revisions d) = Inr (n, rows)"
    and d': "d' = d\<lparr>revisions := rows\<rparr>"
    unfolding update_revisions_def by (auto elim!: with_rows_InrE)
  have "tables_ok d'"
    using assms(2) revisions.update_ok [OF run _ key one] by (simp add: db_ok_def tables_ok_def d')
  moreover from run have rows: "rows = modify sel upd (revisions d)"
    and ref: "\<And>r. r \<in> set (revisions d) \<Longrightarrow> sel r \<Longrightarrow> (revision_refs d) (upd r)"
    by (auto elim!: update_rows_InrE)
  have "grows d d'" by (simp add: grows_def d' rows keys_grow_modify key)
  from refs_mono [OF this] have "refs_ok d'"
    using assms(2) ref by (auto simp: db_ok_def refs_ok_def d' rows in_set_modify)
  ultimately show ?thesis by (simp add: db_ok_def)
qed

lemma update_series_problems_ok:
  assumes "update_series_problems sel upd d = Inr (n, d')" and "db_ok d"
    and key: "\<And>r. sel r \<Longrightarrow> sp_id (upd r) = sp_id r" and one: "\<And>r q. sel r \<Longrightarrow> sel q \<Longrightarrow> sp_id r = sp_id q"
  shows "db_ok d'"
proof -
  from assms(1) obtain rows where run: "update_rows sp_id series_problem_check series_problem_clash (series_problem_refs d) sel upd (series_problems d) = Inr (n, rows)"
    and d': "d' = d\<lparr>series_problems := rows\<rparr>"
    unfolding update_series_problems_def by (auto elim!: with_rows_InrE)
  have "tables_ok d'"
    using assms(2) series_problems.update_ok [OF run _ key one] by (simp add: db_ok_def tables_ok_def d')
  moreover from run have rows: "rows = modify sel upd (series_problems d)"
    and ref: "\<And>r. r \<in> set (series_problems d) \<Longrightarrow> sel r \<Longrightarrow> (series_problem_refs d) (upd r)"
    by (auto elim!: update_rows_InrE)
  have "grows d d'" by (simp add: grows_def d' rows keys_grow_modify key)
  from refs_mono [OF this] have "refs_ok d'"
    using assms(2) ref by (auto simp: db_ok_def refs_ok_def d' rows in_set_modify)
  ultimately show ?thesis by (simp add: db_ok_def)
qed

lemma update_test_cases_ok:
  assumes "update_test_cases sel upd d = Inr (n, d')" and "db_ok d"
    and key: "\<And>r. sel r \<Longrightarrow> t_id (upd r) = t_id r" and one: "\<And>r q. sel r \<Longrightarrow> sel q \<Longrightarrow> t_id r = t_id q"
  shows "db_ok d'"
proof -
  from assms(1) obtain rows where run: "update_rows t_id test_check test_clash (test_refs d) sel upd (test_cases d) = Inr (n, rows)"
    and d': "d' = d\<lparr>test_cases := rows\<rparr>"
    unfolding update_test_cases_def by (auto elim!: with_rows_InrE)
  have "tables_ok d'"
    using assms(2) test_cases.update_ok [OF run _ key one] by (simp add: db_ok_def tables_ok_def d')
  moreover from run have rows: "rows = modify sel upd (test_cases d)"
    and ref: "\<And>r. r \<in> set (test_cases d) \<Longrightarrow> sel r \<Longrightarrow> (test_refs d) (upd r)"
    by (auto elim!: update_rows_InrE)
  have "grows d d'" by (simp add: grows_def d' rows keys_grow_modify key)
  from refs_mono [OF this] have "refs_ok d'"
    using assms(2) ref by (auto simp: db_ok_def refs_ok_def d' rows in_set_modify)
  ultimately show ?thesis by (simp add: db_ok_def)
qed

lemma upsert_membership_ok:
  assumes "upsert_membership x t i d = Inr (y, d')" and "db_ok d"
  shows "db_ok d'"
proof (cases "\<exists>m\<in>set (memberships d). membership_clash m x")
  case True
  with assms(1) have chk: "membership_check x"
    and d': "d' = d\<lparr>memberships := modify (\<lambda>m. membership_clash m x) (\<lambda>m. m\<lparr>m_role := m_role x\<rparr>)
                      (memberships d)\<rparr>"
    by (auto simp: upsert_membership_def split: if_splits)
  have "table_ok m_id membership_check membership_clash (memberships d')"
    unfolding d' using assms(2) chk
    by (simp add: memberships.modify_ok db_ok_def tables_ok_def membership_check_def membership_clash_def)
  then have "tables_ok d'" using assms(2) by (simp add: db_ok_def tables_ok_def d')
  moreover have "grows d d'" by (simp add: grows_def d')
  from refs_mono [OF this] have "refs_ok d'"
    using assms(2) by (auto simp: db_ok_def refs_ok_def d' in_set_modify membership_refs_def)
  ultimately show ?thesis by (simp add: db_ok_def)
next
  case False
  then obtain r rows where run: "insert_row m_id membership_check membership_clash (membership_refs d)
        r (memberships d) = Inr (y, rows)" and d': "d' = d\<lparr>memberships := rows\<rparr>"
    using assms(1) by (auto simp: upsert_membership_def elim!: with_rows_InrE)
  have "tables_ok d'"
    using assms(2) memberships.insert_ok [OF run] by (simp add: db_ok_def tables_ok_def d')
  moreover from run have rows: "rows = memberships d @ [r]" and ref: "membership_refs d r"
    by (auto elim!: insert_row_InrE)
  have "grows d d'" by (simp add: grows_def d')
  from refs_mono [OF this] have "refs_ok d'"
    using assms(2) ref by (auto simp: db_ok_def refs_ok_def d' rows)
  ultimately show ?thesis by (simp add: db_ok_def)
qed

lemmas filter_oks = users.filter_ok sessions.filter_ok contests.filter_ok series_rows.filter_ok
  memberships.filter_ok previews.filter_ok artifacts.filter_ok problems.filter_ok revisions.filter_ok
  series_problems.filter_ok test_cases.filter_ok

lemma delete_plain_refs:
  assumes "refs_ok d"
  shows "refs_ok (d\<lparr>sessions := filter P (sessions d)\<rparr>)"
    and "refs_ok (d\<lparr>memberships := filter Q (memberships d)\<rparr>)"
    and "refs_ok (d\<lparr>previews := filter V (previews d)\<rparr>)"
    and "refs_ok (d\<lparr>test_cases := filter T (test_cases d)\<rparr>)"
    and "refs_ok (d\<lparr>series_problems := filter S (series_problems d)\<rparr>)"
  using assms by (simp_all add: refs_ok_def refs_defs)

lemma delete_plain_ok:
  "delete_sessions P d = Inr (n, d') \<Longrightarrow> db_ok d \<Longrightarrow> db_ok d'"
  "delete_memberships Q d = Inr (n, d') \<Longrightarrow> db_ok d \<Longrightarrow> db_ok d'"
  "delete_previews V d = Inr (n, d') \<Longrightarrow> db_ok d \<Longrightarrow> db_ok d'"
  "delete_test_cases T d = Inr (n, d') \<Longrightarrow> db_ok d \<Longrightarrow> db_ok d'"
  "delete_series_problems S d = Inr (n, d') \<Longrightarrow> db_ok d \<Longrightarrow> db_ok d'"
proof -
  show "delete_sessions P d = Inr (n, d') \<Longrightarrow> db_ok d \<Longrightarrow> db_ok d'"
    by (auto simp: delete_sessions_def db_ok_def delete_plain_refs) (simp add: tables_ok_def filter_oks)
  show "delete_memberships Q d = Inr (n, d') \<Longrightarrow> db_ok d \<Longrightarrow> db_ok d'"
    by (auto simp: delete_memberships_def db_ok_def delete_plain_refs) (simp add: tables_ok_def filter_oks)
  show "delete_previews V d = Inr (n, d') \<Longrightarrow> db_ok d \<Longrightarrow> db_ok d'"
    by (auto simp: delete_previews_def db_ok_def delete_plain_refs) (simp add: tables_ok_def filter_oks)
  show "delete_test_cases T d = Inr (n, d') \<Longrightarrow> db_ok d \<Longrightarrow> db_ok d'"
    by (auto simp: delete_test_cases_def db_ok_def delete_plain_refs) (simp add: tables_ok_def filter_oks)
  show "delete_series_problems S d = Inr (n, d') \<Longrightarrow> db_ok d \<Longrightarrow> db_ok d'"
    by (auto simp: delete_series_problems_def db_ok_def delete_plain_refs) (simp add: tables_ok_def filter_oks)
qed

lemma delete_series_ok:
  assumes "delete_series sel d = Inr (n, d')" and "db_ok d"
  shows "db_ok d'"
proof -
  from assms(1) have d': "d' = d\<lparr>series_rows := filter (\<lambda>x. \<not> sel x) (series_rows d),
      series_problems := filter (\<lambda>a. \<not> has s_id (sp_series_id a) (filter sel (series_rows d)))
        (series_problems d)\<rparr>" by (simp add: delete_series_def Let_def)
  have "tables_ok d'" using assms(2) by (simp add: d' db_ok_def tables_ok_def filter_oks)
  moreover have "series_problem_refs d' a" if "a \<in> set (series_problems d')" for a
  proof -
    from that have a: "a \<in> set (series_problems d)" "\<not> has s_id (sp_series_id a) (filter sel (series_rows d))"
      by (auto simp: d')
    then have "series_problem_refs d a" using assms(2) by (simp add: db_ok_def refs_ok_def)
    with a(2) show ?thesis by (auto simp: series_problem_refs_def d' has_def)
  qed
  moreover have "\<forall>x\<in>set (series_rows d'). series_refs d' x"
    using assms(2) by (simp add: d' db_ok_def refs_ok_def series_refs_def)
  ultimately show ?thesis
    using assms(2) by (simp add: d' db_ok_def refs_ok_def session_refs_def membership_refs_def
        preview_refs_def artifact_refs_def problem_refs_def revision_refs_def test_refs_def)
qed

lemma delete_contests_ok:
  assumes "delete_contests sel d = Inr (n, d')" and "db_ok d"
  shows "db_ok d'"
proof -
  let ?gone = "filter sel (contests d)"
  let ?gs = "filter (\<lambda>s. has c_id (s_contest_id s) ?gone) (series_rows d)"
  from assms(1) have d': "d' = d\<lparr>contests := filter (\<lambda>x. \<not> sel x) (contests d),
      memberships := filter (\<lambda>m. \<not> has c_id (m_contest_id m) ?gone) (memberships d),
      series_rows := filter (\<lambda>s. \<not> has c_id (s_contest_id s) ?gone) (series_rows d),
      series_problems := filter (\<lambda>a. \<not> has s_id (sp_series_id a) ?gs) (series_problems d)\<rparr>"
    by (simp add: delete_contests_def Let_def)
  have "tables_ok d'" using assms(2) by (simp add: d' db_ok_def tables_ok_def filter_oks)
  moreover have kept: "has c_id k (contests d')" if "has c_id k (contests d)" "\<not> has c_id k ?gone" for k
    using that by (auto simp: d' has_def)
  have "series_refs d' s" if "s \<in> set (series_rows d')" for s
    using that kept assms(2) by (auto simp: series_refs_def d' db_ok_def refs_ok_def)
  moreover have "membership_refs d' m" if "m \<in> set (memberships d')" for m
    using that kept assms(2) by (auto simp: membership_refs_def d' db_ok_def refs_ok_def)
  moreover have "series_problem_refs d' a" if "a \<in> set (series_problems d')" for a
  proof -
    from that have a: "a \<in> set (series_problems d)" "\<not> has s_id (sp_series_id a) ?gs"
      by (auto simp: d')
    then have "series_problem_refs d a" using assms(2) by (simp add: db_ok_def refs_ok_def)
    with a(2) show ?thesis by (auto simp: series_problem_refs_def d' has_def)
  qed
  ultimately show ?thesis
    using assms(2) by (simp add: d' db_ok_def refs_ok_def session_refs_def
        preview_refs_def artifact_refs_def problem_refs_def revision_refs_def test_refs_def)
qed

lemma delete_artifacts_ok:
  assumes "delete_artifacts sel d = Inr (n, d')" and "db_ok d"
  shows "db_ok d'"
proof -
  from assms(1) have d': "d' = d\<lparr>artifacts := filter (\<lambda>x. \<not> sel x) (artifacts d)\<rparr>"
    and free: "\<And>a. a \<in> set (artifacts d) \<Longrightarrow> sel a \<Longrightarrow> \<not> artifact_referenced d (a_id a)"
    by (auto simp: delete_artifacts_def Let_def split: if_splits)
  have kept: "has a_id k (artifacts d')" if "has a_id k (artifacts d)" "artifact_referenced d k" for k
    using that free by (auto simp: d' has_def)
  have "tables_ok d'" using assms(2) by (simp add: d' db_ok_def tables_ok_def filter_oks)
  moreover have "revision_refs d' r" if "r \<in> set (revisions d')" for r
  proof -
    from that have r: "r \<in> set (revisions d)" by (simp add: d')
    then have "revision_refs d r" using assms(2) by (simp add: db_ok_def refs_ok_def)
    moreover have "artifact_referenced d k" if "k \<in> set_option (r_pdf_artifact_id r)" for k
      using that r by (auto simp: artifact_referenced_def)
    ultimately show ?thesis using kept by (simp add: revision_refs_def d')
  qed
  moreover have "preview_refs d' p" if "p \<in> set (previews d')" for p
  proof -
    from that have "artifact_referenced d (pv_artifact_id p)" "preview_refs d p"
      using assms(2) by (auto simp: artifact_referenced_def db_ok_def refs_ok_def d')
    then show ?thesis using kept by (simp add: preview_refs_def d')
  qed
  moreover have "test_refs d' t" if "t \<in> set (test_cases d')" for t
  proof -
    from that have "artifact_referenced d (t_input_artifact_id t)"
      "artifact_referenced d (t_output_artifact_id t)" "test_refs d t"
      using assms(2) by (auto simp: artifact_referenced_def db_ok_def refs_ok_def d')
    then show ?thesis using kept by (simp add: test_refs_def d')
  qed
  ultimately show ?thesis
    using assms(2) by (simp add: d' db_ok_def refs_ok_def session_refs_def series_refs_def
        membership_refs_def artifact_refs_def problem_refs_def series_problem_refs_def)
qed

lemmas delete_oks = delete_plain_ok delete_series_ok delete_contests_ok delete_artifacts_ok
lemmas insert_oks = insert_user_ok insert_session_ok insert_contest_ok insert_series_ok
  insert_preview_ok insert_artifact_ok insert_problem_ok insert_revision_ok
  insert_series_problem_ok insert_test_ok upsert_membership_ok

section \<open>Integrity as an order on worlds\<close>

definition keeps_integrity :: "database world \<Rightarrow> database world \<Rightarrow> bool" where
  "keeps_integrity w w' \<longleftrightarrow> (db_ok (db w) \<longrightarrow> db_ok (db w'))"

interpretation integrity: world_order keeps_integrity
  by unfold_locales (auto simp: keeps_integrity_def)

lemma integrity_exec:
  assumes "\<And>t i d a d'. f t i d = Inr (a, d') \<Longrightarrow> db_ok d \<Longrightarrow> db_ok d'"
  shows "keeps keeps_integrity (exec f)"
  by (rule integrity.keeps_exec) (use assms in \<open>auto simp: keeps_integrity_def\<close>)

lemma integrity_on_dir: "keeps keeps_integrity (on_dir f)"
  by (rule integrity.keeps_on_dir) (simp add: keeps_integrity_def)

end
