(* ===== verification/Db_Contests.thy ===== *)
theory Db_Contests
  imports Statements
begin

text \<open>
  Contests and series (internal/db/contests.go): validation, creation, the listings,
  updates and deletion. An operation that fills in or trims the struct it is given returns
  that struct. The order of null start times in the public listing is the engine's, so it
  is a parameter.
\<close>

section \<open>Contests\<close>

definition validateContest :: "contest \<Rightarrow> go_error + contest" where
  "validateContest contest =
     (let c = contest\<lparr>c_title := trim_space (c_title contest),
                      c_description := trim_space (c_description contest)\<rparr>;
          c = (if c_visibility c = [] then c\<lparr>c_visibility := ContestDraft\<rparr> else c)
      in if c_title c = [] then Inl (ValidationError ''contest title is required'')
         else if length (c_title c) > 300 \<or> int (length (c_description c)) > 100000
         then Inl (ValidationError ''contest fields are too large'')
         else if c_visibility c \<noteq> ContestDraft \<and> c_visibility c \<noteq> ContestPublished
         then Inl (ValidationError ''invalid contest visibility'')
         else (case (c_start_at c, c_end_at c) of
                 (Some a, Some b) \<Rightarrow>
                   if \<not> a < b
                   then Inl (ValidationError ''contest end time must be after start time'')
                   else Inr c
               | _ \<Rightarrow> Inr c))"

definition CreateContest :: "contest \<Rightarrow> (database, contest) go" where
  "CreateContest contest =
     andThen (of_sum (validateContest contest)) (\<lambda>c. exec (insert_contest c))"

definition ListContests :: "(database, contest list) go" where
  "ListContests = query (\<lambda>d. sort_key (\<lambda>c. - int (c_id c)) (contests d))"

definition GetContest :: "id \<Rightarrow> (database, contest) go" where
  "GetContest contestID = first contests c_id (\<lambda>c. c_id c = contestID)"

definition start_rank :: "bool \<Rightarrow> contest \<Rightarrow> nat" where
  "start_rank nulls_first c = (if (c_start_at c = None) = nulls_first then 0 else 1)"

definition start_value :: "contest \<Rightarrow> time" where
  "start_value c = (case c_start_at c of None \<Rightarrow> 0 | Some t \<Rightarrow> t)"

definition public_order :: "bool \<Rightarrow> contest list \<Rightarrow> contest list" where
  "public_order nulls_first cs =
     sort_key (start_rank nulls_first) (sort_key start_value (sort_key (\<lambda>c. - int (c_id c)) cs))"

definition ListPublicContests :: "bool \<Rightarrow> (database, contest list) go" where
  "ListPublicContests nulls_first =
     query (\<lambda>d. public_order nulls_first
                  (filter (\<lambda>c. c_visibility c = ContestPublished) (contests d)))"

definition GetPublicContest :: "id \<Rightarrow> (database, contest) go" where
  "GetPublicContest contestID =
     first contests c_id (\<lambda>c. c_id c = contestID \<and> c_visibility c = ContestPublished)"

definition set_contest_fields :: "contest \<Rightarrow> time \<Rightarrow> contest \<Rightarrow> contest" where
  "set_contest_fields c t r =
     r\<lparr>c_title := c_title c, c_description := c_description c, c_visibility := c_visibility c,
       c_start_at := c_start_at c, c_end_at := c_end_at c, c_updated_at := t\<rparr>"

definition UpdateContest :: "contest \<Rightarrow> (database, contest) go" where
  "UpdateContest contest =
     andThen (reject (c_id contest = 0) ErrRecordNotFound) (\<lambda>_.
     andThen (of_sum (validateContest contest)) (\<lambda>c.
     andThen (exec (\<lambda>t i. update_contests (\<lambda>r. c_id r = c_id c) (set_contest_fields c t))) (\<lambda>n.
     andThen (reject (n = 0) ErrRecordNotFound) (\<lambda>_.
     ret c))))"

definition DeleteContest :: "id \<Rightarrow> (database, unit) go" where
  "DeleteContest contestID =
     andThen (exec (\<lambda>t i. delete_contests (\<lambda>c. c_id c = contestID))) (\<lambda>n.
     reject (n = 0) ErrRecordNotFound)"

section \<open>Series\<close>

definition validateSeries :: "series \<Rightarrow> go_error + series" where
  "validateSeries series =
     (let s = series\<lparr>s_title := trim_space (s_title series)\<rparr>
      in if s_contest_id s = 0 then Inl (ValidationError ''contest is required'')
         else if s_title s = [] \<or> length (s_title s) > 300
         then Inl (ValidationError ''series title must contain between 1 and 300 bytes'')
         else if s_position s < 0
         then Inl (ValidationError ''series position must not be negative'')
         else (case (s_start_at s, s_end_at s) of
                 (Some a, Some b) \<Rightarrow>
                   if \<not> a < b
                   then Inl (ValidationError ''series end time must be after start time'')
                   else Inr s
               | _ \<Rightarrow> Inr s))"

definition CreateSeries :: "series \<Rightarrow> (database, series) go" where
  "CreateSeries series = andThen (of_sum (validateSeries series)) (\<lambda>s. exec (insert_series s))"

definition ListSeries :: "id \<Rightarrow> (database, series list) go" where
  "ListSeries contestID =
     query (\<lambda>d. sort_key s_position (filter (\<lambda>s. s_contest_id s = contestID) (series_rows d)))"

definition GetSeries :: "id \<Rightarrow> (database, series) go" where
  "GetSeries seriesID = first series_rows s_id (\<lambda>s. s_id s = seriesID)"

definition set_series_fields :: "series \<Rightarrow> time \<Rightarrow> series \<Rightarrow> series" where
  "set_series_fields s t r =
     r\<lparr>s_title := s_title s, s_position := s_position s, s_start_at := s_start_at s,
       s_end_at := s_end_at s, s_release_at := s_release_at s, s_updated_at := t\<rparr>"

definition UpdateSeries :: "series \<Rightarrow> (database, series) go" where
  "UpdateSeries series =
     andThen (reject (s_id series = 0) ErrRecordNotFound) (\<lambda>_.
     andThen (of_sum (validateSeries series)) (\<lambda>s.
     andThen (exec (\<lambda>t i. update_series_rows
                (\<lambda>r. s_id r = s_id s \<and> s_contest_id r = s_contest_id s) (set_series_fields s t))) (\<lambda>n.
     andThen (reject (n = 0) ErrRecordNotFound) (\<lambda>_.
     ret s))))"

definition DeleteSeries :: "id \<Rightarrow> (database, unit) go" where
  "DeleteSeries seriesID =
     andThen (exec (\<lambda>t i. delete_series (\<lambda>s. s_id s = seriesID))) (\<lambda>n.
     reject (n = 0) ErrRecordNotFound)"

section \<open>Facts the components above use\<close>

named_theorems integrity_intros

lemmas [integrity_intros] = integrity.keeps_rules integrity_exec integrity_on_dir

lemma validateContest_Inr:
  assumes "validateContest c = Inr c'"
  shows "contest_check c'" and "c_id c' = c_id c" and "length (c_title c') \<le> 300"
    and "length (c_description c') \<le> 100000" and "c_title c' = trim_space (c_title c)"
    and "c_description c' = trim_space (c_description c)"
    and "c_start_at c' = c_start_at c" and "c_end_at c' = c_end_at c"
    and "c_visibility c' = (if c_visibility c = [] then ContestDraft else c_visibility c)"
  using assms
  by (auto simp: validateContest_def Let_def contest_check_def split: if_splits option.splits)

lemma validateSeries_Inr:
  assumes "validateSeries s = Inr s'"
  shows "series_check s'" and "s' = s\<lparr>s_title := trim_space (s_title s)\<rparr>"
    and "length (s_title s') \<le> 300" and "s_contest_id s' \<noteq> 0"
  using assms
  by (auto simp: validateSeries_def Let_def series_check_def split: if_splits option.splits)

lemma set_contest_fields_id [simp]: "c_id (set_contest_fields c t r) = c_id r"
  by (simp add: set_contest_fields_def)

lemma set_series_fields_id [simp]: "s_id (set_series_fields s t r) = s_id r"
  by (simp add: set_series_fields_def)

lemma contests_go_integrity [integrity_intros]:
  "keeps keeps_integrity (CreateContest c)" "keeps keeps_integrity (UpdateContest c)"
  "keeps keeps_integrity (DeleteContest k)" "keeps keeps_integrity (CreateSeries s)"
  "keeps keeps_integrity (UpdateSeries s)" "keeps keeps_integrity (DeleteSeries k)"
  unfolding CreateContest_def UpdateContest_def DeleteContest_def CreateSeries_def UpdateSeries_def
    DeleteSeries_def
  by (intro integrity_intros; auto elim: insert_oks delete_oks update_contests_ok update_series_rows_ok)+

named_theorems read_intros

lemmas [read_intros] = reads.keeps_rules

lemma contests_go_reads [read_intros]:
  "keeps db_same ListContests" "keeps db_same (GetContest k)"
  "keeps db_same (ListPublicContests b)" "keeps db_same (GetPublicContest k)"
  "keeps db_same (ListSeries k)" "keeps db_same (GetSeries k)"
  unfolding ListContests_def GetContest_def ListPublicContests_def GetPublicContest_def
    ListSeries_def GetSeries_def
  by (intro read_intros)+

lemma GetContest_InrE [go_elims]:
  assumes "GetContest k E w = (Inr c, w')"
  obtains "first_row c_id (\<lambda>c. c_id c = k) (contests (db w)) = Some c"
    and "w' = w\<lparr>ticks := Suc (ticks w)\<rparr>"
  using assms unfolding GetContest_def by (auto elim!: go_elims)

lemma GetSeries_InrE [go_elims]:
  assumes "GetSeries k E w = (Inr s, w')"
  obtains "first_row s_id (\<lambda>s. s_id s = k) (series_rows (db w)) = Some s"
    and "w' = w\<lparr>ticks := Suc (ticks w)\<rparr>"
  using assms unfolding GetSeries_def by (auto elim!: go_elims)

end
