(* ===== verification/Go_Json.thy ===== *)
theory Go_Json
  imports Go_Lib
begin

text \<open>
  What the program uses of \<^verbatim>\<open>encoding/json\<close> on language lists: decoding a JSON text
  into a slice of strings, and encoding such a slice. Decoding succeeds with a non-nil
  slice exactly on an array whose elements are strings or \<^verbatim>\<open>null\<close> (a \<^verbatim>\<open>null\<close>
  element leaves the empty string); any other JSON text is a type error, \<^verbatim>\<open>null\<close>
  gives a nil slice, and anything else is a syntax error, and the caller treats the
  three alike.
\<close>

section \<open>UTF-8\<close>

definition in_range :: "nat \<Rightarrow> nat \<Rightarrow> char \<Rightarrow> bool" where
  "in_range lo hi c \<longleftrightarrow> lo \<le> code c \<and> code c \<le> hi"

abbreviation cont :: "char \<Rightarrow> bool" where
  "cont \<equiv> in_range 128 191"

text \<open>
  The width of the valid encoding a byte string starts with, 0 when it starts with none
  (\<^verbatim>\<open>utf8.DecodeRune\<close> then reports \<^verbatim>\<open>RuneError\<close> with size 1).
\<close>

definition rune_width :: "string \<Rightarrow> nat" where
  "rune_width s =
     (case s of
        [] \<Rightarrow> 0
      | a # s1 \<Rightarrow>
          if code a < (128::nat) then 1
          else (case s1 of
             [] \<Rightarrow> 0
           | b # s2 \<Rightarrow>
               if in_range 194 223 a then (if cont b then 2 else 0)
               else (case s2 of
                  [] \<Rightarrow> 0
                | c # s3 \<Rightarrow>
                    if code a = (224::nat) then (if in_range 160 191 b \<and> cont c then 3 else 0)
                    else if in_range 225 236 a \<or> in_range 238 239 a
                    then (if cont b \<and> cont c then 3 else 0)
                    else if code a = (237::nat) then (if in_range 128 159 b \<and> cont c then 3 else 0)
                    else (case s3 of
                       [] \<Rightarrow> 0
                     | d # _ \<Rightarrow>
                         if code a = (240::nat)
                         then (if in_range 144 191 b \<and> cont c \<and> cont d then 4 else 0)
                         else if in_range 241 243 a
                         then (if cont b \<and> cont c \<and> cont d then 4 else 0)
                         else if code a = (244::nat)
                         then (if in_range 128 143 b \<and> cont c \<and> cont d then 4 else 0)
                         else 0))))"

text \<open>\<^verbatim>\<open>utf8.EncodeRune\<close>; surrogates and values beyond U+10FFFF encode U+FFFD.\<close>

definition encode_rune :: "nat \<Rightarrow> string" where
  "encode_rune r =
     (if r < 128 then [byte r]
      else if r < 2048 then [byte (192 + r div 64), byte (128 + r mod 64)]
      else if (55296 \<le> r \<and> r \<le> 57343) \<or> 1114111 < r then [byte 239, byte 191, byte 189]
      else if r < 65536
      then [byte (224 + r div 4096), byte (128 + r div 64 mod 64), byte (128 + r mod 64)]
      else [byte (240 + r div 262144), byte (128 + r div 4096 mod 64),
            byte (128 + r div 64 mod 64), byte (128 + r mod 64)])"

definition replacement :: string where
  "replacement = [byte 239, byte 191, byte 189]"

lemma rune_width_le: "rune_width s \<le> length s"
  by (simp add: rune_width_def split: list.splits)

section \<open>Decoding\<close>

fun hex4 :: "string \<Rightarrow> (nat \<times> string) option" where
  "hex4 (a # b # c # d # s) =
     (if is_hex a \<and> is_hex b \<and> is_hex c \<and> is_hex d
      then Some (4096 * hex_value a + 256 * hex_value b + 16 * hex_value c + hex_value d, s)
      else None)"
| "hex4 _ = None"

text \<open>
  A surrogate must be followed by the escape of the other half; otherwise it alone decodes
  to U+FFFD and what follows is read again.
\<close>

definition unicode_escape :: "string \<Rightarrow> (string \<times> string) option" where
  "unicode_escape s =
     (case hex4 s of
        None \<Rightarrow> None
      | Some (r, s1) \<Rightarrow>
          if \<not> (55296 \<le> r \<and> r \<le> 57343) then Some (encode_rune r, s1)
          else if r \<le> 56319 \<and> take 2 s1 = [CHR 0x5C, CHR ''u''] then
            (case hex4 (drop 2 s1) of
               Some (r2, s2) \<Rightarrow>
                 if 56320 \<le> r2 \<and> r2 \<le> 57343
                 then Some (encode_rune (65536 + (r - 55296) * 1024 + (r2 - 56320)), s2)
                 else Some (replacement, s1)
             | None \<Rightarrow> Some (replacement, s1))
          else Some (replacement, s1))"

fun simple_escape :: "char \<Rightarrow> char option" where
  "simple_escape c =
     (if c = CHR 0x22 \<or> c = CHR 0x5C \<or> c = CHR 0x2F then Some c
      else if c = CHR ''b'' then Some (CHR 0x08)
      else if c = CHR ''f'' then Some (CHR 0x0C)
      else if c = CHR ''n'' then Some (CHR 0x0A)
      else if c = CHR ''r'' then Some (CHR 0x0D)
      else if c = CHR ''t'' then Some (CHR 0x09)
      else None)"

text \<open>
  The rest of a string literal after its opening quote: its value and what follows the
  closing quote. Fuel is the number of bytes left; every step takes at least one.
\<close>

fun json_chars :: "nat \<Rightarrow> string \<Rightarrow> (string \<times> string) option" where
  "json_chars 0 s = None"
| "json_chars (Suc n) s =
     (case s of
        [] \<Rightarrow> None
      | c # r \<Rightarrow>
          if c = CHR 0x22 then Some ([], r)
          else if code c < (32::nat) then None
          else if c = CHR 0x5C then
            (case r of
               [] \<Rightarrow> None
             | e # r' \<Rightarrow>
                 if e = CHR ''u'' then
                   (case unicode_escape r' of
                      None \<Rightarrow> None
                    | Some (v, r'') \<Rightarrow> map_option (\<lambda>(w, t). (v @ w, t)) (json_chars n r''))
                 else
                   (case simple_escape e of
                      None \<Rightarrow> None
                    | Some d \<Rightarrow> map_option (\<lambda>(w, t). (d # w, t)) (json_chars n r')))
          else
            (let k = rune_width s
             in if k = 0 then map_option (\<lambda>(w, t). (replacement @ w, t)) (json_chars n r)
                else map_option (\<lambda>(w, t). (take k s @ w, t)) (json_chars n (drop k s))))"

definition json_space :: "char \<Rightarrow> bool" where
  "json_space c \<longleftrightarrow> code c = (32::nat) \<or> code c = (9::nat) \<or> code c = (10::nat) \<or> code c = (13::nat)"

abbreviation skip_space :: "string \<Rightarrow> string" where
  "skip_space s \<equiv> dropWhile json_space s"

definition json_element :: "string \<Rightarrow> (string \<times> string) option" where
  "json_element s =
     (case s of
        [] \<Rightarrow> None
      | c # r \<Rightarrow>
          if c = CHR 0x22 then json_chars (length r) r
          else if take 4 s = ''null'' then Some ([], drop 4 s)
          else None)"

text \<open>The elements after an opening bracket, up to and with the closing one.\<close>

fun json_elements :: "nat \<Rightarrow> string \<Rightarrow> (string list \<times> string) option" where
  "json_elements 0 s = None"
| "json_elements (Suc n) s =
     (case json_element (skip_space s) of
        None \<Rightarrow> None
      | Some (v, r) \<Rightarrow>
          (case skip_space r of
             [] \<Rightarrow> None
           | c # r' \<Rightarrow>
               if c = CHR '']'' then Some ([v], r')
               else if c = CHR '','' then map_option (\<lambda>(vs, t). (v # vs, t)) (json_elements n r')
               else None))"

definition json_string_list :: "string \<Rightarrow> string list option" where
  "json_string_list s =
     (case skip_space s of
        [] \<Rightarrow> None
      | c # r \<Rightarrow>
          if c \<noteq> CHR ''['' then None
          else (case skip_space r of
                  d # t \<Rightarrow>
                    if d = CHR '']'' then (if skip_space t = [] then Some [] else None)
                    else (case json_elements (length r) r of
                            Some (vs, u) \<Rightarrow> if skip_space u = [] then Some vs else None
                          | None \<Rightarrow> None)
                | [] \<Rightarrow> None))"

section \<open>The fuel is enough\<close>

text \<open>
  Each step of \<^verbatim>\<open>json_chars\<close> consumes at least one byte, so with the number of bytes
  as fuel it never runs out: more fuel gives the same answer.
\<close>

lemma hex4_shorter: "hex4 s = Some (r, t) \<Longrightarrow> length s = length t + 4"
  by (induction s rule: hex4.induct) (auto split: if_splits)

lemma unicode_escape_shorter: "unicode_escape s = Some (v, t) \<Longrightarrow> length t < length s"
  by (auto simp: unicode_escape_def split: option.splits if_splits prod.splits dest!: hex4_shorter)

lemma json_chars_fuel:
  "length s \<le> n \<Longrightarrow> length s \<le> m \<Longrightarrow> json_chars n s = json_chars m s"
proof (induction n arbitrary: s m)
  case 0
  then show ?case by (cases m) simp_all
next
  case (Suc n)
  show ?case
  proof (cases m)
    case 0
    with Suc.prems show ?thesis by simp
  next
    case (Suc m')
    have *: "json_chars n t = json_chars m' t" if "length t < length s" for t
      using Suc.IH [of t m'] Suc.prems \<open>m = Suc m'\<close> that by simp
    show ?thesis
    proof (cases s)
      case Nil
      then show ?thesis by (simp add: \<open>m = Suc m'\<close>)
    next
      case (Cons c r)
      have r: "json_chars n r = json_chars m' r" using * Cons by simp
      have d: "rune_width s \<noteq> 0 \<Longrightarrow> json_chars n (drop (rune_width s) s) = json_chars m' (drop (rune_width s) s)"
        by (rule *) (use Cons in simp)
      have e: "r = x # y \<Longrightarrow> json_chars n y = json_chars m' y" for x y
        by (rule *) (use Cons in simp)
      have u: "r = x # y \<Longrightarrow> unicode_escape y = Some (v, z) \<Longrightarrow> json_chars n z = json_chars m' z" for x y v z
        by (rule *) (use Cons in \<open>auto dest: unicode_escape_shorter\<close>)
      show ?thesis
        unfolding \<open>m = Suc m'\<close> json_chars.simps(2) Let_def
        using Cons r d e u by (simp split: list.split option.split)
    qed
  qed
qed

lemma json_chars_shorter: "json_chars n s = Some (v, t) \<Longrightarrow> length t < length s"
proof (induction n arbitrary: s v t)
  case (Suc n)
  note shorter = Suc.IH
  show ?case
  proof (cases s)
    case Nil
    with Suc.prems show ?thesis by simp
  next
    case (Cons c r)
    have k: "length t' < length s" if "json_chars n (drop k s) = Some (w, t')" for k w t'
      using shorter [OF that] by simp
    show ?thesis
      using Suc.prems Cons k [where k = "rune_width s"]
      by (auto simp: Let_def split: if_splits list.splits option.splits prod.splits
          dest!: shorter unicode_escape_shorter)
  qed
qed simp

lemma json_element_shorter: "json_element s = Some (v, t) \<Longrightarrow> length t < length s"
  by (auto simp: json_element_def split: list.splits if_splits dest: json_chars_shorter)

lemma skip_space_length: "length (skip_space s) \<le> length s"
  by (rule length_dropWhile_le)

text \<open>So does each element of a list.\<close>

lemma json_elements_fuel:
  "length s \<le> n \<Longrightarrow> length s \<le> m \<Longrightarrow> json_elements n s = json_elements m s"
proof (induction n arbitrary: s m)
  case 0
  then show ?case by (cases m) (simp_all add: json_element_def)
next
  case (Suc n)
  show ?case
  proof (cases m)
    case 0
    with Suc.prems show ?thesis by (simp add: json_element_def)
  next
    case (Suc m')
    show ?thesis
    proof (cases "json_element (skip_space s)")
      case None
      then show ?thesis by (simp add: Suc)
    next
      case (Some vr)
      then obtain v r where e: "json_element (skip_space s) = Some (v, r)" by (cases vr) simp
      show ?thesis
      proof (cases "skip_space r")
        case Nil
        with e show ?thesis by (simp add: \<open>m = Suc m'\<close> del: dropWhile_eq_Nil_conv)
      next
        case (Cons c q)
        have "length q < length s"
          using json_element_shorter [OF e] skip_space_length [of s] skip_space_length [of r] Cons by simp
        then have "json_elements n q = json_elements m' q"
          using Suc.prems \<open>m = Suc m'\<close> by (intro Suc.IH) simp_all
        with e Cons show ?thesis by (simp add: \<open>m = Suc m'\<close>)
      qed
    qed
  qed
qed

end
