(* ===== verification/Db_Problems.thy ===== *)
theory Db_Problems
  imports Db_Contests Go_Json
begin

text \<open>
  Problems, revisions and test cases (internal/db/problems.go): validation, creation of a
  problem with its first draft, the draft lock, editing and publishing a draft, and
  cloning the latest revision into a new draft.
\<close>

section \<open>Validation\<close>

definition validateProblem :: "problem \<Rightarrow> go_error + problem" where
  "validateProblem problem =
     (let p = problem\<lparr>p_title := trim_space (p_title problem), p_code := trim_space (p_code problem)\<rparr>
      in if p_owner_id p = 0 \<or> p_title p = [] \<or> p_code p = []
         then Inl (ValidationError ''problem owner, title and code are required'')
         else if length (p_title p) > 300 \<or> length (p_code p) > 64
         then Inl (ValidationError ''problem title or code is too long'')
         else let p = (if p_kind p = [] then p\<lparr>p_kind := ''programming''\<rparr> else p)
              in if p_kind p \<noteq> ''programming'' then Inl (ValidationError ''invalid problem kind'')
                 else Inr p)"

text \<open>The loop over the languages, with the set of those already seen.\<close>

fun languages_ok :: "string list \<Rightarrow> string list \<Rightarrow> bool" where
  "languages_ok seen [] = True"
| "languages_ok seen (l # ls) =
     (if trim_space l \<noteq> l \<or> l = [] \<or> length l > 100 \<or> l \<in> set seen then False
      else languages_ok (l # seen) ls)"

text \<open>What validation writes through the pointer: trimmed text, and the empty language list.\<close>

definition trimmed_revision :: "revision \<Rightarrow> revision" where
  "trimmed_revision r =
     r\<lparr>r_statement := trim_space (r_statement r),
       r_language_metadata := (let l = trim_space (r_language_metadata r)
                               in if l = [] then ''[]'' else l),
       r_checker_metadata := trim_space (r_checker_metadata r)\<rparr>"

definition validateRevision :: "revision \<Rightarrow> go_error + revision" where
  "validateRevision revision =
     (let r = trimmed_revision revision
      in case json_string_list (r_language_metadata r) of
           None \<Rightarrow> Inl (ValidationError ''languages must be an array of at most 100 identifiers'')
         | Some languages \<Rightarrow>
             if length languages > 100
             then Inl (ValidationError ''languages must be an array of at most 100 identifiers'')
             else if \<not> languages_ok [] languages
             then Inl (ValidationError ''invalid or duplicate language identifier'')
             else if int (length (r_statement r)) > 512 * 1024 \<or> length (r_checker_metadata r) > 200
             then Inl (ValidationError ''revision metadata is too large'')
             else if \<not> pos_opt (r_time_limit_millis r) \<or> \<not> pos_opt (r_memory_limit_kib r)
             then Inl (ValidationError ''limits must be positive'')
             else Inr r)"

section \<open>Problems\<close>

definition CreateProblem :: "problem \<Rightarrow> revision \<Rightarrow> (database, problem \<times> revision) go" where
  "CreateProblem problem revision =
     andThen (of_sum (validateProblem problem)) (\<lambda>p.
     andThen (of_sum (validateRevision revision)) (\<lambda>r.
     transaction (
       andThen (exec (insert_problem p)) (\<lambda>p.
       andThen (exec (insert_revision
                  (r\<lparr>r_problem_id := p_id p, r_number := 1, r_state := RevisionDraft\<rparr>))) (\<lambda>r.
       ret (p, r))))))"

definition GetProblem :: "id \<Rightarrow> (database, problem) go" where
  "GetProblem k = first problems p_id (\<lambda>p. p_id p = k)"

definition ListProblems :: "(database, problem list) go" where
  "ListProblems = query (\<lambda>d. sort_key (\<lambda>p. - int (p_id p)) (problems d))"

section \<open>Revisions\<close>

text \<open>The preloaded PDF row is a second statement, issued when the revision has one.\<close>

definition GetProblemRevision :: "id \<Rightarrow> (database, revision) go" where
  "GetProblemRevision k =
     andThen (first revisions r_id (\<lambda>r. r_id r = k)) (\<lambda>r.
       case r_pdf_artifact_id r of
         None \<Rightarrow> ret r
       | Some a \<Rightarrow> andThen (query (\<lambda>d. filter (\<lambda>x. a_id x = a) (artifacts d))) (\<lambda>_. ret r))"

definition ListProblemRevisions :: "id \<Rightarrow> (database, revision list) go" where
  "ListProblemRevisions problemID =
     query (\<lambda>d. sort_key (\<lambda>r. - r_number r) (filter (\<lambda>r. r_problem_id r = problemID) (revisions d)))"

definition LockDraft :: "id \<Rightarrow> (database, unit) go" where
  "LockDraft k =
     andThen (exec (\<lambda>t i. update_revisions (\<lambda>r. r_id r = k \<and> r_state r = RevisionDraft)
                            (\<lambda>r. r\<lparr>r_state := RevisionDraft\<rparr>))) (\<lambda>n.
     reject (n \<noteq> 1) ErrNotDraft)"

definition set_draft_fields :: "revision \<Rightarrow> time \<Rightarrow> revision \<Rightarrow> revision" where
  "set_draft_fields v t r =
     r\<lparr>r_statement := r_statement v, r_pdf_artifact_id := r_pdf_artifact_id v,
       r_time_limit_millis := r_time_limit_millis v, r_memory_limit_kib := r_memory_limit_kib v,
       r_language_metadata := r_language_metadata v, r_checker_metadata := r_checker_metadata v,
       r_updated_at := t\<rparr>"

definition UpdateDraftRevision :: "revision \<Rightarrow> (database, revision) go" where
  "UpdateDraftRevision revision =
     andThen (reject (r_id revision = 0 \<or> r_state revision \<noteq> RevisionDraft) ErrNotDraft) (\<lambda>_.
     andThen (of_sum (validateRevision revision)) (\<lambda>v.
     transaction (
       andThen (LockDraft (r_id v)) (\<lambda>_.
       andThen (exec (\<lambda>t i. update_revisions (\<lambda>r. r_id r = r_id v) (set_draft_fields v t))) (\<lambda>_.
       ret v)))))"

definition PublishRevision :: "id \<Rightarrow> time \<Rightarrow> (database, unit) go" where
  "PublishRevision revisionID at =
     transaction (
       andThen (LockDraft revisionID) (\<lambda>_.
       andThen (GetProblemRevision revisionID) (\<lambda>revision.
       andThen (of_sum (validateRevision revision)) (\<lambda>v.
       andThen (reject (r_statement v = [] \<and> r_pdf_artifact_id v = None)
                  (ValidationError ''statement or PDF is required for publication'')) (\<lambda>_.
       andThen (exec (\<lambda>t i. update_revisions (\<lambda>r. r_id r = revisionID)
                  (\<lambda>r. r\<lparr>r_state := RevisionPublished, r_published_at := Some at,
                         r_updated_at := t\<rparr>))) (\<lambda>_.
       ret ()))))))"

text \<open>The clone of a revision and of one of its tests; the test keeps its time stamps.\<close>

definition next_draft :: "id \<Rightarrow> revision \<Rightarrow> revision" where
  "next_draft problemID latest =
     \<lparr>r_id = 0, r_problem_id = problemID, r_number = wrap64 (r_number latest + 1),
      r_state = RevisionDraft, r_statement = r_statement latest,
      r_pdf_artifact_id = r_pdf_artifact_id latest,
      r_time_limit_millis = r_time_limit_millis latest,
      r_memory_limit_kib = r_memory_limit_kib latest,
      r_language_metadata = r_language_metadata latest,
      r_checker_metadata = r_checker_metadata latest, r_published_at = None,
      r_created_at = zero_time, r_updated_at = zero_time\<rparr>"

definition clone_test :: "id \<Rightarrow> test_case \<Rightarrow> test_case" where
  "clone_test revisionID test = test\<lparr>t_id := 0, t_problem_revision_id := revisionID\<rparr>"

definition CreateDraftRevision :: "id \<Rightarrow> (database, revision) go" where
  "CreateDraftRevision problemID =
     transaction (
       andThen (exec (\<lambda>t i. update_problems (\<lambda>p. p_id p = problemID) (\<lambda>p. p\<lparr>p_id := problemID\<rparr>))) (\<lambda>_.
       andThen (first revisions (\<lambda>r. - r_number r) (\<lambda>r. r_problem_id r = problemID)) (\<lambda>found.
       andThen (exec (\<lambda>t i. update_revisions (\<lambda>r. r_id r = r_id found) (\<lambda>r. r\<lparr>r_id := r_id found\<rparr>))) (\<lambda>_.
       andThen (first revisions r_id (\<lambda>r. r_id r = r_id found)) (\<lambda>latest.
       andThen (exec (insert_revision (next_draft problemID latest))) (\<lambda>revision.
       andThen (find_all test_cases (\<lambda>t. t_problem_revision_id t = r_id latest)) (\<lambda>tests.
       andThen (for_each tests (\<lambda>test.
                  andThen (exec (insert_test (clone_test (r_id revision) test))) (\<lambda>_. ret ()))) (\<lambda>_.
       ret revision))))))))"

section \<open>Test cases\<close>

definition ListTestCases :: "id \<Rightarrow> (database, test_case list) go" where
  "ListTestCases revisionID =
     query (\<lambda>d. sort_key t_position
                  (filter (\<lambda>t. t_problem_revision_id t = revisionID) (test_cases d)))"

definition CreateTestCase :: "test_case \<Rightarrow> (database, test_case) go" where
  "CreateTestCase test =
     andThen (reject (t_problem_revision_id test = 0 \<or> t_input_artifact_id test = 0 \<or>
                      t_output_artifact_id test = 0 \<or> t_position test < 0)
                (ValidationError ''invalid test case'')) (\<lambda>_.
     transaction (
       andThen (LockDraft (t_problem_revision_id test)) (\<lambda>_.
       exec (insert_test test))))"

section \<open>Facts on validation\<close>

lemma validateProblem_Inr:
  assumes "validateProblem p = Inr q"
  shows "problem_check q" and "q = p\<lparr>p_title := trim_space (p_title p), p_code := trim_space (p_code p),
           p_kind := ''programming''\<rparr>"
    and "length (p_title q) \<le> 300" and "length (p_code q) \<le> 64" and "p_owner_id q \<noteq> 0"
  using assms by (auto simp: validateProblem_def Let_def problem_check_def split: if_splits)

lemma languages_ok_iff:
  "languages_ok seen ls \<longleftrightarrow>
     distinct ls \<and> set ls \<inter> set seen = {} \<and>
     (\<forall>l\<in>set ls. trim_space l = l \<and> l \<noteq> [] \<and> length l \<le> 100)"
  by (induction ls arbitrary: seen) auto

lemma validateRevision_InrE [go_elims]:
  assumes "validateRevision r = Inr v"
  obtains ls where "v = trimmed_revision r"
    and "json_string_list (r_language_metadata v) = Some ls" and "length ls \<le> 100"
    and "languages_ok [] ls" and "length (r_statement v) \<le> 524288"
    and "length (r_checker_metadata v) \<le> 200"
    and "pos_opt (r_time_limit_millis v)" and "pos_opt (r_memory_limit_kib v)"
  using assms by (auto simp: validateRevision_def Let_def split: if_splits option.splits)

lemma trimmed_revision_simps [simp]:
  "r_id (trimmed_revision r) = r_id r" "r_state (trimmed_revision r) = r_state r"
  "r_number (trimmed_revision r) = r_number r" "r_problem_id (trimmed_revision r) = r_problem_id r"
  "r_pdf_artifact_id (trimmed_revision r) = r_pdf_artifact_id r"
  "r_statement (trimmed_revision r) = trim_space (r_statement r)"
  "r_time_limit_millis (trimmed_revision r) = r_time_limit_millis r"
  "r_memory_limit_kib (trimmed_revision r) = r_memory_limit_kib r"
  by (simp_all add: trimmed_revision_def)

lemma trimmed_revision_idem [simp]: "trimmed_revision (trimmed_revision r) = trimmed_revision r"
proof -
  have "trim_space ''[]'' = ''[]''" by code_simp
  then show ?thesis by (simp add: trimmed_revision_def Let_def)
qed

lemma validateRevision_id: "validateRevision r = Inr v \<Longrightarrow> v = trimmed_revision r"
  by (erule validateRevision_InrE)

section \<open>Integrity and reads\<close>

lemma set_draft_fields_keeps [simp]:
  "r_id (set_draft_fields v t r) = r_id r" "r_state (set_draft_fields v t r) = r_state r"
  "r_problem_id (set_draft_fields v t r) = r_problem_id r"
  "r_number (set_draft_fields v t r) = r_number r"
  by (simp_all add: set_draft_fields_def)

lemma LockDraft_integrity [integrity_intros]: "keeps keeps_integrity (LockDraft k)"
  unfolding LockDraft_def
  by (intro integrity_intros) (auto elim: update_revisions_ok)

lemma problems_go_reads [read_intros]:
  "keeps db_same (GetProblem k)" "keeps db_same ListProblems" "keeps db_same (GetProblemRevision k)"
  "keeps db_same (ListProblemRevisions k)" "keeps db_same (ListTestCases k)"
  unfolding GetProblem_def ListProblems_def GetProblemRevision_def ListProblemRevisions_def
    ListTestCases_def
  by (intro read_intros)+

lemma db_same_integrity [integrity_intros]: "keeps keeps_integrity m" if "keeps db_same m"
  using that by (auto simp: keeps_def db_same_def keeps_integrity_def)

lemma problems_go_integrity [integrity_intros]:
  "keeps keeps_integrity (CreateProblem p r)" "keeps keeps_integrity (UpdateDraftRevision r)"
  "keeps keeps_integrity (PublishRevision k at)" "keeps keeps_integrity (CreateTestCase t)"
  "keeps keeps_integrity (CreateDraftRevision k)"
  unfolding CreateProblem_def UpdateDraftRevision_def PublishRevision_def CreateTestCase_def
    CreateDraftRevision_def GetProblemRevision_def
  by ((intro integrity.keeps_rules integrity_exec LockDraft_integrity;
       auto elim: insert_oks update_revisions_ok update_problems_ok)+)

end
