(* ===== verification/Content_Service.thy ===== *)
theory Content_Service
  imports Db_Problems
begin

text \<open>
  The content policy (internal/content/service.go): who manages a contest or a problem,
  memberships, release and submission windows, assignments, reordering, the participant's
  statement and the access to stored files. An actor is an optional user, none for an
  anonymous request. The service reads its clock by the effect now.
\<close>

section \<open>Actors and management\<close>

definition requireUser :: "user option \<Rightarrow> ('d, user) go" where
  "requireUser actor = (case actor of None \<Rightarrow> fail ErrUnauthorized | Some u \<Rightarrow> ret u)"

definition admin :: "user option \<Rightarrow> bool" where
  "admin actor = (case actor of None \<Rightarrow> False | Some u \<Rightarrow> u_role u = RoleAdmin)"

definition invalid :: "string \<Rightarrow> go_error" where
  "invalid message = ValidationError message"

definition ManageContest :: "user option \<Rightarrow> id \<Rightarrow> (database, unit) go" where
  "ManageContest actor k =
     andThen (requireUser actor) (\<lambda>u.
     andThen (first contests c_id (\<lambda>c. c_id c = k)) (\<lambda>_.
     if admin actor then ret ()
     else andThen (count memberships
            (\<lambda>m. m_contest_id m = k \<and> m_user_id m = u_id u \<and> m_role m = ''organizer'')) (\<lambda>n.
          reject (n = 0) ErrForbidden)))"

definition ManageProblem :: "user option \<Rightarrow> id \<Rightarrow> (database, problem) go" where
  "ManageProblem actor k =
     andThen (requireUser actor) (\<lambda>u.
     andThen (GetProblem k) (\<lambda>problem.
     andThen (reject (\<not> admin actor \<and> p_owner_id problem \<noteq> u_id u) ErrForbidden) (\<lambda>_.
     ret problem)))"

definition Revision :: "user option \<Rightarrow> id \<Rightarrow> (database, revision) go" where
  "Revision actor k =
     andThen (GetProblemRevision k) (\<lambda>revision.
     andThen (ManageProblem actor (r_problem_id revision)) (\<lambda>_.
     ret revision))"

definition CanAuthor :: "user option \<Rightarrow> (database, unit) go" where
  "CanAuthor actor =
     andThen (requireUser actor) (\<lambda>u.
     if admin actor then ret ()
     else andThen (count memberships (\<lambda>m. m_user_id m = u_id u \<and> m_role m = ''organizer'')) (\<lambda>n.
          reject (n = 0) ErrForbidden))"

section \<open>Memberships\<close>

definition lock_contest :: "id \<Rightarrow> (database, nat) go" where
  "lock_contest k =
     exec (\<lambda>t i. update_contests (\<lambda>c. c_id c = k) (\<lambda>c. c\<lparr>c_id := k\<rparr>))"

text \<open>The body of the membership transaction.\<close>

definition change_member :: "user option \<Rightarrow> id \<Rightarrow> id \<Rightarrow> string \<Rightarrow> bool \<Rightarrow> (database, unit) go" where
  "change_member actor contestID userID role remove =
     andThen (lock_contest contestID) (\<lambda>_.
     andThen (attempt (first memberships m_id
                (\<lambda>m. m_contest_id m = contestID \<and> m_user_id m = userID))) (\<lambda>found.
     andThen (case found of
                Inl e \<Rightarrow> if errors_is e ErrRecordNotFound then ret [] else fail e
              | Inr m \<Rightarrow> ret (m_role m)) (\<lambda>existing_role.
     andThen (reject (\<not> admin actor \<and> (role = ''organizer'' \<or> existing_role = ''organizer''))
                ErrForbidden) (\<lambda>_.
     andThen (first users u_id (\<lambda>u. u_id u = userID)) (\<lambda>_.
     if remove
     then andThen (exec (\<lambda>t i. delete_memberships
                     (\<lambda>m. m_contest_id m = contestID \<and> m_user_id m = userID))) (\<lambda>_. ret ())
     else andThen (exec (upsert_membership
                     \<lparr>m_id = 0, m_contest_id = contestID, m_user_id = userID, m_role = role\<rparr>)) (\<lambda>_.
          ret ()))))))"

definition setMember :: "user option \<Rightarrow> id \<Rightarrow> id \<Rightarrow> string \<Rightarrow> bool \<Rightarrow> (database, unit) go" where
  "setMember actor contestID userID role remove =
     andThen (ManageContest actor contestID) (\<lambda>_.
     andThen (reject (role \<noteq> ''organizer'' \<and> role \<noteq> ''participant'' \<and> \<not> remove)
                (invalid ''invalid membership role'')) (\<lambda>_.
     transaction (change_member actor contestID userID role remove)))"

definition SetMember :: "user option \<Rightarrow> id \<Rightarrow> id \<Rightarrow> string \<Rightarrow> (database, unit) go" where
  "SetMember actor contestID userID role = setMember actor contestID userID role False"

definition RemoveMember :: "user option \<Rightarrow> id \<Rightarrow> id \<Rightarrow> (database, unit) go" where
  "RemoveMember actor contestID userID = setMember actor contestID userID [] True"

section \<open>Series, release and submission\<close>

definition Series :: "user option \<Rightarrow> id \<Rightarrow> (database, series) go" where
  "Series actor k =
     andThen (GetSeries k) (\<lambda>s.
     andThen (ManageContest actor (s_contest_id s)) (\<lambda>_.
     ret s))"

definition SaveSeries :: "user option \<Rightarrow> series \<Rightarrow> (database, series) go" where
  "SaveSeries actor s =
     andThen (ManageContest actor (s_contest_id s)) (\<lambda>_.
     if s_id s = 0 then CreateSeries s else UpdateSeries s)"

text \<open>A lower bound is not reached before its instant; a missing bound never blocks.\<close>

definition not_before :: "time option \<Rightarrow> time \<Rightarrow> bool" where
  "not_before bound at = (case bound of None \<Rightarrow> True | Some t \<Rightarrow> t \<le> at)"

definition before_end :: "time option \<Rightarrow> time \<Rightarrow> bool" where
  "before_end bound at = (case bound of None \<Rightarrow> True | Some t \<Rightarrow> at < t)"

definition release_of :: "series \<Rightarrow> time option" where
  "release_of s = (case s_release_at s of None \<Rightarrow> s_start_at s | Some t \<Rightarrow> Some t)"

definition CanReadSeries :: "user option \<Rightarrow> series \<Rightarrow> (database, unit) go" where
  "CanReadSeries actor s =
     andThen (attempt (ManageContest actor (s_contest_id s))) (\<lambda>managed.
       case managed of
         Inr _ \<Rightarrow> ret ()
       | Inl e \<Rightarrow>
           if \<not> errors_is e ErrForbidden \<and> \<not> errors_is e ErrUnauthorized then fail e
           else
             andThen (requireUser actor) (\<lambda>u.
             andThen (GetContest (s_contest_id s)) (\<lambda>contest.
             andThen (reject (c_visibility contest \<noteq> ContestPublished) ErrForbidden) (\<lambda>_.
             andThen now (\<lambda>at.
             andThen (reject (\<not> not_before (c_start_at contest) at) ErrForbidden) (\<lambda>_.
             andThen (reject (\<not> not_before (release_of s) at) ErrForbidden) (\<lambda>_.
             andThen (count memberships
                        (\<lambda>m. m_contest_id m = s_contest_id s \<and> m_user_id m = u_id u)) (\<lambda>n.
             reject (n = 0) ErrForbidden))))))))"

definition CanSubmit :: "user option \<Rightarrow> id \<Rightarrow> (database, unit) go" where
  "CanSubmit actor seriesID =
     andThen (requireUser actor) (\<lambda>u.
     andThen (GetSeries seriesID) (\<lambda>s.
     andThen (CanReadSeries actor s) (\<lambda>_.
     andThen (count memberships
                (\<lambda>m. m_contest_id m = s_contest_id s \<and> m_user_id m = u_id u \<and>
                     m_role m = ''participant'')) (\<lambda>n.
     andThen (reject (n = 0) ErrForbidden) (\<lambda>_.
     andThen (GetContest (s_contest_id s)) (\<lambda>contest.
     andThen (reject (c_visibility contest \<noteq> ContestPublished) ErrForbidden) (\<lambda>_.
     andThen now (\<lambda>at.
     for_each [(c_start_at contest, c_end_at contest), (s_start_at s, s_end_at s)] (\<lambda>window.
       reject (\<not> not_before (fst window) at \<or> \<not> before_end (snd window) at) ErrForbidden)))))))))"

section \<open>Assignments and order\<close>

definition Assign :: "user option \<Rightarrow> series_problem \<Rightarrow> (database, series_problem) go" where
  "Assign actor assignment =
     andThen (Series actor (sp_series_id assignment)) (\<lambda>_.
     andThen (Revision actor (sp_published_revision_id assignment)) (\<lambda>revision.
     andThen (reject (r_state revision \<noteq> RevisionPublished) ErrConflict) (\<lambda>_.
     let a = assignment\<lparr>sp_problem_id := r_problem_id revision,
                        sp_code := trim_space (sp_code assignment)\<rparr> in
     andThen (reject (sp_code a = [] \<or> length (sp_code a) > 64 \<or> sp_position a < 0)
                (invalid ''invalid assignment code or position'')) (\<lambda>_.
     exec (insert_series_problem a)))))"

definition max_position :: "(id \<times> int) list \<Rightarrow> int" where
  "max_position rows = fold (\<lambda>r m. if snd r > m then snd r else m) rows 0"

text \<open>
  The reordering shared by series and assignments: the parent row is locked, the rows of
  the parent are read, and the complete set of ids moves first to positions above all the
  present ones, then to its final places. Removing an id from the set still to be seen is
  what refuses duplicates.
\<close>

definition reorder ::
  "(database, nat) go \<Rightarrow> (database, (id \<times> int) list) go \<Rightarrow> (id \<Rightarrow> int \<Rightarrow> (database, nat) go) \<Rightarrow>
     id list \<Rightarrow> (database, unit) go" where
  "reorder lock_parent find_rows set_position ids =
     transaction (
       andThen lock_parent (\<lambda>_.
       andThen find_rows (\<lambda>rows.
       andThen (reject (length rows \<noteq> length ids)
                  (invalid ''order must contain every resource exactly once'')) (\<lambda>_.
       let maxp = max_position rows in
       andThen (reject (maxp > 2 ^ 30 \<or> int (length ids) > 10000) (invalid ''order is too large'')) (\<lambda>_.
       andThen (fold_go (\<lambda>seen x.
                  andThen (reject (snd x \<notin> set seen) (invalid ''invalid or duplicate order ID'')) (\<lambda>_.
                  andThen (set_position (snd x) (wrap64 (maxp + 1 + int (fst x)))) (\<lambda>_.
                  ret (removeAll (snd x) seen)))) (map fst rows) (enumerate 0 ids)) (\<lambda>_.
       for_each (enumerate 0 ids) (\<lambda>x.
         andThen (set_position (snd x) (int (fst x))) (\<lambda>_. ret ()))))))))"

definition set_series_position :: "id \<Rightarrow> int \<Rightarrow> (database, nat) go" where
  "set_series_position k p =
     exec (\<lambda>t i. update_series_rows (\<lambda>s. s_id s = k) (\<lambda>s. s\<lparr>s_position := p, s_updated_at := t\<rparr>))"

definition set_assignment_position :: "id \<Rightarrow> int \<Rightarrow> (database, nat) go" where
  "set_assignment_position k p =
     exec (\<lambda>t i. update_series_problems (\<lambda>a. sp_id a = k)
                   (\<lambda>a. a\<lparr>sp_position := p, sp_updated_at := t\<rparr>))"

definition ReorderSeries :: "user option \<Rightarrow> id \<Rightarrow> id list \<Rightarrow> (database, unit) go" where
  "ReorderSeries actor contestID ids =
     andThen (ManageContest actor contestID) (\<lambda>_.
     reorder (lock_contest contestID)
       (query (\<lambda>d. map (\<lambda>s. (s_id s, s_position s))
                     (filter (\<lambda>s. s_contest_id s = contestID) (series_rows d))))
       set_series_position ids)"

definition ReorderProblems :: "user option \<Rightarrow> id \<Rightarrow> id list \<Rightarrow> (database, unit) go" where
  "ReorderProblems actor seriesID ids =
     andThen (Series actor seriesID) (\<lambda>_.
     reorder (exec (\<lambda>t i. update_series_rows (\<lambda>s. s_id s = seriesID) (\<lambda>s. s\<lparr>s_id := seriesID\<rparr>)))
       (query (\<lambda>d. map (\<lambda>a. (sp_id a, sp_position a))
                     (filter (\<lambda>a. sp_series_id a = seriesID) (series_problems d))))
       set_assignment_position ids)"

section \<open>The participant's statement\<close>

record public_sample =
  ps_position :: int
  ps_input_artifact_id :: id
  ps_output_artifact_id :: id

record statement =
  st_assignment_id :: id
  st_revision_id :: id
  st_title :: string
  st_code :: string
  st_statement :: string
  st_pdf_artifact_id :: "id option"
  st_time_limit_millis :: "int option"
  st_memory_limit_kib :: "int option"
  st_languages :: string
  st_samples :: "public_sample list"

definition public_sample_of :: "test_case \<Rightarrow> public_sample" where
  "public_sample_of t =
     \<lparr>ps_position = t_position t, ps_input_artifact_id = t_input_artifact_id t,
      ps_output_artifact_id = t_output_artifact_id t\<rparr>"

definition Statement :: "user option \<Rightarrow> id \<Rightarrow> (database, statement) go" where
  "Statement actor k =
     andThen (first series_problems sp_id (\<lambda>a. sp_id a = k)) (\<lambda>assignment.
     andThen (GetSeries (sp_series_id assignment)) (\<lambda>s.
     andThen (CanReadSeries actor s) (\<lambda>_.
     andThen (GetProblemRevision (sp_published_revision_id assignment)) (\<lambda>revision.
     andThen (reject (r_state revision \<noteq> RevisionPublished) ErrForbidden) (\<lambda>_.
     andThen (GetProblem (sp_problem_id assignment)) (\<lambda>problem.
     andThen (query (\<lambda>d. sort_key t_position
                (filter (\<lambda>t. t_problem_revision_id t = r_id revision \<and> t_is_sample t) (test_cases d)))) (\<lambda>tests.
     ret \<lparr>st_assignment_id = k, st_revision_id = r_id revision, st_title = p_title problem,
          st_code = sp_code assignment, st_statement = r_statement revision,
          st_pdf_artifact_id = r_pdf_artifact_id revision,
          st_time_limit_millis = r_time_limit_millis revision,
          st_memory_limit_kib = r_memory_limit_kib revision,
          st_languages = r_language_metadata revision,
          st_samples = map public_sample_of tests\<rparr>)))))))"

section \<open>Access to stored files\<close>

text \<open>
  The loop over the assignments of a revision, and the one over the revisions that refer
  to the file; \<^verbatim>\<open>True\<close> is access granted, the end of a loop is \<^verbatim>\<open>False\<close>. Between
  them, the decision whether a published revision shows the file at all.
\<close>

fun artifact_assignments :: "user option \<Rightarrow> series_problem list \<Rightarrow> (database, bool) go" where
  "artifact_assignments actor [] = ret False"
| "artifact_assignments actor (a # rest) =
     andThen (GetSeries (sp_series_id a)) (\<lambda>s.
     andThen (attempt (CanReadSeries actor s)) (\<lambda>r.
       case r of
         Inr _ \<Rightarrow> ret True
       | Inl e \<Rightarrow> if errors_is e ErrForbidden then artifact_assignments actor rest else fail e))"

definition artifact_allowed :: "id \<Rightarrow> revision \<Rightarrow> (database, bool) go" where
  "artifact_allowed k revision =
     (if r_pdf_artifact_id revision = Some k then ret True
      else andThen (count test_cases
             (\<lambda>t. t_problem_revision_id t = r_id revision \<and> t_is_sample t \<and>
                  (t_input_artifact_id t = k \<or> t_output_artifact_id t = k))) (\<lambda>n.
           ret (n > 0)))"

fun artifact_revisions :: "user option \<Rightarrow> id \<Rightarrow> revision list \<Rightarrow> (database, bool) go" where
  "artifact_revisions actor k [] = ret False"
| "artifact_revisions actor k (revision # rest) =
     andThen (attempt (ManageProblem actor (r_problem_id revision))) (\<lambda>managed.
       case managed of
         Inr _ \<Rightarrow> ret True
       | Inl e \<Rightarrow>
           if \<not> errors_is e ErrForbidden then fail e
           else if r_state revision \<noteq> RevisionPublished then artifact_revisions actor k rest
           else
             andThen (artifact_allowed k revision) (\<lambda>allowed.
             if \<not> allowed then artifact_revisions actor k rest
             else
               andThen (find_all series_problems
                          (\<lambda>a. sp_published_revision_id a = r_id revision)) (\<lambda>assignments.
               andThen (artifact_assignments actor assignments) (\<lambda>granted.
               if granted then ret True else artifact_revisions actor k rest))))"

definition refers_to :: "database \<Rightarrow> id \<Rightarrow> revision \<Rightarrow> bool" where
  "refers_to d k r \<longleftrightarrow>
     r_pdf_artifact_id r = Some k \<or>
     (\<exists>t\<in>set (test_cases d). t_problem_revision_id t = r_id r \<and>
        (t_input_artifact_id t = k \<or> t_output_artifact_id t = k))"

definition Artifact :: "user option \<Rightarrow> id \<Rightarrow> (database, artifact) go" where
  "Artifact actor k =
     andThen (requireUser actor) (\<lambda>_.
     andThen (first artifacts a_id (\<lambda>a. a_id a = k)) (\<lambda>item.
     if admin actor then ret item
     else
       andThen (query (\<lambda>d. filter (refers_to d k) (revisions d))) (\<lambda>found.
       andThen (artifact_revisions actor k found) (\<lambda>granted.
       if granted then ret item else fail ErrForbidden))))"

definition conflictDraft :: "go_error \<Rightarrow> go_error" where
  "conflictDraft e = (if errors_is e ErrNotDraft then WithText ErrConflict (error_text e) else e)"

end
