(* ===== verification/Artifact_Store.thy ===== *)
theory Artifact_Store
  imports Db_Contests
begin

text \<open>
  The private file store (internal/artifact/store.go). The directory is an association
  list from names to files; a file is put under a staging name, measured, and renamed to a
  random key before its row is inserted. The mutex that serialises saves and collections is
  the atomicity of the operations here.
\<close>

section \<open>The directory\<close>

definition dir_get :: "string \<Rightarrow> directory \<Rightarrow> fnode option" where
  "dir_get name fs = map_of fs name"

definition dir_del :: "string \<Rightarrow> directory \<Rightarrow> directory" where
  "dir_del name fs = filter (\<lambda>e. fst e \<noteq> name) fs"

definition dir_put :: "string \<Rightarrow> fnode \<Rightarrow> directory \<Rightarrow> directory" where
  "dir_put name f fs = (name, f) # dir_del name fs"

lemma dir_get_del [simp]: "dir_get n (dir_del m fs) = (if n = m then None else dir_get n fs)"
  by (induction fs) (auto simp: dir_get_def dir_del_def)

lemma dir_get_put [simp]: "dir_get n (dir_put m f fs) = (if n = m then Some f else dir_get n fs)"
  using dir_get_del [of n m fs] by (simp add: dir_put_def dir_get_def)

lemma dir_del_none: "dir_get n fs = None \<Longrightarrow> dir_del n fs = fs"
  by (auto simp: dir_get_def dir_del_def map_of_eq_None_iff filter_id_conv)

lemma dir_del_put: "dir_get n fs = None \<Longrightarrow> dir_del n (dir_put n f fs) = fs"
  using dir_del_none [of n fs] by (simp add: dir_put_def dir_del_def)

section \<open>Readers\<close>

text \<open>A source of bytes: what it delivers, and the error it then ends with, if any.\<close>

record reader =
  r_bytes :: bytes
  r_error :: "go_error option"

definition bytes_reader :: "bytes \<Rightarrow> reader" where
  "bytes_reader b = \<lparr>r_bytes = b, r_error = None\<rparr>"

text \<open>
  \<^verbatim>\<open>io.ReadAll(io.LimitReader(source, n))\<close>: a limit reached ends the reading without error. The
  code asks for one byte more than a configured limit; Load caps those at 512 MiB, so that sum
  is not wrapped.
\<close>

definition read_limited :: "int \<Rightarrow> reader \<Rightarrow> go_error + bytes" where
  "read_limited n r =
     (if n \<le> int (length (r_bytes r)) then Inr (take (nat n) (r_bytes r))
      else case r_error r of None \<Rightarrow> Inr (r_bytes r) | Some e \<Rightarrow> Inl e)"

lemma read_limited_length: "read_limited n r = Inr b \<Longrightarrow> int (length b) \<le> max 0 n"
  by (auto simp: read_limited_def split: if_splits option.splits)

lemma read_limited_short:
  "read_limited n r = Inr b \<Longrightarrow> int (length b) < n \<Longrightarrow> b = r_bytes r \<and> r_error r = None"
  by (auto simp: read_limited_def split: if_splits option.splits)

section \<open>The store\<close>

record artifact_store =
  MaxBytes :: int
  MaxTotalBytes :: int

definition upload_prefix :: string where
  "upload_prefix = ''.upload-''"

definition os_call :: "('d, unit) go" where
  "os_call = call (\<lambda>E n w. (Inr (), w))"

definition os_create_temp :: "('d, string) go" where
  "os_create_temp = on_dir (\<lambda>E n fs.
     let name = upload_prefix @ temp_suffix E n
     in if dir_get name fs \<noteq> None then Inl (ErrMessage ''file exists'')
        else Inr (name, dir_put name \<lparr>f_data = [], f_kind = Regular, f_mtime = clock E n\<rparr> fs))"

definition os_write :: "string \<Rightarrow> bytes \<Rightarrow> ('d, unit) go" where
  "os_write name b = on_dir (\<lambda>E n fs. case dir_get name fs of
       None \<Rightarrow> Inl ErrNotExist
     | Some f \<Rightarrow> Inr ((), dir_put name (f\<lparr>f_data := b, f_mtime := clock E n\<rparr>) fs))"

definition os_rename :: "string \<Rightarrow> string \<Rightarrow> ('d, unit) go" where
  "os_rename src dst = on_dir (\<lambda>E n fs. case dir_get src fs of
       None \<Rightarrow> Inl ErrNotExist
     | Some f \<Rightarrow> Inr ((), dir_put dst f (dir_del src fs)))"

definition os_remove :: "string \<Rightarrow> ('d, unit) go" where
  "os_remove name = on_dir (\<lambda>E n fs.
     if dir_get name fs = None then Inl ErrNotExist else Inr ((), dir_del name fs))"

definition os_read_dir :: "('d, (string \<times> fnode) list) go" where
  "os_read_dir = on_dir (\<lambda>E n fs. Inr (sort_key fst fs, fs))"

definition Ensure :: "('d, unit) go" where
  "Ensure = os_call"

definition randomKey :: "('d, string) go" where
  "randomKey = call (\<lambda>E n w. (Inr (hex_encode (random_bytes E n)), w))"

definition valid_key :: "string \<Rightarrow> bool" where
  "valid_key key \<longleftrightarrow> length key = 64 \<and> path_base key = key"

definition Remove :: "string \<Rightarrow> ('d, unit) go" where
  "Remove key = (if \<not> valid_key key then fail (ErrMessage ''invalid artifact key'') else os_remove key)"

definition Open :: "artifact \<Rightarrow> ('d, bytes) go" where
  "Open item =
     (if \<not> valid_key (a_storage_key item) then fail (ErrMessage ''invalid artifact key'')
      else on_dir (\<lambda>E n fs. case dir_get (a_storage_key item) fs of
             None \<Rightarrow> Inl ErrNotExist
           | Some f \<Rightarrow> Inr (f_data f, fs)))"

text \<open>
  The bytes the committed files take: staging files and directories are skipped, and each
  size is asked for separately.
\<close>

definition used_bytes :: "('d, int) go" where
  "used_bytes =
     andThen os_read_dir (\<lambda>entries.
     fold_go (\<lambda>used entry.
        if f_kind (snd entry) = Directory \<or> has_prefix (fst entry) upload_prefix then ret used
        else andThen os_call (\<lambda>_. ret (used + int (length (f_data (snd entry)))))) 0 entries)"

text \<open>The part of \<^verbatim>\<open>Save\<close> between the creation of the staging file and its removal.\<close>

definition store_staged ::
  "(bytes \<Rightarrow> bytes) \<Rightarrow> artifact_store \<Rightarrow> id \<Rightarrow> string \<Rightarrow> string \<Rightarrow> reader \<Rightarrow> string \<Rightarrow> string \<Rightarrow>
     (database, artifact) go" where
  "store_staged sha s ownerID filename contentType source key temporary =
     andThen (map_error (Wrapped ''store artifact'')
       (andThen (of_sum (read_limited (MaxBytes s + 1) source)) (\<lambda>data.
        andThen (os_write temporary data) (\<lambda>_.
        andThen os_call (\<lambda>_.
        andThen os_call (\<lambda>_. ret data)))))) (\<lambda>data.
     let written = int (length data) in
     andThen (reject (written > MaxBytes s) ErrTooLarge) (\<lambda>_.
     andThen (if MaxTotalBytes s > 0
              then andThen used_bytes (\<lambda>used. reject (written > MaxTotalBytes s - used) ErrQuota)
              else ret ()) (\<lambda>_.
     andThen os_call (\<lambda>_.
     andThen (map_error (Wrapped ''commit artifact'') (os_rename temporary key)) (\<lambda>_.
     andThen (attempt (exec (insert_artifact
               \<lparr>a_id = 0, a_owner_id = ownerID, a_storage_key = key, a_sha256 = hex_encode (sha data),
                a_size_bytes = written, a_content_type = contentType, a_filename = path_base filename,
                a_created_at = zero_time\<rparr>))) (\<lambda>r.
       case r of
         Inl e \<Rightarrow> andThen (attempt (os_remove key)) (\<lambda>_. fail e)
       | Inr item \<Rightarrow> ret item))))))"

definition Save ::
  "(bytes \<Rightarrow> bytes) \<Rightarrow> artifact_store \<Rightarrow> id \<Rightarrow> string \<Rightarrow> string \<Rightarrow> reader \<Rightarrow> (database, artifact) go" where
  "Save sha s ownerID filename contentType source =
     andThen (reject (ownerID = 0 \<or> trim_space filename = [] \<or> MaxBytes s \<le> 0)
                (ErrMessage ''invalid artifact'')) (\<lambda>_.
     andThen (map_error (Wrapped ''create artifact directory'') Ensure) (\<lambda>_.
     andThen randomKey (\<lambda>key.
     andThen os_create_temp (\<lambda>temporary.
     deferred (store_staged sha s ownerID filename contentType source key temporary)
              (os_remove temporary)))))"

text \<open>
  Removal of staging files older than the cutoff. The count beside an error is dropped, as
  the callers drop it.
\<close>

definition CollectTemporary :: "time \<Rightarrow> ('d, nat) go" where
  "CollectTemporary cutoff =
     andThen os_read_dir (\<lambda>entries.
     fold_go (\<lambda>removed entry.
        if \<not> has_prefix (fst entry) upload_prefix then ret removed
        else andThen os_call (\<lambda>_.
             if f_kind (snd entry) \<noteq> Regular \<or> \<not> f_mtime (snd entry) < cutoff then ret removed
             else andThen (os_remove (fst entry)) (\<lambda>_. ret (Suc removed)))) 0 entries)"

end
