(* ===== verification/Importer.thy ===== *)
theory Importer
  imports Artifact_Store
begin

text \<open>
  The bounded import of test archives (internal/importer/tests.go). The decoding of the ZIP
  container is a parameter: from the bytes of an archive it gives an error or its entries,
  each with a name, whether its mode has a type bit, and what opening it delivers. Formatted
  arguments of error texts are left out.
\<close>

record import_limits =
  ImportMaxBytes :: int
  ImportMaxFiles :: int

record test_pair =
  tp_name :: string
  tp_input :: bytes
  tp_output :: bytes

record zip_file =
  z_name :: string
  z_special :: bool
  z_open :: "go_error + reader"

type_synonym unzip = "bytes \<Rightarrow> go_error + zip_file list"

section \<open>The code\<close>

definition backslash :: char where
  "backslash = CHR 0x5C"

definition validName :: "string \<Rightarrow> bool" where
  "validName name \<longleftrightarrow>
     \<not> (name = [] \<or> contains name [backslash] \<or> path_is_abs name \<or>
        contains (path_clean name) ''../'' \<or> path_base name \<noteq> name)"

definition readBounded :: "zip_file \<Rightarrow> int \<Rightarrow> go_error + bytes" where
  "readBounded file remaining =
     (if remaining < 0 then Inl (ErrMessage ''archive contents exceed limit'')
      else case z_open file of
             Inl e \<Rightarrow> Inl e
           | Inr reader \<Rightarrow>
               (case read_limited (remaining + 1) reader of
                  Inl e \<Rightarrow> Inl e
                | Inr data \<Rightarrow>
                    if int (length data) > remaining
                    then Inl (ErrMessage ''archive contents exceed limit'')
                    else Inr data))"

text \<open>The map from base names to maps from extensions to contents, as pairs of both keys.\<close>

type_synonym import_files = "((string \<times> string) \<times> bytes) list"

definition file_ext :: "zip_file \<Rightarrow> string" where
  "file_ext file = to_lower_ascii (path_ext (z_name file))"

definition file_base :: "zip_file \<Rightarrow> string" where
  "file_base file = trim_suffix (z_name file) (path_ext (z_name file))"

fun import_loop ::
  "import_limits \<Rightarrow> import_files \<Rightarrow> int \<Rightarrow> zip_file list \<Rightarrow> go_error + import_files" where
  "import_loop limits files so_far [] = Inr files"
| "import_loop limits files so_far (file # rest) =
     (if \<not> validName (z_name file) then Inl (ErrMessage ''unsafe file name'')
      else if z_special file then Inl (ErrMessage ''only regular files are allowed'')
      else if file_ext file \<noteq> ''.in'' \<and> file_ext file \<noteq> ''.out''
      then Inl (ErrMessage ''unsupported file'')
      else if map_of files (file_base file, file_ext file) \<noteq> None
      then Inl (ErrMessage ''duplicate file'')
      else case readBounded file (ImportMaxBytes limits - so_far) of
             Inl e \<Rightarrow> Inl e
           | Inr content \<Rightarrow>
               (let so_far = so_far + int (length content)
                in if so_far > ImportMaxBytes limits
                   then Inl (ErrMessage ''archive contents exceed byte limit'')
                   else import_loop limits
                          (files @ [((file_base file, file_ext file), content)]) so_far rest))"

definition base_names :: "import_files \<Rightarrow> string list" where
  "base_names files = remdups (map (\<lambda>f. fst (fst f)) files)"

definition collect_pairs :: "import_files \<Rightarrow> go_error + test_pair list" where
  "collect_pairs files =
     (if \<exists>name\<in>set (base_names files).
           map_of files (name, ''.in'') = None \<or> map_of files (name, ''.out'') = None
      then Inl (ErrMessage ''must have matching .in and .out files'')
      else Inr (map (\<lambda>name. \<lparr>tp_name = name, tp_input = the (map_of files (name, ''.in'')),
                              tp_output = the (map_of files (name, ''.out''))\<rparr>)
                  (sort (base_names files))))"

definition ReadTestZIP :: "unzip \<Rightarrow> reader \<Rightarrow> import_limits \<Rightarrow> go_error + test_pair list" where
  "ReadTestZIP unzip source limits =
     (if ImportMaxBytes limits \<le> 0 \<or> ImportMaxFiles limits \<le> 0
      then Inl (ErrMessage ''invalid import limits'')
      else case read_limited (ImportMaxBytes limits + 1) source of
             Inl e \<Rightarrow> Inl e
           | Inr archive \<Rightarrow>
               if int (length archive) > ImportMaxBytes limits
               then Inl (ErrMessage ''archive exceeds byte limit'')
               else case unzip archive of
                      Inl e \<Rightarrow> Inl (Wrapped ''invalid ZIP archive'' e)
                    | Inr entries \<Rightarrow>
                        if entries = [] then Inl (ErrMessage ''archive must contain tests'')
                        else if int (length entries) > ImportMaxFiles limits
                        then Inl (ErrMessage ''archive has too many files'')
                        else case import_loop limits [] 0 entries of
                               Inl e \<Rightarrow> Inl e
                             | Inr files \<Rightarrow> collect_pairs files)"

section \<open>Names\<close>

lemma contains_char: "contains s [c] \<longleftrightarrow> c \<in> set s"
  by (induction s) (auto simp: has_prefix_def)

lemma contains_set: "contains s p \<Longrightarrow> set p \<subseteq> set s"
proof (induction s)
  case (Cons c s)
  have "has_prefix (c # s) p \<Longrightarrow> set p \<subseteq> set (c # s)"
    unfolding has_prefix_def by (metis set_take_subset)
  with Cons show ?case by auto
qed simp

lemma path_clean_flat:
  assumes "slash \<notin> set name"
  shows "slash \<notin> set (path_clean name)"
proof (cases "name = []")
  case True
  then show ?thesis by (simp add: path_clean_def slash_def)
next
  case False
  with assms have "\<not> path_is_abs name" by (auto simp: path_is_abs_def split: list.splits)
  then show ?thesis
    using assms False by (simp add: path_clean_def split_on_none Let_def slash_def)
qed

lemma valid_name_flat:
  "validName name \<longleftrightarrow> name \<noteq> [] \<and> backslash \<notin> set name \<and> slash \<notin> set name"
proof
  assume h: "validName name"
  then have "name \<noteq> []" "backslash \<notin> set name" "\<not> path_is_abs name" "path_base name = name"
    by (auto simp: validName_def contains_char)
  moreover from this have "name \<noteq> [slash]" by (auto simp: path_is_abs_def)
  ultimately show "name \<noteq> [] \<and> backslash \<notin> set name \<and> slash \<notin> set name"
    using slash_path_base by blast
next
  assume h: "name \<noteq> [] \<and> backslash \<notin> set name \<and> slash \<notin> set name"
  then have "\<not> contains (path_clean name) ''../''"
    using path_clean_flat contains_set [of "path_clean name" "''../''"] by (auto simp: slash_def)
  moreover have "\<not> path_is_abs name" using h by (auto simp: path_is_abs_def split: list.splits)
  ultimately show "validName name"
    using h by (simp add: validName_def contains_char path_base_id)
qed

section \<open>What an accepted archive is\<close>

definition entry_content :: "zip_file \<Rightarrow> bytes option" where
  "entry_content f =
     (case z_open f of Inl e \<Rightarrow> None | Inr r \<Rightarrow> if r_error r = None then Some (r_bytes r) else None)"

definition entry_key :: "zip_file \<Rightarrow> string \<times> string" where
  "entry_key f = (file_base f, file_ext f)"

definition entry_ok :: "zip_file \<Rightarrow> bool" where
  "entry_ok f \<longleftrightarrow>
     z_name f \<noteq> [] \<and> backslash \<notin> set (z_name f) \<and> slash \<notin> set (z_name f) \<and> \<not> z_special f \<and>
     file_ext f \<in> {''.in'', ''.out''} \<and> entry_content f \<noteq> None"

definition entry_bytes :: "zip_file \<Rightarrow> bytes" where
  "entry_bytes f = (case entry_content f of None \<Rightarrow> [] | Some b \<Rightarrow> b)"

definition entries_size :: "zip_file list \<Rightarrow> int" where
  "entries_size fs = (\<Sum>f\<leftarrow>fs. int (length (entry_bytes f)))"

definition archive_ok :: "import_limits \<Rightarrow> zip_file list \<Rightarrow> bool" where
  "archive_ok limits fs \<longleftrightarrow>
     fs \<noteq> [] \<and> int (length fs) \<le> ImportMaxFiles limits \<and> (\<forall>f\<in>set fs. entry_ok f) \<and>
     distinct (map entry_key fs) \<and> entries_size fs \<le> ImportMaxBytes limits \<and>
     (\<forall>f\<in>set fs. (file_base f, ''.in'') \<in> entry_key ` set fs \<and> (file_base f, ''.out'') \<in> entry_key ` set fs)"

definition entry_assoc :: "zip_file list \<Rightarrow> import_files" where
  "entry_assoc fs = map (\<lambda>f. (entry_key f, entry_bytes f)) fs"

definition archive_pairs :: "zip_file list \<Rightarrow> test_pair list" where
  "archive_pairs fs =
     map (\<lambda>name. \<lparr>tp_name = name, tp_input = the (map_of (entry_assoc fs) (name, ''.in'')),
                  tp_output = the (map_of (entry_assoc fs) (name, ''.out''))\<rparr>)
       (sort (remdups (map file_base fs)))"

lemma readBounded_Inr:
  "readBounded f n = Inr b \<longleftrightarrow> entry_content f = Some b \<and> int (length b) \<le> n"
proof (cases "z_open f")
  case (Inl e)
  then show ?thesis by (simp add: readBounded_def entry_content_def)
next
  case (Inr r)
  then show ?thesis
    by (auto simp: readBounded_def entry_content_def read_limited_def split: option.splits)
qed

lemma entries_size_nonneg: "0 \<le> entries_size fs"
  by (induction fs) (auto simp: entries_size_def)

lemma import_loop_Inr:
  "import_loop limits files so_far fs = Inr out \<longleftrightarrow>
     (\<forall>f\<in>set fs. entry_ok f) \<and> distinct (map entry_key fs) \<and>
     fst ` set files \<inter> entry_key ` set fs = {} \<and>
     (fs \<noteq> [] \<longrightarrow> so_far + entries_size fs \<le> ImportMaxBytes limits) \<and> out = files @ entry_assoc fs"
proof (induction fs arbitrary: files so_far)
  case Nil
  then show ?case by (auto simp: entry_assoc_def)
next
  case (Cons f fs)
  show ?case
  proof (cases "entry_ok f \<and> entry_key f \<notin> fst ` set files \<and>
                 so_far + int (length (entry_bytes f)) \<le> ImportMaxBytes limits")
    case True
    then obtain b where b: "entry_content f = Some b" "entry_bytes f = b"
      by (auto simp: entry_ok_def entry_bytes_def)
    with True have rb: "readBounded f (ImportMaxBytes limits - so_far) = Inr b"
      by (simp add: readBounded_Inr)
    have none: "map_of files (file_base f, file_ext f) = None"
      using True by (simp add: map_of_eq_None_iff entry_key_def)
    have step: "import_loop limits files so_far (f # fs) =
        import_loop limits (files @ [(entry_key f, b)]) (so_far + int (length b)) fs"
      using True b none rb by (auto simp: entry_ok_def valid_name_flat entry_key_def)
    show ?thesis
      unfolding step Cons.IH
      using True b entries_size_nonneg [of fs]
      by (auto simp: entries_size_def entry_assoc_def)
  next
    case False
    have "import_loop limits files so_far (f # fs) \<noteq> Inr out"
    proof
      assume run: "import_loop limits files so_far (f # fs) = Inr out"
      then obtain b where "readBounded f (ImportMaxBytes limits - so_far) = Inr b"
        by (auto split: if_splits sum.splits)
      then have b: "entry_content f = Some b" "int (length b) \<le> ImportMaxBytes limits - so_far"
        by (simp_all add: readBounded_Inr)
      then have "entry_ok f" "map_of files (file_base f, file_ext f) = None"
        using run by (auto simp: entry_ok_def valid_name_flat split: if_splits)
      with b False show False
        by (auto simp: entry_bytes_def entry_key_def map_of_eq_None_iff)
    qed
    moreover have "\<not> (so_far + entries_size (f # fs) \<le> ImportMaxBytes limits \<and> entry_ok f \<and>
        entry_key f \<notin> fst ` set files)"
      using False entries_size_nonneg [of fs] by (auto simp: entries_size_def)
    ultimately show ?thesis by auto
  qed
qed

lemma map_of_entry_assoc:
  "map_of (entry_assoc fs) k = None \<longleftrightarrow> k \<notin> entry_key ` set fs"
  by (auto simp: map_of_eq_None_iff entry_assoc_def image_iff)

lemma base_names_assoc: "base_names (entry_assoc fs) = remdups (map file_base fs)"
  by (simp add: base_names_def entry_assoc_def entry_key_def comp_def)

lemma collect_pairs_assoc:
  "collect_pairs (entry_assoc fs) = Inr out \<longleftrightarrow>
     (\<forall>f\<in>set fs. (file_base f, ''.in'') \<in> entry_key ` set fs \<and> (file_base f, ''.out'') \<in> entry_key ` set fs) \<and>
     out = archive_pairs fs"
  unfolding collect_pairs_def map_of_entry_assoc base_names_assoc archive_pairs_def by auto

lemma read_entries:
  "ImportMaxBytes limits > 0 \<Longrightarrow> ImportMaxFiles limits > 0 \<Longrightarrow>
   read_limited (ImportMaxBytes limits + 1) source = Inr archive \<Longrightarrow>
   int (length archive) \<le> ImportMaxBytes limits \<Longrightarrow> unzip archive = Inr fs \<Longrightarrow>
   ReadTestZIP unzip source limits = Inr out \<longleftrightarrow> archive_ok limits fs \<and> out = archive_pairs fs"
proof -
  assume h: "ImportMaxBytes limits > 0" "ImportMaxFiles limits > 0"
    "read_limited (ImportMaxBytes limits + 1) source = Inr archive"
    "int (length archive) \<le> ImportMaxBytes limits" "unzip archive = Inr fs"
  then have run: "ReadTestZIP unzip source limits =
      (if fs = [] then Inl (ErrMessage ''archive must contain tests'')
       else if int (length fs) > ImportMaxFiles limits
       then Inl (ErrMessage ''archive has too many files'')
       else case import_loop limits [] 0 fs of Inl e \<Rightarrow> Inl e | Inr files \<Rightarrow> collect_pairs files)"
    by (simp add: ReadTestZIP_def)
  show ?thesis
  proof (cases "import_loop limits [] 0 fs")
    case (Inl e)
    have "\<not> archive_ok limits fs"
    proof
      assume "archive_ok limits fs"
      then have "import_loop limits [] 0 fs = Inr (entry_assoc fs)"
        by (simp add: import_loop_Inr archive_ok_def)
      with Inl show False by simp
    qed
    with Inl run show ?thesis by auto
  next
    case (Inr files)
    then have l: "(\<forall>f\<in>set fs. entry_ok f) \<and> distinct (map entry_key fs) \<and>
        (fs \<noteq> [] \<longrightarrow> entries_size fs \<le> ImportMaxBytes limits) \<and> files = entry_assoc fs"
      by (simp add: import_loop_Inr)
    with Inr run show ?thesis
      by (auto simp: archive_ok_def collect_pairs_assoc)
  qed
qed

lemma archive_pairs_names: "map tp_name (archive_pairs fs) = sort (remdups (map file_base fs))"
  by (simp add: archive_pairs_def comp_def)

end
