(* ===== verification/Content_Files.thy ===== *)
theory Content_Files
  imports Content_Service Importer
begin

text \<open>
  File and import transactions (internal/content/files.go): a database transaction whose
  saved files are removed again when it fails, the editing of tests, PDF upload, the preview
  and commit of ZIP archives, and the collection of unreferenced files.
\<close>

record service =
  svc_store :: artifact_store
  svc_limits :: import_limits
  svc_sha256 :: "bytes \<Rightarrow> bytes"
  svc_unzip :: unzip

text \<open>The id of an actor; the code dereferences it only where an earlier check refused none.\<close>

definition actor_id :: "user option \<Rightarrow> id" where
  "actor_id actor = (case actor of None \<Rightarrow> 0 | Some u \<Rightarrow> u_id u)"

section \<open>File transactions\<close>

definition remove_files :: "string list \<Rightarrow> (database, unit) go" where
  "remove_files keys = for_each keys (\<lambda>key. andThen (attempt (Remove key)) (\<lambda>_. ret ()))"

definition fileTransaction :: "(database, 'a) go \<Rightarrow> (database, 'a) go" where
  "fileTransaction body =
     (\<lambda>E w. case transaction body E (w\<lparr>saved := []\<rparr>) of
        (Inr a, w') \<Rightarrow> (Inr a, w')
      | (Inl e, w') \<Rightarrow> (Inl e, snd (remove_files (saved w') E w')))"

text \<open>The save given to the body: it notes the key of every file it has created.\<close>

definition save ::
  "service \<Rightarrow> artifact_store \<Rightarrow> id \<Rightarrow> string \<Rightarrow> string \<Rightarrow> reader \<Rightarrow> (database, artifact) go" where
  "save s st ownerID filename kind source =
     andThen (Save (svc_sha256 s) st ownerID filename kind source) (\<lambda>item.
     andThen (note_saved (a_storage_key item)) (\<lambda>_.
     ret item))"

section \<open>Tests of a draft\<close>

record test_input =
  ti_position :: int
  ti_is_sample :: bool
  ti_points :: "int option"
  ti_time_limit_override_millis :: "int option"
  ti_input :: string
  ti_output :: string

definition lock_draft :: "id \<Rightarrow> (database, unit) go" where
  "lock_draft k = map_error conflictDraft (LockDraft k)"

definition new_test :: "id \<Rightarrow> id \<Rightarrow> test_input \<Rightarrow> id \<Rightarrow> id \<Rightarrow> test_case" where
  "new_test testID revisionID i in_id out_id =
     \<lparr>t_id = testID, t_problem_revision_id = revisionID, t_position = ti_position i,
      t_is_sample = ti_is_sample i, t_points = ti_points i,
      t_time_limit_override_millis = ti_time_limit_override_millis i,
      t_input_artifact_id = in_id, t_output_artifact_id = out_id,
      t_created_at = zero_time, t_updated_at = zero_time\<rparr>"

definition set_test_fields :: "test_case \<Rightarrow> time \<Rightarrow> test_case \<Rightarrow> test_case" where
  "set_test_fields v t r =
     r\<lparr>t_position := t_position v, t_is_sample := t_is_sample v, t_points := t_points v,
       t_time_limit_override_millis := t_time_limit_override_millis v,
       t_input_artifact_id := t_input_artifact_id v,
       t_output_artifact_id := t_output_artifact_id v, t_updated_at := t\<rparr>"

definition SaveTest ::
  "service \<Rightarrow> user option \<Rightarrow> id \<Rightarrow> id \<Rightarrow> test_input \<Rightarrow> (database, test_case) go" where
  "SaveTest s actor revisionID testID i =
     andThen (Revision actor revisionID) (\<lambda>_.
     andThen (reject (ti_position i < 0 \<or> \<not> nonneg_opt (ti_points i) \<or>
                      \<not> pos_opt (ti_time_limit_override_millis i))
                (invalid ''invalid test metadata'')) (\<lambda>_.
     fileTransaction (
       andThen (lock_draft revisionID) (\<lambda>_.
       andThen (if testID = 0 then ret ()
                else andThen (first test_cases t_id
                       (\<lambda>t. t_id t = testID \<and> t_problem_revision_id t = revisionID)) (\<lambda>_. ret ())) (\<lambda>_.
       andThen (save s (svc_store s) (actor_id actor) ''input.txt'' ''text/plain'' (bytes_reader (ti_input i))) (\<lambda>inp.
       andThen (save s (svc_store s) (actor_id actor) ''output.txt'' ''text/plain'' (bytes_reader (ti_output i))) (\<lambda>out.
       let result = new_test testID revisionID i (a_id inp) (a_id out) in
       if testID = 0 then exec (insert_test result)
       else andThen (exec (\<lambda>t n. update_test_cases (\<lambda>r. t_id r = testID) (set_test_fields result t))) (\<lambda>_.
            ret result))))))))"

definition DeleteTest :: "user option \<Rightarrow> id \<Rightarrow> id \<Rightarrow> (database, unit) go" where
  "DeleteTest actor revisionID testID =
     andThen (Revision actor revisionID) (\<lambda>_.
     transaction (
       andThen (lock_draft revisionID) (\<lambda>_.
       andThen (exec (\<lambda>t i. delete_test_cases
                  (\<lambda>r. t_id r = testID \<and> t_problem_revision_id r = revisionID))) (\<lambda>n.
       reject (n \<noteq> 1) ErrRecordNotFound))))"

section \<open>PDF upload\<close>

definition UploadPDF :: "service \<Rightarrow> user option \<Rightarrow> id \<Rightarrow> reader \<Rightarrow> (database, artifact) go" where
  "UploadPDF s actor revisionID source =
     andThen (Revision actor revisionID) (\<lambda>_.
     andThen (reject (length (r_bytes source) < 5 \<or> take 5 (r_bytes source) \<noteq> ''%PDF-'')
                (invalid ''a PDF file is required'')) (\<lambda>_.
     fileTransaction (
       andThen (lock_draft revisionID) (\<lambda>_.
       andThen (save s (svc_store s) (actor_id actor) ''statement.pdf'' ''application/pdf'' source) (\<lambda>item.
       andThen (exec (\<lambda>t i. update_revisions (\<lambda>r. r_id r = revisionID)
                  (\<lambda>r. r\<lparr>r_pdf_artifact_id := Some (a_id item), r_updated_at := t\<rparr>))) (\<lambda>_.
       ret item))))))"

section \<open>ZIP preview and commit\<close>

record preview_test =
  pt_name :: string
  pt_input_bytes :: nat
  pt_output_bytes :: nat

record preview =
  pr_id :: id
  pr_expires_at :: time
  pr_tests :: "preview_test list"

definition preview_test_of :: "test_pair \<Rightarrow> preview_test" where
  "preview_test_of p =
     \<lparr>pt_name = tp_name p, pt_input_bytes = length (tp_input p), pt_output_bytes = length (tp_output p)\<rparr>"

definition PreviewZIP :: "service \<Rightarrow> user option \<Rightarrow> id \<Rightarrow> reader \<Rightarrow> (database, preview) go" where
  "PreviewZIP s actor revisionID source =
     andThen (Revision actor revisionID) (\<lambda>revision.
     andThen (reject (r_state revision \<noteq> RevisionDraft) ErrConflict) (\<lambda>_.
     andThen (of_sum (read_limited (ImportMaxBytes (svc_limits s) + 1) source)) (\<lambda>raw.
     andThen (map_error (\<lambda>e. invalid (error_text e))
                (of_sum (ReadTestZIP (svc_unzip s) (bytes_reader raw) (svc_limits s)))) (\<lambda>pairs.
     andThen (reject (pairs = []) (invalid ''archive must contain tests'')) (\<lambda>_.
     andThen (reject (\<exists>p\<in>set pairs. int (length (tp_input p)) > MaxBytes (svc_store s) \<or>
                                    int (length (tp_output p)) > MaxBytes (svc_store s))
                (invalid ''test exceeds artifact size limit'')) (\<lambda>_.
     andThen now (\<lambda>at.
     let st = (svc_store s)\<lparr>MaxBytes := ImportMaxBytes (svc_limits s)\<rparr> in
     andThen (fileTransaction (
       andThen (lock_draft revisionID) (\<lambda>_.
       andThen (save s st (actor_id actor) ''tests.zip'' ''application/zip'' (bytes_reader raw)) (\<lambda>item.
       exec (insert_preview \<lparr>pv_id = 0, pv_owner_id = actor_id actor, pv_revision_id = revisionID,
               pv_artifact_id = a_id item, pv_expires_at = at + hour_ns, pv_committed_at = None\<rparr>))))) (\<lambda>p.
     ret \<lparr>pr_id = pv_id p, pr_expires_at = pv_expires_at p,
          pr_tests = map preview_test_of pairs\<rparr>))))))))"

definition last_position :: "test_case list \<Rightarrow> int" where
  "last_position ts = fold (\<lambda>t m. max (t_position t) m) ts (-1)"

definition imported_test :: "id \<Rightarrow> int \<Rightarrow> nat \<Rightarrow> id \<Rightarrow> id \<Rightarrow> test_case" where
  "imported_test revisionID maxp i in_id out_id =
     \<lparr>t_id = 0, t_problem_revision_id = revisionID, t_position = wrap64 (maxp + 1 + int i),
      t_is_sample = False, t_points = None, t_time_limit_override_millis = None,
      t_input_artifact_id = in_id, t_output_artifact_id = out_id,
      t_created_at = zero_time, t_updated_at = zero_time\<rparr>"

definition import_pair ::
  "service \<Rightarrow> user option \<Rightarrow> id \<Rightarrow> int \<Rightarrow> nat \<times> test_pair \<Rightarrow> (database, unit) go" where
  "import_pair s actor revisionID maxp x =
     andThen (save s (svc_store s) (actor_id actor) (tp_name (snd x) @ ''.in'') ''text/plain''
                (bytes_reader (tp_input (snd x)))) (\<lambda>inp.
     andThen (save s (svc_store s) (actor_id actor) (tp_name (snd x) @ ''.out'') ''text/plain''
                (bytes_reader (tp_output (snd x)))) (\<lambda>out.
     andThen (exec (insert_test (imported_test revisionID maxp (fst x) (a_id inp) (a_id out)))) (\<lambda>_.
     ret ())))"

text \<open>The part of the commit for a preview that is not committed yet.\<close>

definition commit_preview ::
  "service \<Rightarrow> user option \<Rightarrow> id \<Rightarrow> import_preview \<Rightarrow> (database, unit) go" where
  "commit_preview s actor revisionID p =
     andThen now (\<lambda>at.
     andThen (reject (\<not> at < pv_expires_at p) ErrConflict) (\<lambda>_.
     andThen (first artifacts a_id (\<lambda>a. a_id a = pv_artifact_id p)) (\<lambda>item.
     andThen (Open item) (\<lambda>file.
     andThen (map_error (\<lambda>e. invalid (error_text e))
                (of_sum (ReadTestZIP (svc_unzip s) (bytes_reader file) (svc_limits s)))) (\<lambda>pairs.
     andThen (query (\<lambda>d. last_position
                (filter (\<lambda>t. t_problem_revision_id t = revisionID) (test_cases d)))) (\<lambda>maxp.
     andThen (reject (maxp > 2 ^ 30) (invalid ''test positions exceed limit'')) (\<lambda>_.
     andThen (for_each (enumerate 0 pairs) (import_pair s actor revisionID maxp)) (\<lambda>_.
     andThen now (\<lambda>committed.
     andThen (exec (\<lambda>t i. update_previews (\<lambda>q. pv_id q = pv_id p)
                (\<lambda>q. q\<lparr>pv_committed_at := Some committed\<rparr>))) (\<lambda>_.
     ret ()))))))))))"

definition CommitZIP :: "service \<Rightarrow> user option \<Rightarrow> id \<Rightarrow> id \<Rightarrow> (database, unit) go" where
  "CommitZIP s actor revisionID previewID =
     andThen (Revision actor revisionID) (\<lambda>_.
     fileTransaction (
       andThen (lock_draft revisionID) (\<lambda>_.
       andThen (first previews pv_id (\<lambda>p. pv_id p = previewID \<and> pv_owner_id p = actor_id actor \<and>
                                            pv_revision_id p = revisionID)) (\<lambda>p.
       if pv_committed_at p \<noteq> None then ret () else commit_preview s actor revisionID p))))"

section \<open>Collection\<close>

text \<open>The body of the transaction: expired previews go, then the unreferenced old artifacts.\<close>

definition collect_rows :: "time \<Rightarrow> (database, artifact list) go" where
  "collect_rows cutoff =
     andThen (exec (\<lambda>t i. delete_previews (\<lambda>p. pv_expires_at p < cutoff))) (\<lambda>_.
     andThen (query (\<lambda>d. filter (\<lambda>a. a_created_at a < cutoff \<and> \<not> artifact_referenced d (a_id a))
                            (artifacts d))) (\<lambda>unused.
     andThen (for_each unused (\<lambda>item.
                andThen (exec (\<lambda>t i. delete_artifacts (\<lambda>a. a_id a = a_id item))) (\<lambda>_. ret ()))) (\<lambda>_.
     ret unused)))"

text \<open>Removing a file that is already gone is not an error.\<close>

definition remove_existing :: "string \<Rightarrow> string \<Rightarrow> ('d, unit) go" where
  "remove_existing message key =
     andThen (attempt (Remove key)) (\<lambda>r.
       case r of
         Inr _ \<Rightarrow> ret ()
       | Inl e \<Rightarrow> if errors_is e ErrNotExist then ret () else fail (Wrapped message e))"

definition collect_orphan :: "time \<Rightarrow> nat \<Rightarrow> string \<times> fnode \<Rightarrow> (database, nat) go" where
  "collect_orphan cutoff removed entry =
     andThen os_call (\<lambda>_.
     if length (fst entry) \<noteq> 64 \<or> hex_decode (fst entry) = None then ret removed
     else
       andThen os_call (\<lambda>_.
       if f_kind (snd entry) \<noteq> Regular \<or> \<not> f_mtime (snd entry) < cutoff then ret removed
       else
         andThen (count artifacts (\<lambda>a. a_storage_key a = fst entry)) (\<lambda>n.
         if n \<noteq> 0 then ret removed
         else andThen (remove_existing ''remove orphan'' (fst entry)) (\<lambda>_. ret (Suc removed)))))"

definition Collect :: "user option \<Rightarrow> (database, nat) go" where
  "Collect actor =
     andThen (reject (\<not> admin actor) ErrForbidden) (\<lambda>_.
     andThen now (\<lambda>at.
     let cutoff = at - hour_ns in
     andThen (transaction (collect_rows cutoff)) (\<lambda>unused.
     andThen (fold_go (\<lambda>removed item.
                andThen (remove_existing ''remove unused artifact'' (a_storage_key item)) (\<lambda>_.
                ret (Suc removed))) 0 unused) (\<lambda>removed.
     andThen (CollectTemporary cutoff) (\<lambda>staging.
     andThen os_read_dir (\<lambda>entries.
     fold_go (collect_orphan cutoff) (removed + staging) entries))))))"

end
