(* ===== verification/Db_Accounts.thy ===== *)
theory Db_Accounts
  imports Db_Contests
begin

text \<open>
  Accounts and sessions (internal/db/users.go, internal/db/sessions.go, and the password
  wrapper of internal/auth/password.go). bcrypt and SHA-256 are parameters: the record
  crypto holds what the code calls of them, and HMAC for the request tokens.
\<close>

record crypto =
  bcrypt_generate :: "nat \<Rightarrow> string \<Rightarrow> go_error + string"
  bcrypt_compare :: "string \<Rightarrow> string \<Rightarrow> bool"
  sha256 :: "bytes \<Rightarrow> bytes"
  hmac_sha256 :: "bytes \<Rightarrow> bytes \<Rightarrow> bytes"

section \<open>Passwords\<close>

definition HashPassword :: "crypto \<Rightarrow> string \<Rightarrow> ('d, string) go" where
  "HashPassword K password =
     call (\<lambda>E n w. case bcrypt_generate K n password of
                     Inl e \<Rightarrow> (Inl (Wrapped ''hashing password'' e), w)
                   | Inr h \<Rightarrow> (Inr h, w))"

definition CheckPassword :: "crypto \<Rightarrow> string \<Rightarrow> string \<Rightarrow> bool" where
  "CheckPassword K password hash = bcrypt_compare K hash password"

text \<open>The same on a user (internal/db/models.go).\<close>

definition SetPassword :: "crypto \<Rightarrow> string \<Rightarrow> user \<Rightarrow> ('d, user) go" where
  "SetPassword K p u = andThen (HashPassword K p) (\<lambda>password_hash. ret (u\<lparr>u_password_hash := password_hash\<rparr>))"

definition User_CheckPassword :: "crypto \<Rightarrow> string \<Rightarrow> user \<Rightarrow> bool" where
  "User_CheckPassword K p u = CheckPassword K p (u_password_hash u)"

section \<open>Users\<close>

definition createUser :: "crypto \<Rightarrow> string \<Rightarrow> string \<Rightarrow> string \<Rightarrow> string \<Rightarrow> (database, user) go" where
  "createUser K email password name role =
     andThen (HashPassword K password) (\<lambda>password_hash.
     exec (insert_user \<lparr>u_id = 0, u_email = email, u_password_hash = password_hash, u_name = name,
                        u_role = role, u_created_at = zero_time, u_updated_at = zero_time\<rparr>))"

definition CreateUser :: "crypto \<Rightarrow> string \<Rightarrow> string \<Rightarrow> string \<Rightarrow> (database, user) go" where
  "CreateUser K email password name = createUser K email password name RoleUser"

definition CreateAdmin :: "crypto \<Rightarrow> string \<Rightarrow> string \<Rightarrow> string \<Rightarrow> (database, user) go" where
  "CreateAdmin K email password name = createUser K email password name RoleAdmin"

definition IsDuplicateError :: "go_error \<Rightarrow> bool" where
  "IsDuplicateError e = errors_is e ErrDuplicatedKey"

definition GetUserByEmail :: "string \<Rightarrow> (database, user) go" where
  "GetUserByEmail email = first users u_id (\<lambda>u. u_email u = email)"

section \<open>Sessions\<close>

definition GenerateToken :: "('d, string) go" where
  "GenerateToken = call (\<lambda>E n w. (Inr (hex_encode (random_bytes E n)), w))"

definition hashToken :: "crypto \<Rightarrow> string \<Rightarrow> string" where
  "hashToken K token = hex_encode (sha256 K token)"

definition DeleteSession :: "id \<Rightarrow> (database, unit) go" where
  "DeleteSession sessionID =
     andThen (exec (\<lambda>t i. delete_sessions (\<lambda>s. ss_id s = sessionID))) (\<lambda>_. ret ())"

definition DeleteExpiredSessions :: "(database, unit) go" where
  "DeleteExpiredSessions =
     andThen now (\<lambda>at.
     andThen (exec (\<lambda>t i. delete_sessions (\<lambda>s. ss_expires_at s < at))) (\<lambda>_. ret ()))"

definition session_lifetime :: int where
  "session_lifetime = hour_ns * 24 * 7"

definition CreateSession :: "crypto \<Rightarrow> id \<Rightarrow> (database, session \<times> string) go" where
  "CreateSession K userID =
     andThen (map_error (Wrapped ''delete expired sessions'') DeleteExpiredSessions) (\<lambda>_.
     andThen (map_error (Wrapped ''generate token'') GenerateToken) (\<lambda>token.
     andThen now (\<lambda>at.
     andThen (exec (insert_session \<lparr>ss_id = 0, ss_user_id = userID, ss_token_hash = hashToken K token,
                      ss_expires_at = at + session_lifetime, ss_created_at = zero_time\<rparr>)) (\<lambda>session.
     ret (session, token)))))"

definition GetSessionByToken :: "crypto \<Rightarrow> string \<Rightarrow> (database, session) go" where
  "GetSessionByToken K token = first sessions ss_id (\<lambda>s. ss_token_hash s = hashToken K token)"

section \<open>Integrity, and the tables accounts leave alone\<close>

lemma integrity_call_pure [integrity_intros]:
  "(\<And>E n w. db (snd (f E n w)) = db w) \<Longrightarrow> keeps keeps_integrity (call f)"
  by (auto simp: keeps_def keeps_integrity_def call_def Let_def)

lemma accounts_go_integrity [integrity_intros]:
  "keeps keeps_integrity (HashPassword K p)" "keeps keeps_integrity (createUser K e p n r)"
  "keeps keeps_integrity (CreateUser K e p n)" "keeps keeps_integrity (CreateAdmin K e p n)"
  "keeps keeps_integrity GenerateToken" "keeps keeps_integrity (DeleteSession k)"
  "keeps keeps_integrity DeleteExpiredSessions" "keeps keeps_integrity (CreateSession K k)"
  unfolding CreateUser_def CreateAdmin_def createUser_def HashPassword_def GenerateToken_def
    DeleteSession_def DeleteExpiredSessions_def CreateSession_def
  by (intro integrity_intros; auto elim: insert_oks delete_oks split: sum.split)+

lemma accounts_go_reads [read_intros]:
  "keeps db_same (GetUserByEmail e)" "keeps db_same (GetSessionByToken K s)"
  unfolding GetUserByEmail_def GetSessionByToken_def by (intro read_intros)+

end
