(* ===== verification/Evolution.thy ===== *)
theory Evolution
  imports Content_Files Db_Accounts
begin

text \<open>
  What no operation ever does to the database, whatever fails: a published revision, its
  tests and the rows of its files stay as they are, an assignment points to a published
  revision of its problem, and the schema stays intact. The relation evolves collects this;
  it is an order on worlds, also under a condition on the database that the operations in
  between keep, such as that the revision being edited is still a draft.
\<close>

section \<open>The relation\<close>

definition revision_tests :: "database \<Rightarrow> id \<Rightarrow> test_case list" where
  "revision_tests d k = filter (\<lambda>t. t_problem_revision_id t = k) (test_cases d)"

text \<open>One published revision is kept: its row, its tests, the rows of its files.\<close>

definition keeps_revision :: "database \<Rightarrow> database \<Rightarrow> revision \<Rightarrow> bool" where
  "keeps_revision d d' r \<longleftrightarrow>
     r \<in> set (revisions d') \<and> revision_tests d' (r_id r) = revision_tests d (r_id r) \<and>
     (\<forall>a\<in>set (artifacts d). refers_to d (a_id a) r \<longrightarrow> a \<in> set (artifacts d'))"

definition published :: "database \<Rightarrow> revision \<Rightarrow> bool" where
  "published d r \<longleftrightarrow> r \<in> set (revisions d) \<and> r_state r = RevisionPublished"

definition pinned :: "database \<Rightarrow> series_problem \<Rightarrow> bool" where
  "pinned d a \<longleftrightarrow>
     (\<exists>r\<in>set (revisions d). r_id r = sp_published_revision_id a \<and> r_state r = RevisionPublished \<and>
        r_problem_id r = sp_problem_id a)"

definition same_pin :: "series_problem \<Rightarrow> series_problem \<Rightarrow> bool" where
  "same_pin a b \<longleftrightarrow>
     sp_problem_id a = sp_problem_id b \<and> sp_published_revision_id a = sp_published_revision_id b"

definition evolves :: "database \<Rightarrow> database \<Rightarrow> bool" where
  "evolves d d' \<longleftrightarrow>
     db_ok d' \<and> (\<forall>r. published d r \<longrightarrow> keeps_revision d d' r) \<and>
     (\<forall>a\<in>set (series_problems d'). pinned d' a \<or> (\<exists>b\<in>set (series_problems d). same_pin a b))"

lemma refers_to_tests:
  "refers_to d k r \<longleftrightarrow>
     r_pdf_artifact_id r = Some k \<or>
     (\<exists>t\<in>set (revision_tests d (r_id r)). t_input_artifact_id t = k \<or> t_output_artifact_id t = k)"
  by (auto simp: refers_to_def revision_tests_def)

lemma keeps_revision_trans:
  assumes "keeps_revision d d1 r" and "keeps_revision d1 d2 r"
  shows "keeps_revision d d2 r"
proof -
  have "refers_to d1 k r = refers_to d k r" for k
    using assms(1) by (simp add: refers_to_tests keeps_revision_def)
  with assms show ?thesis by (auto simp: keeps_revision_def)
qed

lemma published_kept: "published d r \<Longrightarrow> keeps_revision d d' r \<Longrightarrow> published d' r"
  by (simp add: published_def keeps_revision_def)

lemma pinned_kept:
  "pinned d a \<Longrightarrow> (\<And>r. published d r \<Longrightarrow> keeps_revision d d' r) \<Longrightarrow> pinned d' a"
  unfolding pinned_def published_def keeps_revision_def by blast

lemma pinned_same: "same_pin a b \<Longrightarrow> pinned d b \<Longrightarrow> pinned d a"
  by (simp add: pinned_def same_pin_def)

lemma evolves_refl: "db_ok d \<Longrightarrow> evolves d d"
  by (auto simp: evolves_def keeps_revision_def published_def same_pin_def)

lemma evolvesI:
  assumes "db_ok d'" and "\<And>r. published d r \<Longrightarrow> keeps_revision d d' r"
    and "series_problems d' = series_problems d"
  shows "evolves d d'"
  unfolding evolves_def using assms by (auto simp: same_pin_def)

lemma evolves_trans:
  assumes "evolves d d1" and "evolves d1 d2"
  shows "evolves d d2"
proof -
  have kept: "keeps_revision d1 d2 r" if "published d1 r" for r
    using assms(2) that by (simp add: evolves_def)
  have "keeps_revision d d2 r" if "published d r" for r
    using assms(1) that kept published_kept keeps_revision_trans unfolding evolves_def by blast
  moreover have "pinned d2 a \<or> (\<exists>b\<in>set (series_problems d). same_pin a b)"
    if "a \<in> set (series_problems d2)" for a
  proof -
    from that assms(2) consider "pinned d2 a" | b where "b \<in> set (series_problems d1)" "same_pin a b"
      by (auto simp: evolves_def)
    then show ?thesis
    proof cases
      case 2
      with assms(1) consider "pinned d1 b" | c where "c \<in> set (series_problems d)" "same_pin b c"
        by (auto simp: evolves_def)
      then show ?thesis
      proof cases
        case 1
        from 1 kept have "pinned d2 b" by (rule pinned_kept)
        with 2 show ?thesis by (auto intro: pinned_same)
      next
        case 2
        with \<open>same_pin a b\<close> show ?thesis by (auto simp: same_pin_def)
      qed
    qed blast
  qed
  ultimately show ?thesis using assms(2) by (simp add: evolves_def)
qed

section \<open>Evolution under a condition, as an order on worlds\<close>

definition evolving :: "(database \<Rightarrow> bool) \<Rightarrow> database world \<Rightarrow> database world \<Rightarrow> bool" where
  "evolving I w w' \<longleftrightarrow> (db_ok (db w) \<and> I (db w) \<longrightarrow> I (db w') \<and> evolves (db w) (db w'))"

lemma evolves_ok: "evolves d d' \<Longrightarrow> db_ok d'"
  by (simp add: evolves_def)

interpretation evolving: world_order "evolving I" for I
proof
  show "evolving I w w" for w :: "database world" by (simp add: evolving_def evolves_refl)
  show "evolving I w1 w2 \<Longrightarrow> evolving I w2 w3 \<Longrightarrow> evolving I w1 w3" for w1 w2 w3
    unfolding evolving_def using evolves_trans evolves_ok by blast
qed (auto simp: evolving_def evolves_refl)

definition always :: "database \<Rightarrow> bool" where
  "always d = True"

text \<open>A statement that keeps a condition and evolves the database.\<close>

definition sound_statement :: "(database \<Rightarrow> bool) \<Rightarrow> (time \<Rightarrow> id \<Rightarrow> database \<Rightarrow> go_error + 'a \<times> database) \<Rightarrow> bool" where
  "sound_statement I f \<longleftrightarrow>
     (\<forall>t i d a d'. f t i d = Inr (a, d') \<longrightarrow> db_ok d \<longrightarrow> I d \<longrightarrow> I d' \<and> evolves d d')"

lemma sound_statementI:
  assumes "\<And>t i d a d'. f t i d = Inr (a, d') \<Longrightarrow> db_ok d \<Longrightarrow> I d \<Longrightarrow> I d' \<and> evolves d d'"
  shows "sound_statement I f"
  unfolding sound_statement_def using assms by blast

lemma evolving_exec: "sound_statement I f \<Longrightarrow> keeps (evolving I) (exec f)"
  by (rule evolving.keeps_exec) (simp add: evolving_def sound_statement_def)

lemma evolving_on_dir: "keeps (evolving I) (on_dir f)"
  by (rule evolving.keeps_on_dir) (simp add: evolving_def evolves_refl)

lemma evolving_reads: "keeps db_same m \<Longrightarrow> keeps (evolving I) m"
  by (simp add: keeps_def db_same_def evolving_def evolves_refl)

lemma evolving_call_pure:
  "(\<And>E n w. db (snd (f E n w)) = db w) \<Longrightarrow> keeps (evolving I) (call f)"
  by (auto simp: keeps_def evolving_def call_def Let_def evolves_refl)

section \<open>Statements\<close>

text \<open>A condition that reads only the revisions and the tests.\<close>

definition about_problems :: "(database \<Rightarrow> bool) \<Rightarrow> bool" where
  "about_problems I \<longleftrightarrow>
     (\<forall>d d'. revisions d' = revisions d \<longrightarrow> test_cases d' = test_cases d \<longrightarrow> I d' = I d)"

definition is_draft :: "id \<Rightarrow> database \<Rightarrow> bool" where
  "is_draft k d \<longleftrightarrow> (\<exists>r\<in>set (revisions d). r_id r = k \<and> r_state r = RevisionDraft)"

definition draft_test :: "id \<Rightarrow> id \<Rightarrow> database \<Rightarrow> bool" where
  "draft_test k j d \<longleftrightarrow>
     is_draft k d \<and> (\<exists>t\<in>set (test_cases d). t_id t = j \<and> t_problem_revision_id t = k)"

lemma about_always [simp]: "about_problems always"
  by (simp add: about_problems_def always_def)

lemma about_is_draft [simp]: "about_problems (is_draft k)"
  by (simp add: about_problems_def is_draft_def)

lemma about_draft_test [simp]: "about_problems (draft_test k j)"
  by (simp add: about_problems_def draft_test_def is_draft_def)

text \<open>A statement on the other tables, or one that adds a file row.\<close>

definition same_core :: "database \<Rightarrow> database \<Rightarrow> bool" where
  "same_core d d' \<longleftrightarrow>
     revisions d' = revisions d \<and> test_cases d' = test_cases d \<and>
     set (artifacts d) \<subseteq> set (artifacts d') \<and>
     (\<forall>a\<in>set (series_problems d'). \<exists>b\<in>set (series_problems d). same_pin a b)"

lemma same_core_statement:
  assumes "about_problems I"
    and "\<And>t i d a d'. f t i d = Inr (a, d') \<Longrightarrow> same_core d d'"
    and "\<And>t i d a d'. f t i d = Inr (a, d') \<Longrightarrow> db_ok d \<Longrightarrow> db_ok d'"
  shows "sound_statement I f"
proof (rule sound_statementI)
  fix t i d a d'
  assume run: "f t i d = Inr (a, d')" and ok: "db_ok d" and I: "I d"
  note same = assms(2) [OF run]
  have "I d'" using assms(1) same I unfolding about_problems_def same_core_def by blast
  moreover have "evolves d d'"
    using assms(3) [OF run ok] same
    by (auto simp: same_core_def evolves_def keeps_revision_def published_def revision_tests_def)
  ultimately show "I d' \<and> evolves d d'" by simp
qed

lemma same_pin_refl [simp]: "same_pin a a"
  by (simp add: same_pin_def)

lemma same_pin_there [intro]: "a \<in> S \<Longrightarrow> \<exists>b\<in>S. same_pin a b"
  by (auto simp: same_pin_def)

lemma same_core_inserts:
  "insert_user u t i d = Inr (a1, d') \<Longrightarrow> same_core d d'"
  "insert_session s t i d = Inr (a2, d') \<Longrightarrow> same_core d d'"
  "insert_contest c t i d = Inr (a3, d') \<Longrightarrow> same_core d d'"
  "insert_series e t i d = Inr (a4, d') \<Longrightarrow> same_core d d'"
  "insert_preview p t i d = Inr (a5, d') \<Longrightarrow> same_core d d'"
  "insert_artifact b t i d = Inr (a6, d') \<Longrightarrow> same_core d d'"
  "insert_problem q t i d = Inr (a7, d') \<Longrightarrow> same_core d d'"
  "upsert_membership m t i d = Inr (a8, d') \<Longrightarrow> same_core d d'"
  by (auto simp: insert_user_def insert_session_def insert_contest_def insert_series_def
      insert_preview_def insert_artifact_def insert_problem_def upsert_membership_def same_core_def
      elim!: with_rows_InrE insert_row_InrE split: if_splits)

lemma same_core_updates:
  "update_contests sel1 upd1 d = Inr (a1, d') \<Longrightarrow> same_core d d'"
  "update_series_rows sel2 upd2 d = Inr (a2, d') \<Longrightarrow> same_core d d'"
  "update_previews sel3 upd3 d = Inr (a3, d') \<Longrightarrow> same_core d d'"
  "update_problems sel4 upd4 d = Inr (a4, d') \<Longrightarrow> same_core d d'"
  by (auto simp: update_contests_def update_series_rows_def update_previews_def update_problems_def
      same_core_def elim!: with_rows_InrE)

lemma same_core_deletes:
  "delete_sessions sel1 d = Inr (a1, d') \<Longrightarrow> same_core d d'"
  "delete_memberships sel2 d = Inr (a2, d') \<Longrightarrow> same_core d d'"
  "delete_previews sel3 d = Inr (a3, d') \<Longrightarrow> same_core d d'"
  "delete_series sel4 d = Inr (a4, d') \<Longrightarrow> same_core d d'"
  "delete_contests sel5 d = Inr (a5, d') \<Longrightarrow> same_core d d'"
  by (auto simp: delete_sessions_def delete_memberships_def delete_previews_def delete_series_def
      delete_contests_def same_core_def Let_def)

lemma same_core_assignments:
  assumes "update_series_problems sel upd d = Inr (n, d')"
    and "\<And>a. same_pin (upd a) a"
  shows "same_core d d'"
proof -
  from assms(1) have d': "d' = d\<lparr>series_problems := modify sel upd (series_problems d)\<rparr>"
    by (auto simp: update_series_problems_def elim!: with_rows_InrE update_rows_InrE)
  have "\<exists>b\<in>set (series_problems d). same_pin a b" if "a \<in> set (series_problems d')" for a
  proof -
    from that obtain b where "b \<in> set (series_problems d)" "a = (if sel b then upd b else b)"
      by (auto simp: d' in_set_modify)
    with assms(2) [of b] show ?thesis by (auto intro!: bexI [of _ b])
  qed
  then show ?thesis by (simp add: same_core_def d')
qed

lemmas same_cores = same_core_inserts same_core_updates same_core_deletes

text \<open>A draft is no published revision: its row and its tests may change.\<close>

lemma published_not_draft:
  assumes "db_ok d" and "is_draft k d" and "published d r"
  shows "r_id r \<noteq> k"
proof
  assume "r_id r = k"
  with assms(2) obtain q where q: "q \<in> set (revisions d)" "r_id r = r_id q" "r_state q = RevisionDraft"
    by (auto simp: is_draft_def)
  with assms(3) have "r = q" by (intro key_unique [OF assms(1)]) (simp_all add: published_def)
  with q(3) assms(3) show False by (simp add: published_def db_constants)
qed

lemma evolves_draft:
  assumes "db_ok d" and "is_draft k d" and "db_ok d'"
    and "\<And>r. r \<in> set (revisions d) \<Longrightarrow> r_id r \<noteq> k \<Longrightarrow> r \<in> set (revisions d')"
    and "\<And>j. j \<noteq> k \<Longrightarrow> revision_tests d' j = revision_tests d j"
    and "artifacts d' = artifacts d" and "series_problems d' = series_problems d"
  shows "evolves d d'"
proof -
  have "keeps_revision d d' r" if "published d r" for r
    using published_not_draft [OF assms(1,2) that] that assms by (simp add: keeps_revision_def published_def)
  with assms(3,7) show ?thesis by (auto simp: evolves_def)
qed

lemma update_draft_evolves:
  assumes "update_revisions (\<lambda>r. r_id r = k) upd d = Inr (n, d')" and "db_ok d" and "is_draft k d"
    and "\<And>r. r_id (upd r) = r_id r"
  shows "evolves d d'"
proof -
  from assms(1) have d': "d' = d\<lparr>revisions := modify (\<lambda>r. r_id r = k) upd (revisions d)\<rparr>"
    by (auto simp: update_revisions_def elim!: with_rows_InrE update_rows_InrE)
  have "db_ok d'" by (rule update_revisions_ok [OF assms(1,2)]) (auto simp: assms(4))
  with assms(2,3) show ?thesis
    by (rule evolves_draft) (auto simp: d' revision_tests_def intro: modify_other)
qed

lemma bex_modify:
  assumes "\<And>r. sel r \<Longrightarrow> Q (f r) = Q r"
  shows "(\<exists>x\<in>set (modify sel f rows). Q x) \<longleftrightarrow> (\<exists>x\<in>set rows. Q x)"
proof -
  have *: "(\<exists>x\<in>set xs. Q x) \<longleftrightarrow> True \<in> set (map Q xs)" for xs by auto
  show ?thesis unfolding * using assms by (simp only: map_modify)
qed

lemma update_draft_sound:
  assumes "\<And>t r. r_id (upd t r) = r_id r" and "\<And>t r. r_state (upd t r) = r_state r"
  shows "sound_statement (is_draft k) (\<lambda>t i. update_revisions (\<lambda>r. r_id r = k) (upd t))"
proof (rule sound_statementI)
  fix t i d n d'
  assume run: "update_revisions (\<lambda>r. r_id r = k) (upd t) d = Inr (n, d')" and d: "db_ok d" "is_draft k d"
  from run have "d' = d\<lparr>revisions := modify (\<lambda>r. r_id r = k) (upd t) (revisions d)\<rparr>"
    by (auto simp: update_revisions_def elim!: with_rows_InrE update_rows_InrE)
  with d(2) have "is_draft k d'" by (simp add: is_draft_def bex_modify assms)
  moreover have "evolves d d'" by (rule update_draft_evolves [OF run d]) (rule assms)
  ultimately show "is_draft k d' \<and> evolves d d'" by simp
qed

lemma insert_test_sound:
  assumes "t_problem_revision_id x = k"
  shows "sound_statement (is_draft k) (insert_test x)"
proof (rule sound_statementI)
  fix t i d a d'
  assume run: "insert_test x t i d = Inr (a, d')" and d: "db_ok d" "is_draft k d"
  have ok: "db_ok d'" using run d(1) by (rule insert_test_ok)
  from run have d': "d' = d\<lparr>test_cases := test_cases d @ [a]\<rparr>" "t_problem_revision_id a = k"
    using assms by (auto simp: insert_test_def elim!: with_rows_InrE insert_row_InrE)
  from d ok have "evolves d d'" by (rule evolves_draft) (auto simp: d' revision_tests_def)
  with d(2) show "is_draft k d' \<and> evolves d d'" by (simp add: d' is_draft_def)
qed

lemma delete_test_sound:
  "sound_statement (is_draft k) (\<lambda>t i. delete_test_cases (\<lambda>r. t_id r = j \<and> t_problem_revision_id r = k))"
proof (rule sound_statementI)
  fix t i d a d'
  assume run: "delete_test_cases (\<lambda>r. t_id r = j \<and> t_problem_revision_id r = k) d = Inr (a, d')"
    and d: "db_ok d" "is_draft k d"
  have ok: "db_ok d'" using run d(1) by (rule delete_oks)
  from run have d': "d' = d\<lparr>test_cases := filter (\<lambda>r. \<not> (t_id r = j \<and> t_problem_revision_id r = k)) (test_cases d)\<rparr>"
    by (simp add: delete_test_cases_def)
  from d ok have "evolves d d'"
    by (rule evolves_draft) (auto simp: d' revision_tests_def intro: filter_cong)
  with d(2) show "is_draft k d' \<and> evolves d d'" by (simp add: d' is_draft_def)
qed

lemma update_test_sound:
  assumes "\<And>t r. t_id (upd t r) = t_id r"
    and "\<And>t r. t_problem_revision_id (upd t r) = t_problem_revision_id r"
  shows "sound_statement (draft_test k j) (\<lambda>t i. update_test_cases (\<lambda>r. t_id r = j) (upd t))"
proof (rule sound_statementI)
  fix t i d n d'
  assume run: "update_test_cases (\<lambda>r. t_id r = j) (upd t) d = Inr (n, d')"
    and d: "db_ok d" "draft_test k j d"
  from run have d': "d' = d\<lparr>test_cases := modify (\<lambda>r. t_id r = j) (upd t) (test_cases d)\<rparr>"
    by (auto simp: update_test_cases_def elim!: with_rows_InrE update_rows_InrE)
  have ok: "db_ok d'" by (rule update_test_cases_ok [OF run d(1)]) (auto simp: assms)
  from d(2) obtain q where q: "q \<in> set (test_cases d)" "t_id q = j" "t_problem_revision_id q = k"
    by (auto simp: draft_test_def)
  have k: "t_problem_revision_id x = k" if "x \<in> set (test_cases d)" "t_id x = j" for x
  proof -
    have "x = q" by (rule key_unique [OF d(1)]) (simp_all add: that q)
    with q show ?thesis by simp
  qed
  have "revision_tests d' m = revision_tests d m" if "m \<noteq> k" for m
  proof -
    have "modify (\<lambda>r. t_id r = j) (upd t) (revision_tests d m) = revision_tests d m"
      by (rule modify_none) (use k that in \<open>auto simp: revision_tests_def\<close>)
    moreover have "revision_tests d' m = modify (\<lambda>r. t_id r = j) (upd t) (revision_tests d m)"
      by (simp add: revision_tests_def d' filter_modify assms)
    ultimately show ?thesis by simp
  qed
  moreover have "is_draft k d" using d(2) by (simp add: draft_test_def)
  ultimately have "evolves d d'"
    using d(1) ok by (intro evolves_draft [of d k d']) (simp_all add: d')
  moreover have "draft_test k j d'"
    using d(2) by (simp add: d' draft_test_def is_draft_def bex_modify assms)
  ultimately show "draft_test k j d' \<and> evolves d d'" by simp
qed

lemma delete_artifacts_sound:
  assumes "about_problems I"
  shows "sound_statement I (\<lambda>t i. delete_artifacts sel)"
proof (rule sound_statementI)
  fix t i d n d'
  assume run: "delete_artifacts sel d = Inr (n, d')" and d: "db_ok d" "I d"
  have ok: "db_ok d'" using run d(1) by (rule delete_oks)
  from run have d': "d' = d\<lparr>artifacts := filter (\<lambda>x. \<not> sel x) (artifacts d)\<rparr>"
    and free: "\<And>a. a \<in> set (artifacts d) \<Longrightarrow> sel a \<Longrightarrow> \<not> artifact_referenced d (a_id a)"
    by (auto simp: delete_artifacts_def Let_def split: if_splits)
  have kept: "\<not> sel a"
    if "r \<in> set (revisions d)" "a \<in> set (artifacts d)" "refers_to d (a_id a) r" for a r
    using that free [of a] unfolding refers_to_def artifact_referenced_def by blast
  have keep: "keeps_revision d d' r" if "published d r" for r
    using that kept [of r] by (simp add: keeps_revision_def published_def d' revision_tests_def)
  have same: "series_problems d' = series_problems d" "revisions d' = revisions d"
    "test_cases d' = test_cases d" by (simp_all add: d')
  from ok keep same(1) have "evolves d d'" by (rule evolvesI)
  moreover have "I d'" using assms d(2) same unfolding about_problems_def by blast
  ultimately show "I d' \<and> evolves d d'" by simp
qed

lemma insert_revision_evolves:
  assumes "insert_revision x t i d = Inr (r, d')" and "db_ok d"
  shows "evolves d d'" and "r_state x = RevisionDraft \<Longrightarrow> is_draft (r_id r) d'"
proof -
  have ok: "db_ok d'" using assms by (rule insert_revision_ok)
  from assms(1) have d': "d' = d\<lparr>revisions := revisions d @ [r]\<rparr>" and r: "r_state r = r_state x"
    by (auto simp: insert_revision_def elim!: with_rows_InrE insert_row_InrE)
  show "evolves d d'"
    using ok by (auto simp: evolves_def keeps_revision_def published_def d' revision_tests_def)
  show "r_state x = RevisionDraft \<Longrightarrow> is_draft (r_id r) d'" by (simp add: is_draft_def d' r)
qed

lemma insert_revision_sound: "sound_statement always (insert_revision x)"
  by (rule sound_statementI) (auto simp: always_def intro: insert_revision_evolves)

text \<open>The condition under which an assignment may be inserted: its revision is published.\<close>

definition offers :: "id \<Rightarrow> id \<Rightarrow> database \<Rightarrow> bool" where
  "offers k p d \<longleftrightarrow>
     (\<exists>r\<in>set (revisions d). r_id r = k \<and> r_state r = RevisionPublished \<and> r_problem_id r = p)"

lemma insert_series_problem_sound:
  "sound_statement (offers (sp_published_revision_id a) (sp_problem_id a)) (insert_series_problem a)"
proof (rule sound_statementI)
  fix t i d b d'
  assume run: "insert_series_problem a t i d = Inr (b, d')" and ok: "db_ok d"
    and off: "offers (sp_published_revision_id a) (sp_problem_id a) d"
  have ok': "db_ok d'" using run ok by (rule insert_series_problem_ok)
  from run have d': "d' = d\<lparr>series_problems := series_problems d @ [b]\<rparr>"
    and b: "sp_problem_id b = sp_problem_id a" "sp_published_revision_id b = sp_published_revision_id a"
    by (auto simp: insert_series_problem_def elim!: with_rows_InrE insert_row_InrE)
  from off have "pinned d' b" by (auto simp: offers_def pinned_def d' b)
  with ok' have "evolves d d'"
    by (auto simp: evolves_def keeps_revision_def published_def d' revision_tests_def)
  with off show "offers (sp_published_revision_id a) (sp_problem_id a) d' \<and> evolves d d'"
    by (simp add: offers_def d')
qed

text \<open>Statements that rewrite rows to themselves take the row lock and change nothing.\<close>

lemma update_revisions_same:
  "update_revisions sel upd d = Inr (n, d') \<Longrightarrow> (\<And>r. sel r \<Longrightarrow> upd r = r) \<Longrightarrow> d' = d"
  by (auto simp: update_revisions_def modify_id elim!: with_rows_InrE update_rows_InrE)

lemma evolving_lock:
  assumes "\<And>r. sel r \<Longrightarrow> upd r = r"
  shows "keeps (evolving I) (exec (\<lambda>t i. update_revisions sel upd))"
proof (intro evolving_exec sound_statementI)
  fix t i d n d'
  assume run: "update_revisions sel upd d = Inr (n, d')" and d: "db_ok d" "I d"
  have "d' = d" using run assms by (rule update_revisions_same)
  with d show "I d' \<and> evolves d d'" by (simp add: evolves_refl)
qed

section \<open>Composition\<close>

text \<open>An operation may establish a condition under which the rest evolves the database.\<close>

lemma evolving_shift:
  assumes "keeps (evolving I) m"
    and "\<And>E w a w'. m E w = (Inr a, w') \<Longrightarrow> db_ok (db w) \<Longrightarrow> I (db w) \<Longrightarrow> J a (db w')"
    and "\<And>a. keeps (evolving (J a)) (f a)" and "\<And>a d. J a d \<Longrightarrow> I d"
  shows "keeps (evolving I) (andThen m f)"
  unfolding keeps_def
proof (intro allI)
  fix E w
  obtain r w1 where m: "m E w = (r, w1)" by (cases "m E w")
  have 1: "evolving I w w1" using assms(1) m by (rule evolving.keepsD)
  show "evolving I w (snd (andThen m f E w))"
  proof (cases r)
    case (Inl e)
    with 1 m show ?thesis by (simp add: andThen_run)
  next
    case (Inr a)
    have 2: "evolving (J a) w1 (snd (f a E w1))" using assms(3) by (simp add: keeps_def)
    have "I (db w') \<and> evolves (db w) (db w')"
      if "db_ok (db w)" "I (db w)" "w' = snd (f a E w1)" for w'
    proof -
      have e: "evolves (db w) (db w1)" using 1 that by (simp add: evolving_def)
      have "J a (db w1)" using assms(2) m Inr that by blast
      with 2 e that have "J a (db w')" "evolves (db w1) (db w')"
        by (simp_all add: evolving_def evolves_ok)
      with e assms(4) show ?thesis by (blast intro: evolves_trans)
    qed
    with m Inr show ?thesis by (simp add: andThen_run evolving_def)
  qed
qed

text \<open>The last statement of publication leaves the condition it ran under.\<close>

definition ending :: "(database \<Rightarrow> bool) \<Rightarrow> (database, 'a) go \<Rightarrow> bool" where
  "ending I m \<longleftrightarrow> (\<forall>E w. db_ok (db w) \<longrightarrow> I (db w) \<longrightarrow> evolves (db w) (db (snd (m E w))))"

lemma ending_read:
  assumes "keeps db_same m" and "\<And>a. ending I (f a)"
  shows "ending I (andThen m f)"
  unfolding ending_def
proof (intro allI impI)
  fix E and w :: "database world"
  assume w: "db_ok (db w)" "I (db w)"
  obtain r w1 where m: "m E w = (r, w1)" by (cases "m E w")
  have "db w1 = db w" using db_sameD [OF assms(1) m] by simp
  with w assms(2) m show "evolves (db w) (db (snd (andThen m f E w)))"
    by (auto simp: andThen_run ending_def evolves_refl split: sum.split) metis
qed

lemma ending_exec:
  assumes "\<And>t i d a d'. f t i d = Inr (a, d') \<Longrightarrow> db_ok d \<Longrightarrow> I d \<Longrightarrow> evolves d d'"
  shows "ending I (andThen (exec f) (\<lambda>_. ret x))"
  using assms
  by (auto simp: ending_def andThen_run exec_def call_def Let_def ret_def evolves_refl
      split: sum.split prod.split)

lemma evolving_ending:
  assumes "keeps db_same m" and "\<And>E w a w'. m E w = (Inr a, w') \<Longrightarrow> J (db w')"
    and "\<And>a. ending J (f a)"
  shows "keeps (evolving always) (andThen m f)"
  unfolding keeps_def
proof (intro allI)
  fix E and w :: "database world"
  obtain r w1 where m: "m E w = (r, w1)" by (cases "m E w")
  have "db w1 = db w" using db_sameD [OF assms(1) m] by simp
  with m assms(2) [of E w _ w1] assms(3) show "evolving always w (snd (andThen m f E w))"
    by (auto simp: andThen_run ending_def evolving_def always_def evolves_refl split: sum.split) metis
qed

section \<open>Every operation evolves the database\<close>

named_theorems evolving_intros

lemmas [evolving_intros] = evolving.keeps_rules evolving_on_dir

lemma plain_exec:
  assumes "about_problems I"
    and "\<And>t i d a d'. f t i d = Inr (a, d') \<Longrightarrow> same_core d d'"
    and "\<And>t i d a d'. f t i d = Inr (a, d') \<Longrightarrow> db_ok d \<Longrightarrow> db_ok d'"
  shows "keeps (evolving I) (exec f)"
  by (rule evolving_exec [OF same_core_statement [OF assms]])

lemma contests_evolve [evolving_intros]:
  "keeps (evolving always) (CreateContest c)" "keeps (evolving always) (UpdateContest c)"
  "keeps (evolving always) (DeleteContest k)" "keeps (evolving always) (CreateSeries s)"
  "keeps (evolving always) (UpdateSeries s)" "keeps (evolving always) (DeleteSeries k)"
  unfolding CreateContest_def UpdateContest_def DeleteContest_def CreateSeries_def UpdateSeries_def
    DeleteSeries_def
  by (intro evolving_intros plain_exec;
      auto elim: insert_oks delete_oks update_contests_ok update_series_rows_ok dest: same_cores)+

lemma accounts_evolve [evolving_intros]:
  "keeps (evolving always) (CreateUser K e p n)" "keeps (evolving always) (CreateAdmin K e p n)"
  "keeps (evolving always) (DeleteSession k)" "keeps (evolving always) (CreateSession K k)"
  unfolding CreateUser_def CreateAdmin_def createUser_def HashPassword_def GenerateToken_def
    DeleteSession_def DeleteExpiredSessions_def CreateSession_def
  by (intro evolving_intros plain_exec evolving_call_pure;
      auto elim: insert_oks delete_oks dest: same_cores split: sum.split)+

lemma LockDraft_reads [read_intros]: "keeps db_same (LockDraft k)"
proof -
  have "keeps db_same (exec (\<lambda>t i. update_revisions (\<lambda>r. r_id r = k \<and> r_state r = RevisionDraft)
                            (\<lambda>r. r\<lparr>r_state := RevisionDraft\<rparr>)))"
    by (intro reads.keeps_exec) (auto simp: db_same_def dest!: update_revisions_same)
  then show ?thesis unfolding LockDraft_def by (intro read_intros)
qed

lemma LockDraft_draft:
  assumes "LockDraft k E w = (Inr u, w')"
  shows "is_draft k (db w')" and "db w' = db w"
proof -
  show same: "db w' = db w" using db_sameD [OF LockDraft_reads assms] by simp
  from assms obtain n d where "update_revisions (\<lambda>r. r_id r = k \<and> r_state r = RevisionDraft)
      (\<lambda>r. r\<lparr>r_state := RevisionDraft\<rparr>) (db w) = Inr (n, d)" and n: "n = 1"
    unfolding LockDraft_def by (auto elim!: andThen_InrE exec_InrE reject_InrE)
  then have "length (filter (\<lambda>r. r_id r = k \<and> r_state r = RevisionDraft) (revisions (db w))) = 1"
    by (auto simp: update_revisions_def elim!: with_rows_InrE update_rows_InrE)
  then have "filter (\<lambda>r. r_id r = k \<and> r_state r = RevisionDraft) (revisions (db w)) \<noteq> []" by auto
  then show "is_draft k (db w')" unfolding same by (auto simp: is_draft_def filter_empty_conv)
qed

lemma lock_draft_reads [read_intros]: "keeps db_same (lock_draft k)"
  unfolding lock_draft_def by (intro read_intros)

lemma lock_draft_draft: "lock_draft k E w = (Inr u, w') \<Longrightarrow> is_draft k (db w')"
  unfolding lock_draft_def by (auto elim!: map_error_InrE dest: LockDraft_draft)

text \<open>After the lock the rest of a transaction may count on a draft.\<close>

lemma evolving_after_lock:
  "(\<And>a. keeps (evolving (is_draft k)) (f a)) \<Longrightarrow> keeps (evolving always) (andThen (LockDraft k) f)"
  "(\<And>a. keeps (evolving (is_draft k)) (f a)) \<Longrightarrow> keeps (evolving always) (andThen (lock_draft k) f)"
  by (rule evolving_shift [where J = "\<lambda>_. is_draft k"],
      auto simp: always_def intro: evolving_reads read_intros dest: LockDraft_draft lock_draft_draft)+

lemma CreateProblem_evolves [evolving_intros]: "keeps (evolving always) (CreateProblem p r)"
  unfolding CreateProblem_def
  by (intro evolving_intros evolving_exec insert_revision_sound same_core_statement;
      auto elim: insert_oks dest: same_cores)

lemma UpdateDraftRevision_evolves [evolving_intros]: "keeps (evolving always) (UpdateDraftRevision r)"
  unfolding UpdateDraftRevision_def
  by (intro evolving_intros evolving_after_lock evolving_exec update_draft_sound; simp)

lemma PublishRevision_evolves [evolving_intros]: "keeps (evolving always) (PublishRevision k at)"
proof -
  have last: "ending (is_draft k) (andThen (exec (\<lambda>t i. update_revisions (\<lambda>r. r_id r = k)
          (\<lambda>r. r\<lparr>r_state := RevisionPublished, r_published_at := Some at, r_updated_at := t\<rparr>))) (\<lambda>_. ret ()))"
    by (rule ending_exec, erule update_draft_evolves) auto
  then show ?thesis
    unfolding PublishRevision_def
    by (intro evolving.keeps_transaction evolving_ending [where J = "is_draft k"] ending_read last
        LockDraft_reads problems_go_reads reads.keeps_rules) (rule LockDraft_draft)
qed

lemma CreateTestCase_evolves [evolving_intros]: "keeps (evolving always) (CreateTestCase t)"
  unfolding CreateTestCase_def
  by (intro evolving_intros evolving_after_lock evolving_exec insert_test_sound refl)

lemma CreateDraftRevision_evolves [evolving_intros]: "keeps (evolving always) (CreateDraftRevision k)"
proof -
  have tests: "keeps (evolving (is_draft (r_id r)))
      (andThen (find_all test_cases P) (\<lambda>tests.
       andThen (for_each tests (\<lambda>test.
                  andThen (exec (insert_test (clone_test (r_id r) test))) (\<lambda>_. ret ()))) (\<lambda>_. ret r)))" for r P
    by (intro evolving_intros evolving_exec insert_test_sound) (simp add: clone_test_def)
  have step: "keeps (evolving always)
      (andThen (exec (insert_revision (next_draft k latest))) (\<lambda>r.
       andThen (find_all test_cases P) (\<lambda>tests.
       andThen (for_each tests (\<lambda>test.
                  andThen (exec (insert_test (clone_test (r_id r) test))) (\<lambda>_. ret ()))) (\<lambda>_. ret r))))" for latest P
    by (rule evolving_shift [where J = "\<lambda>r. is_draft (r_id r)"])
      (auto simp: always_def next_draft_def intro!: evolving_exec insert_revision_sound tests
        dest: insert_revision_evolves(2) elim!: exec_InrE)
  show ?thesis
    unfolding CreateDraftRevision_def
    by (intro evolving_intros step evolving_lock plain_exec;
        auto elim: update_problems_ok dest: same_cores)
qed

section \<open>The content service\<close>

lemma content_reads [read_intros]:
  "keeps db_same (GetSeries k)" "keeps db_same (requireUser actor)"
  "keeps db_same (ManageContest actor k)" "keeps db_same (ManageProblem actor k)"
  "keeps db_same (Revision actor k)" "keeps db_same (CanAuthor actor)"
  "keeps db_same (Series actor k)" "keeps db_same (CanReadSeries actor s)"
  unfolding requireUser_def ManageContest_def ManageProblem_def Revision_def CanAuthor_def
    Series_def CanReadSeries_def
  by (intro read_intros)+

lemmas evolving_reading = content_reads [THEN evolving_reads]

lemma lock_contest_evolves: "keeps (evolving always) (lock_contest k)"
  unfolding lock_contest_def
  by (intro plain_exec) (auto elim: update_contests_ok dest: same_cores)

lemma setMember_evolves [evolving_intros]: "keeps (evolving always) (setMember actor k j role rm)"
  unfolding setMember_def change_member_def
  by (intro evolving_intros evolving_reading lock_contest_evolves plain_exec)
    (auto elim: insert_oks delete_oks dest: same_cores)

lemma SaveSeries_evolves [evolving_intros]: "keeps (evolving always) (SaveSeries actor s)"
  unfolding SaveSeries_def by (intro evolving_intros evolving_reading)

lemma reject_True: "andThen (reject True e) f = fail e"
  by (simp add: andThen_def reject_def fail_def)

lemma Revision_row:
  assumes "Revision actor k E w = (Inr r, w')"
  shows "r \<in> set (revisions (db w))" and "r_id r = k" and "db w' = db w"
proof -
  show "db w' = db w" using db_sameD [OF content_reads(5) assms] by simp
  have "r \<in> set (revisions (db w)) \<and> r_id r = k"
    using assms unfolding Revision_def GetProblemRevision_def
    by (auto elim!: andThen_InrE ret_InrE first_InrE query_InrE dest!: first_row_Some
        split: option.splits)
  then show "r \<in> set (revisions (db w))" "r_id r = k" by auto
qed

lemma Assign_evolves [evolving_intros]: "keeps (evolving always) (Assign actor a)"
proof -
  let ?J = "\<lambda>r. offers (sp_published_revision_id a) (r_problem_id r)"
  let ?a = "\<lambda>r. a\<lparr>sp_problem_id := r_problem_id r, sp_code := trim_space (sp_code a)\<rparr>"
  have insert: "keeps (evolving (?J r)) (exec (insert_series_problem (?a r)))" for r
    using evolving_exec [OF insert_series_problem_sound [of "?a r"]] by simp
  show ?thesis
    unfolding Assign_def Let_def
  proof (rule evolving.keeps_andThen [OF evolving_reading(7)],
      rule evolving_shift [where J = "\<lambda>r d. r_state r = RevisionPublished \<longrightarrow> ?J r d"])
    show "keeps (evolving always) (Revision actor (sp_published_revision_id a))"
      by (rule evolving_reading)
  next
    fix r
    show "keeps (evolving (\<lambda>d. r_state r = RevisionPublished \<longrightarrow> ?J r d))
        (andThen (reject (r_state r \<noteq> RevisionPublished) ErrConflict) (\<lambda>_.
         andThen (reject (sp_code (?a r) = [] \<or> length (sp_code (?a r)) > 64 \<or> sp_position (?a r) < 0)
                   (invalid ''invalid assignment code or position'')) (\<lambda>_.
         exec (insert_series_problem (?a r)))))"
    proof (cases "r_state r = RevisionPublished")
      case True
      then have "(\<lambda>d. r_state r = RevisionPublished \<longrightarrow> ?J r d) = ?J r" by simp
      then show ?thesis by (simp only:) (intro evolving.keeps_rules insert)
    next
      case False
      then show ?thesis by (simp add: reject_True evolving.keeps_fail)
    qed
  next
    fix E w r w'
    assume "Revision actor (sp_published_revision_id a) E w = (Inr r, w')"
    from Revision_row [OF this] show "r_state r = RevisionPublished \<longrightarrow> ?J r (db w')"
      by (auto simp: offers_def)
  qed (simp add: always_def)
qed

lemma reorder_evolves:
  assumes "keeps (evolving always) lock" and "keeps (evolving always) rows"
    and "\<And>k p. keeps (evolving always) (set_position k p)"
  shows "keeps (evolving always) (reorder lock rows set_position ids)"
  unfolding reorder_def Let_def
  by (intro evolving_intros assms)

lemma set_positions_evolve:
  "keeps (evolving always) (set_series_position k p)"
  "keeps (evolving always) (set_assignment_position k p)"
proof -
  show "keeps (evolving always) (set_series_position k p)"
    unfolding set_series_position_def
    by (intro plain_exec) (auto elim: update_series_rows_ok dest: same_cores)
  show "keeps (evolving always) (set_assignment_position k p)"
    unfolding set_assignment_position_def
    by (intro plain_exec) (auto elim: update_series_problems_ok same_core_assignments simp: same_pin_def)
qed

lemma reorders_evolve [evolving_intros]:
  "keeps (evolving always) (ReorderSeries actor k ids)"
  "keeps (evolving always) (ReorderProblems actor k ids)"
proof -
  have "keeps (evolving always) (exec (\<lambda>t i. update_series_rows (\<lambda>s. s_id s = k) (\<lambda>s. s\<lparr>s_id := k\<rparr>)))"
    by (intro plain_exec) (auto elim: update_series_rows_ok dest: same_cores)
  then show "keeps (evolving always) (ReorderProblems actor k ids)"
    unfolding ReorderProblems_def
    by (intro evolving.keeps_andThen evolving_reading reorder_evolves evolving.keeps_query set_positions_evolve)
  show "keeps (evolving always) (ReorderSeries actor k ids)"
    unfolding ReorderSeries_def
    by (intro evolving.keeps_andThen evolving_reading reorder_evolves evolving.keeps_query
        set_positions_evolve lock_contest_evolves)
qed

section \<open>Files\<close>

lemma evolving_files:
  assumes "about_problems I"
  shows "keeps (evolving I) os_call" and "keeps (evolving I) os_create_temp"
    and "keeps (evolving I) (os_write name b)" and "keeps (evolving I) (os_rename src dst)"
    and "keeps (evolving I) (os_remove name)" and "keeps (evolving I) os_read_dir"
    and "keeps (evolving I) randomKey" and "keeps (evolving I) (Remove key)"
    and "keeps (evolving I) (Open item)"
  unfolding os_call_def os_create_temp_def os_write_def os_rename_def os_remove_def os_read_dir_def
    randomKey_def Remove_def Open_def
  by (intro evolving_intros evolving_call_pure; simp)+

lemma used_bytes_evolves: "about_problems I \<Longrightarrow> keeps (evolving I) used_bytes"
  unfolding used_bytes_def by (intro evolving_intros evolving_files)

lemma Save_evolves:
  assumes "about_problems I"
  shows "keeps (evolving I) (Save sha st k name kind source)"
proof -
  have "keeps (evolving I) (exec (insert_artifact a))" for a
    by (intro plain_exec assms) (auto elim: insert_oks dest: same_cores)
  then show ?thesis
    unfolding Save_def store_staged_def Ensure_def Let_def
    by (intro evolving_intros evolving_files used_bytes_evolves assms)
qed

lemma save_evolves: "about_problems I \<Longrightarrow> keeps (evolving I) (save s st k name kind source)"
  unfolding save_def by (intro evolving_intros Save_evolves)

lemma remove_files_evolves: "keeps (evolving always) (remove_files keys)"
  unfolding remove_files_def by (intro evolving_intros evolving_files about_always)

lemma fileTransaction_evolves:
  assumes "keeps (evolving always) body"
  shows "keeps (evolving always) (fileTransaction body)"
  unfolding keeps_def
proof (intro allI)
  fix E w
  obtain r w' where run: "transaction body E (w\<lparr>saved := []\<rparr>) = (r, w')"
    by (cases "transaction body E (w\<lparr>saved := []\<rparr>)")
  have "evolving always (w\<lparr>saved := []\<rparr>) w'"
    using evolving.keeps_transaction [OF assms] run by (rule evolving.keepsD)
  then have 1: "evolving always w w'" by (simp add: evolving_def)
  have "evolving always w' (snd (remove_files ks E w'))" for ks
    using remove_files_evolves by (simp add: keeps_def)
  with 1 have 2: "evolving always w (snd (remove_files ks E w'))" for ks
    by (rule evolving.R_trans)
  show "evolving always w (snd (fileTransaction body E w))"
    using 1 2 run by (simp add: fileTransaction_def split: sum.split)
qed

lemma DeleteTest_evolves [evolving_intros]: "keeps (evolving always) (DeleteTest actor k j)"
  unfolding DeleteTest_def
  by (intro evolving_intros evolving_reading evolving_after_lock evolving_exec delete_test_sound)

lemma UploadPDF_evolves [evolving_intros]: "keeps (evolving always) (UploadPDF s actor k source)"
  unfolding UploadPDF_def
  by (intro evolving_intros evolving_reading fileTransaction_evolves evolving_after_lock
      save_evolves about_is_draft evolving_exec update_draft_sound; simp)

lemma insert_preview_evolves: "about_problems I \<Longrightarrow> keeps (evolving I) (exec (insert_preview p))"
  by (intro plain_exec) (auto elim: insert_oks dest: same_cores)

lemma PreviewZIP_evolves [evolving_intros]: "keeps (evolving always) (PreviewZIP s actor k source)"
  unfolding PreviewZIP_def Let_def
  by (intro evolving_intros evolving_reading fileTransaction_evolves evolving_after_lock
      save_evolves about_is_draft insert_preview_evolves)

lemma import_pair_evolves: "keeps (evolving (is_draft k)) (import_pair s actor k m x)"
  unfolding import_pair_def
  by (intro evolving_intros save_evolves about_is_draft evolving_exec insert_test_sound)
    (simp add: imported_test_def)

lemma CommitZIP_evolves [evolving_intros]: "keeps (evolving always) (CommitZIP s actor k j)"
proof -
  have "keeps (evolving (is_draft k)) (exec (\<lambda>t i. update_previews (\<lambda>q. pv_id q = n) (\<lambda>q. q\<lparr>pv_committed_at := c\<rparr>)))" for n c
    by (intro plain_exec about_is_draft) (auto elim: update_previews_ok dest: same_cores)
  then show ?thesis
    unfolding CommitZIP_def commit_preview_def
    by (intro evolving_intros evolving_reading fileTransaction_evolves evolving_after_lock
        import_pair_evolves evolving_files about_is_draft)
qed

lemma SaveTest_evolves [evolving_intros]: "keeps (evolving always) (SaveTest s actor k j i)"
proof -
  have update: "keeps (evolving (draft_test k j)) (exec (\<lambda>t n. update_test_cases (\<lambda>r. t_id r = j) (set_test_fields v t)))" for v
    by (intro evolving_exec update_test_sound) (simp_all add: set_test_fields_def)
  have insert: "keeps (evolving (is_draft k)) (exec (insert_test (new_test j k i in_id out_id)))" for in_id out_id
    by (intro evolving_exec insert_test_sound) (simp add: new_test_def)
  have found: "draft_test k j (db w')"
    if "andThen (first test_cases t_id (\<lambda>t. t_id t = j \<and> t_problem_revision_id t = k)) (\<lambda>_. ret ()) E w = (Inr u, w')"
      "is_draft k (db w)" for E w u w'
    using that by (auto simp: draft_test_def elim!: andThen_InrE first_InrE ret_InrE dest!: first_row_Some)
  show ?thesis
  proof (cases "j = 0")
    case True
    then show ?thesis
      unfolding SaveTest_def Let_def
      by (simp only: if_True refl)
        (intro evolving_intros evolving_reading fileTransaction_evolves evolving_after_lock
          save_evolves about_is_draft insert [unfolded True])
  next
    case False
    then show ?thesis
      unfolding SaveTest_def Let_def
      by (simp only: if_False)
        (intro evolving.keeps_andThen evolving.keeps_reject evolving_reading fileTransaction_evolves
          evolving_after_lock
          evolving_shift [where I = "is_draft k" and J = "\<lambda>_. draft_test k j"]
          evolving.keeps_first evolving.keeps_ret save_evolves about_draft_test update found;
         simp add: draft_test_def)
  qed
qed

lemma Collect_evolves [evolving_intros]: "keeps (evolving always) (Collect actor)"
proof -
  have previews: "keeps (evolving always) (exec (\<lambda>t i. delete_previews P))" for P
    by (intro plain_exec about_always) (auto elim: delete_oks dest: same_cores)
  have rows: "keeps (evolving always) (exec (\<lambda>t i. delete_artifacts P))" for P
    by (intro evolving_exec delete_artifacts_sound about_always)
  show ?thesis
    unfolding Collect_def collect_rows_def remove_existing_def CollectTemporary_def collect_orphan_def Let_def
    by (intro evolving_intros evolving_files about_always previews rows)
qed

end
