(* ===== verification/Answers.thy ===== *)
theory Answers
  imports Effects
begin

text \<open>
  Reading operations in a steady environment: no call fails and the clock stands at one
  instant. Such an operation leaves the world as it was, but for the count of calls, and
  its answer does not depend on that count, so answers compose by rules.
\<close>

definition steady :: "env \<Rightarrow> time \<Rightarrow> bool" where
  "steady E at \<longleftrightarrow> (\<forall>n. \<not> faulty E n) \<and> (\<forall>n. clock E n = at)"

lemma steady_calm: "steady E at \<Longrightarrow> calm E"
  by (simp add: steady_def calm_def)

definition answers :: "env \<Rightarrow> 'd world \<Rightarrow> ('d, 'a) go \<Rightarrow> go_error + 'a \<Rightarrow> bool" where
  "answers E w m r \<longleftrightarrow> (\<exists>n. m E w = (r, w\<lparr>ticks := n\<rparr>))"

lemma answers_fst: "answers E w m r \<Longrightarrow> fst (m E w) = r"
  by (auto simp: answers_def)

lemma answers_unique: "answers E w m r \<Longrightarrow> answers E w m r' \<Longrightarrow> r = r'"
  by (auto simp: answers_def)

named_theorems answer_rules

lemma answers_ret [answer_rules]: "answers E w (ret a) (Inr a)"
  by (auto simp: answers_def ret_def intro: exI [of _ "ticks w"])

lemma answers_fail [answer_rules]: "answers E w (fail e) (Inl e)"
  by (auto simp: answers_def fail_def intro: exI [of _ "ticks w"])

lemma answers_of_sum [answer_rules]: "answers E w (of_sum r) r"
  by (auto simp: answers_def of_sum_def intro: exI [of _ "ticks w"])

lemma answers_reject [answer_rules]: "answers E w (reject b e) (if b then Inl e else Inr ())"
  by (simp add: reject_def answers_ret answers_fail)

lemma answers_query [answer_rules]: "calm E \<Longrightarrow> answers E w (query f) (Inr (f (db w)))"
  by (auto simp: answers_def go_simps)

lemma answers_now [answer_rules]: "steady E at \<Longrightarrow> answers E w now (Inr at)"
  by (auto simp: answers_def now_def steady_def)

lemma answers_count [answer_rules]:
  "calm E \<Longrightarrow> answers E w (count tbl P) (Inr (length (filter P (tbl (db w)))))"
  using answers_query [of E w "\<lambda>d. length (filter P (tbl d))"] by (simp add: count_def)

lemma answers_find_all [answer_rules]:
  "calm E \<Longrightarrow> answers E w (find_all tbl P) (Inr (filter P (tbl (db w))))"
  using answers_query [of E w "\<lambda>d. filter P (tbl d)"] by (simp add: find_all_def)

lemma answers_first [answer_rules]:
  "calm E \<Longrightarrow> answers E w (first tbl key P)
     (case first_row key P (tbl (db w)) of None \<Rightarrow> Inl ErrRecordNotFound | Some r \<Rightarrow> Inr r)"
  by (auto simp: answers_def go_simps split: option.split)

lemma answersI: "m E w = (r, w\<lparr>ticks := n\<rparr>) \<Longrightarrow> answers E w m r"
  by (auto simp: answers_def)

lemma answersE:
  assumes "answers E w m r"
  obtains n where "m E w = (r, w\<lparr>ticks := n\<rparr>)"
  using assms by (auto simp: answers_def)

lemma clock_steady [go_simps]: "steady E at \<Longrightarrow> clock E n = at"
  by (simp add: steady_def)

lemma some_ticks [simp]: "\<exists>n. w = w\<lparr>ticks := n\<rparr>"
  by (rule exI [of _ "ticks w"]) simp

lemma answers_attempt: "answers E w m r \<Longrightarrow> answers E w (attempt m) (Inr r)"
  by (auto simp: answers_def attempt_def)

lemma answers_andThen:
  assumes "answers E w m r" and "\<And>e. r = Inl e \<Longrightarrow> r' = Inl e"
    and "\<And>a n. r = Inr a \<Longrightarrow> answers E (w\<lparr>ticks := n\<rparr>) (f a) r'"
  shows "answers E w (andThen m f) r'"
proof -
  from assms(1) obtain n where n: "m E w = (r, w\<lparr>ticks := n\<rparr>)" by (auto simp: answers_def)
  show ?thesis
  proof (cases r)
    case (Inl e)
    with n assms(2) show ?thesis by (auto simp: answers_def andThen_def)
  next
    case (Inr a)
    with assms(3) [of a n] n show ?thesis by (auto simp: answers_def andThen_def)
  qed
qed

text \<open>The rule in the shape that chains: the answer of the whole is computed from the first's.\<close>

lemma answers_bind:
  assumes "answers E w m r"
    and "\<And>a n. r = Inr a \<Longrightarrow> answers E (w\<lparr>ticks := n\<rparr>) (f a) (g a)"
  shows "answers E w (andThen m f) (case r of Inl e \<Rightarrow> Inl e | Inr a \<Rightarrow> g a)"
  by (rule answers_andThen [OF assms(1)]) (use assms(2) in \<open>auto\<close>)

end
