(* ===== verification/Policy.thy ===== *)
theory Policy
  imports Content_Service Answers
begin

text \<open>
  The access policy as conditions on the database, and the operations of Content_Service
  as deciding them: who manages a contest, who may read a series and when, who may submit.
\<close>

section \<open>The policy\<close>

definition organizes :: "database \<Rightarrow> user \<Rightarrow> id \<Rightarrow> bool" where
  "organizes d u k \<longleftrightarrow>
     (\<exists>m\<in>set (memberships d). m_contest_id m = k \<and> m_user_id m = u_id u \<and> m_role m = ''organizer'')"

definition participates :: "database \<Rightarrow> user \<Rightarrow> id \<Rightarrow> bool" where
  "participates d u k \<longleftrightarrow>
     (\<exists>m\<in>set (memberships d). m_contest_id m = k \<and> m_user_id m = u_id u \<and> m_role m = ''participant'')"

definition belongs :: "database \<Rightarrow> user \<Rightarrow> id \<Rightarrow> bool" where
  "belongs d u k \<longleftrightarrow> (\<exists>m\<in>set (memberships d). m_contest_id m = k \<and> m_user_id m = u_id u)"

definition manages :: "database \<Rightarrow> user option \<Rightarrow> id \<Rightarrow> bool" where
  "manages d actor k \<longleftrightarrow> admin actor \<or> (\<exists>u\<in>set_option actor. organizes d u k)"

definition contest_of :: "database \<Rightarrow> id \<Rightarrow> contest option" where
  "contest_of d k = first_row c_id (\<lambda>c. c_id c = k) (contests d)"

definition released :: "contest \<Rightarrow> series \<Rightarrow> time \<Rightarrow> bool" where
  "released c s at \<longleftrightarrow>
     c_visibility c = ContestPublished \<and> (\<forall>t\<in>set_option (c_start_at c). t \<le> at) \<and>
     (\<forall>t\<in>set_option (if s_release_at s = None then s_start_at s else s_release_at s). t \<le> at)"

definition may_read :: "database \<Rightarrow> user option \<Rightarrow> series \<Rightarrow> time \<Rightarrow> bool" where
  "may_read d actor s at \<longleftrightarrow>
     manages d actor (s_contest_id s) \<or>
     (\<exists>u\<in>set_option actor. \<exists>c\<in>set_option (contest_of d (s_contest_id s)).
        released c s at \<and> belongs d u (s_contest_id s))"

text \<open>An instant lies in a window that includes its start and excludes its end.\<close>

definition in_window :: "time option \<Rightarrow> time option \<Rightarrow> time \<Rightarrow> bool" where
  "in_window lo hi at \<longleftrightarrow> (\<forall>t\<in>set_option lo. t \<le> at) \<and> (\<forall>t\<in>set_option hi. at < t)"

definition may_submit :: "database \<Rightarrow> user option \<Rightarrow> series \<Rightarrow> time \<Rightarrow> bool" where
  "may_submit d actor s at \<longleftrightarrow>
     (\<exists>u\<in>set_option actor. \<exists>c\<in>set_option (contest_of d (s_contest_id s)).
        may_read d actor s at \<and> participates d u (s_contest_id s) \<and>
        c_visibility c = ContestPublished \<and>
        in_window (c_start_at c) (c_end_at c) at \<and> in_window (s_start_at s) (s_end_at s) at)"

section \<open>The operations decide it\<close>

lemma released_eq:
  "released c s at \<longleftrightarrow>
     c_visibility c = ContestPublished \<and> not_before (c_start_at c) at \<and> not_before (release_of s) at"
  by (auto simp: released_def not_before_def release_of_def split: option.split)

lemma in_window_eq: "in_window lo hi at \<longleftrightarrow> not_before lo at \<and> before_end hi at"
  by (auto simp: in_window_def not_before_def before_end_def split: option.split)

lemma count_pos: "length (filter P xs) = 0 \<longleftrightarrow> \<not> (\<exists>x\<in>set xs. P x)"
  by (auto simp: filter_empty_conv)

lemma answers_requireUser [answer_rules]:
  "answers E w (requireUser actor) (case actor of None \<Rightarrow> Inl ErrUnauthorized | Some u \<Rightarrow> Inr u)"
  by (auto simp: requireUser_def answer_rules split: option.split)

lemma admin_None [simp]: "\<not> admin None"
  by (simp add: admin_def)

definition manage_answer :: "database \<Rightarrow> user option \<Rightarrow> id \<Rightarrow> go_error + unit" where
  "manage_answer d actor k =
     (if actor = None then Inl ErrUnauthorized
      else if contest_of d k = None then Inl ErrRecordNotFound
      else if manages d actor k then Inr () else Inl ErrForbidden)"

lemma answers_ManageContest:
  "calm E \<Longrightarrow> answers E w (ManageContest actor k) (manage_answer (db w) actor k)"
  by (auto simp: answers_def ManageContest_def requireUser_def andThen_run go_simps manage_answer_def
      contest_of_def manages_def organizes_def filter_empty_conv split: option.splits)

definition read_answer :: "database \<Rightarrow> user option \<Rightarrow> series \<Rightarrow> time \<Rightarrow> go_error + unit" where
  "read_answer d actor s at =
     (if actor = None then Inl ErrUnauthorized
      else if contest_of d (s_contest_id s) = None then Inl ErrRecordNotFound
      else if may_read d actor s at then Inr () else Inl ErrForbidden)"

lemma answers_CanReadSeries:
  assumes "steady E at"
  shows "answers E w (CanReadSeries actor s) (read_answer (db w) actor s at)"
proof -
  have calm: "calm E" using assms by (rule steady_calm)
  obtain n where m: "ManageContest actor (s_contest_id s) E w =
      (manage_answer (db w) actor (s_contest_id s), w\<lparr>ticks := n\<rparr>)"
    using answers_ManageContest [OF calm] by (rule answersE)
  show ?thesis
    using calm assms
    by (auto simp: answers_def CanReadSeries_def attempt_def andThen_run m manage_answer_def
        requireUser_def GetContest_def go_simps read_answer_def may_read_def contest_of_def
        released_eq belongs_def filter_empty_conv split: option.splits)
qed

definition submit_answer :: "database \<Rightarrow> user option \<Rightarrow> id \<Rightarrow> time \<Rightarrow> go_error + unit" where
  "submit_answer d actor k at =
     (if actor = None then Inl ErrUnauthorized
      else case first_row s_id (\<lambda>s. s_id s = k) (series_rows d) of
             None \<Rightarrow> Inl ErrRecordNotFound
           | Some s \<Rightarrow>
               if contest_of d (s_contest_id s) = None then Inl ErrRecordNotFound
               else if may_submit d actor s at then Inr () else Inl ErrForbidden)"

lemma answers_CanSubmit:
  assumes "steady E at"
  shows "answers E w (CanSubmit actor k) (submit_answer (db w) actor k at)"
proof (cases actor)
  case None
  then show ?thesis
    by (auto simp: answers_def CanSubmit_def requireUser_def andThen_run go_simps submit_answer_def)
next
  case (Some u)
  have calm: "calm E" using assms by (rule steady_calm)
  let ?t = "\<lambda>n. w\<lparr>ticks := n\<rparr>"
  show ?thesis
  proof (cases "first_row s_id (\<lambda>s. s_id s = k) (series_rows (db w))")
    case None
    with calm Some show ?thesis
      by (auto simp: answers_def CanSubmit_def requireUser_def GetSeries_def andThen_run go_simps
          submit_answer_def)
  next
    case s: (Some s)
    obtain n where r: "CanReadSeries (Some u) s E (?t (Suc (ticks w))) =
        (read_answer (db w) (Some u) s at, w\<lparr>ticks := n\<rparr>)"
      using answers_CanReadSeries [OF assms, of "?t (Suc (ticks w))" "Some u" s]
      by (auto elim: answersE)
    show ?thesis
      using calm assms Some s
      by (auto simp: answers_def CanSubmit_def requireUser_def GetSeries_def GetContest_def
          andThen_run r read_answer_def go_simps submit_answer_def may_submit_def contest_of_def
          in_window_eq participates_def filter_empty_conv split: option.splits)
  qed
qed

end
