(* ===== verification/Samples.thy ===== *)
theory Samples
  imports Content_Files Db_Accounts Answers
begin

text \<open>
  A small intact database, world and environment: the concrete inputs at which properties
  with hypotheses are instantiated.
\<close>

definition sample_env :: "time \<Rightarrow> env" where
  "sample_env at =
     \<lparr>faulty = \<lambda>_. False, clock = \<lambda>_. at, random_bytes = \<lambda>n. replicate n CHR 0x01 @ replicate (32 - n) CHR 0x00,
      temp_suffix = \<lambda>n. replicate n CHR ''x'', new_id = \<lambda>n. n + 100\<rparr>"

definition sample_user :: "id \<Rightarrow> string \<Rightarrow> string \<Rightarrow> user" where
  "sample_user k name role =
     \<lparr>u_id = k, u_email = name, u_password_hash = [], u_name = name, u_role = role,
      u_created_at = 1, u_updated_at = 1\<rparr>"

definition root_user :: user where "root_user = sample_user 1 ''root'' RoleAdmin"
definition author :: user where "author = sample_user 2 ''author'' RoleUser"
definition participant :: user where "participant = sample_user 3 ''participant'' RoleUser"
definition outsider :: user where "outsider = sample_user 4 ''outsider'' RoleUser"

definition sample_contest :: contest where
  "sample_contest =
     \<lparr>c_id = 1, c_title = ''Contest'', c_description = [], c_visibility = ContestPublished,
      c_start_at = Some 100, c_end_at = Some 200, c_created_at = 1, c_updated_at = 1\<rparr>"

definition sample_series :: "id \<Rightarrow> int \<Rightarrow> series" where
  "sample_series k p =
     \<lparr>s_id = k, s_contest_id = 1, s_title = ''Series'', s_position = p, s_created_at = 1,
      s_updated_at = 1, s_start_at = Some 120, s_end_at = None, s_release_at = None\<rparr>"

definition sample_artifact :: "id \<Rightarrow> char \<Rightarrow> artifact" where
  "sample_artifact k c =
     \<lparr>a_id = k, a_owner_id = 2, a_storage_key = replicate 64 c, a_sha256 = [], a_size_bytes = 1,
      a_content_type = ''text/plain'', a_filename = ''input.txt'', a_created_at = 1\<rparr>"

definition sample_problem :: problem where
  "sample_problem =
     \<lparr>p_id = 1, p_owner_id = 2, p_title = ''Sum'', p_code = ''SUM'', p_kind = ''programming'',
      p_created_at = 1, p_updated_at = 1\<rparr>"

definition sample_revision :: "id \<Rightarrow> int \<Rightarrow> string \<Rightarrow> revision" where
  "sample_revision k n state =
     \<lparr>r_id = k, r_problem_id = 1, r_number = n, r_state = state, r_statement = ''Add.'',
      r_pdf_artifact_id = Some 5, r_time_limit_millis = Some 1000, r_memory_limit_kib = None,
      r_language_metadata = ''[]'', r_checker_metadata = [], r_published_at = None,
      r_created_at = 1, r_updated_at = 1\<rparr>"

definition sample_test :: "id \<Rightarrow> id \<Rightarrow> int \<Rightarrow> bool \<Rightarrow> id \<Rightarrow> id \<Rightarrow> test_case" where
  "sample_test k r p vis in_id out_id =
     \<lparr>t_id = k, t_problem_revision_id = r, t_position = p, t_is_sample = vis, t_points = None,
      t_time_limit_override_millis = None, t_input_artifact_id = in_id,
      t_output_artifact_id = out_id, t_created_at = 1, t_updated_at = 1\<rparr>"

definition sample_assignment :: "id \<Rightarrow> string \<Rightarrow> int \<Rightarrow> series_problem" where
  "sample_assignment k label p =
     \<lparr>sp_id = k, sp_series_id = 1, sp_problem_id = 1, sp_published_revision_id = 1, sp_code = label,
      sp_position = p, sp_created_at = 1, sp_updated_at = 1\<rparr>"

text \<open>Revision 1 is published with a sample and a hidden test, revision 2 is a draft.\<close>

definition sample_db :: database where
  "sample_db =
     \<lparr>users = [root_user, author, participant, outsider], sessions = [],
      contests = [sample_contest], series_rows = [sample_series 1 0, sample_series 2 1],
      memberships = [\<lparr>m_id = 1, m_contest_id = 1, m_user_id = 2, m_role = ''organizer''\<rparr>,
                     \<lparr>m_id = 2, m_contest_id = 1, m_user_id = 3, m_role = ''participant''\<rparr>],
      previews = [\<lparr>pv_id = 1, pv_owner_id = 2, pv_revision_id = 2, pv_artifact_id = 6,
                   pv_expires_at = 500, pv_committed_at = None\<rparr>],
      artifacts = [sample_artifact 1 CHR ''1'', sample_artifact 2 CHR ''2'', sample_artifact 3 CHR ''3'',
                   sample_artifact 4 CHR ''4'', sample_artifact 5 CHR ''5'', sample_artifact 6 CHR ''6'',
                   sample_artifact 7 CHR ''7''],
      problems = [sample_problem],
      revisions = [sample_revision 1 1 RevisionPublished, sample_revision 2 2 RevisionDraft],
      series_problems = [sample_assignment 1 ''A'' 0, sample_assignment 2 ''B'' 1],
      test_cases = [sample_test 1 1 0 True 1 2, sample_test 2 1 1 False 3 4,
                    sample_test 3 2 0 True 1 2]\<rparr>"

definition sample_file :: "char \<Rightarrow> string \<times> fnode" where
  "sample_file c = (replicate 64 c, \<lparr>f_data = ''data'', f_kind = Regular, f_mtime = 1\<rparr>)"

definition sample_world :: "database world" where
  "sample_world =
     \<lparr>db = sample_db, dir = map sample_file ''1234567'', ticks = 0, saved = []\<rparr>"

text \<open>A service whose archives always hold the tests b and a, and stand-ins for the primitives.\<close>

definition sample_entry :: "string \<Rightarrow> bytes \<Rightarrow> zip_file" where
  "sample_entry name b = \<lparr>z_name = name, z_special = False, z_open = Inr (bytes_reader b)\<rparr>"

definition sample_entries :: "zip_file list" where
  "sample_entries =
     [sample_entry ''b.in'' ''1'', sample_entry ''a.out'' ''4'', sample_entry ''a.in'' ''3'',
      sample_entry ''b.out'' ''2'']"

definition sample_limits :: import_limits where
  "sample_limits = \<lparr>ImportMaxBytes = 100, ImportMaxFiles = 10\<rparr>"

definition sample_service :: service where
  "sample_service =
     \<lparr>svc_store = \<lparr>MaxBytes = 50, MaxTotalBytes = 1000\<rparr>, svc_limits = sample_limits,
      svc_sha256 = \<lambda>b. replicate 32 CHR 0x00, svc_unzip = \<lambda>b. Inr sample_entries\<rparr>"

definition sample_crypto :: crypto where
  "sample_crypto =
     \<lparr>bcrypt_generate = \<lambda>n p. Inr (''hash:'' @ p), bcrypt_compare = \<lambda>h p. h = ''hash:'' @ p,
      sha256 = \<lambda>b. replicate 32 CHR 0x00, hmac_sha256 = \<lambda>k b. replicate 32 CHR 0x00\<rparr>"

lemma sample_steady [simp]: "steady (sample_env at) at"
  by (simp add: steady_def sample_env_def)

lemma sample_calm [simp]: "calm (sample_env at)"
  by (simp add: calm_def sample_env_def)

lemma sample_world_simps [simp]:
  "db sample_world = sample_db" "ticks sample_world = 0" "saved sample_world = []"
  by (simp_all add: sample_world_def)

lemma sample_db_ok [simp]: "db_ok sample_db"
  by code_simp

lemma run_result: "fst p = r \<Longrightarrow> p = (r, snd p)"
  by (cases p) simp

end
