(* ===== verification/Access.thy ===== *)
theory Access
  imports Policy Samples
begin

text \<open>
  Access to series, submissions and stored files: the policy of the theory Policy, extended
  to files, and the theorems that Content_Service decides it, in a steady environment as an
  exact answer and in every environment as a guarantee on what is granted.
\<close>

section \<open>The policy on files\<close>

text \<open>A file the participants of a published revision may see: its PDF, or a file of a sample.\<close>

definition shown :: "database \<Rightarrow> id \<Rightarrow> revision \<Rightarrow> bool" where
  "shown d k r \<longleftrightarrow>
     r_pdf_artifact_id r = Some k \<or>
     (\<exists>t\<in>set (test_cases d). t_problem_revision_id t = r_id r \<and> t_is_sample t \<and>
        (t_input_artifact_id t = k \<or> t_output_artifact_id t = k))"

definition owns :: "database \<Rightarrow> user \<Rightarrow> id \<Rightarrow> bool" where
  "owns d u k \<longleftrightarrow> (\<exists>p\<in>set (problems d). p_id p = k \<and> p_owner_id p = u_id u)"

definition reads_assignment :: "database \<Rightarrow> user \<Rightarrow> time \<Rightarrow> series_problem \<Rightarrow> bool" where
  "reads_assignment d u at a \<longleftrightarrow>
     (\<exists>s\<in>set (series_rows d). s_id s = sp_series_id a \<and> may_read d (Some u) s at)"

definition opens :: "database \<Rightarrow> user \<Rightarrow> id \<Rightarrow> time \<Rightarrow> revision \<Rightarrow> bool" where
  "opens d u k at r \<longleftrightarrow>
     owns d u (r_problem_id r) \<or>
     r_state r = RevisionPublished \<and> shown d k r \<and>
     (\<exists>a\<in>set (series_problems d). sp_published_revision_id a = r_id r \<and> reads_assignment d u at a)"

definition may_open :: "database \<Rightarrow> user option \<Rightarrow> id \<Rightarrow> time \<Rightarrow> bool" where
  "may_open d actor k at \<longleftrightarrow>
     admin actor \<or>
     (\<exists>u\<in>set_option actor. \<exists>r\<in>set (revisions d). refers_to d k r \<and> opens d u k at r)"

definition open_answer :: "database \<Rightarrow> user option \<Rightarrow> id \<Rightarrow> time \<Rightarrow> go_error + artifact" where
  "open_answer d actor k at =
     (if actor = None then Inl ErrUnauthorized
      else case first_row a_id (\<lambda>a. a_id a = k) (artifacts d) of
             None \<Rightarrow> Inl ErrRecordNotFound
           | Some item \<Rightarrow> if may_open d actor k at then Inr item else Inl ErrForbidden)"

section \<open>Granted access, in every environment\<close>

lemma ManageProblem_InrE:
  assumes "ManageProblem actor k E w = (Inr p, w')"
  obtains u where "actor = Some u" and "p \<in> set (problems (db w))" and "p_id p = k"
    and "admin actor \<or> p_owner_id p = u_id u"
  using assms unfolding ManageProblem_def requireUser_def GetProblem_def
  by (auto elim!: go_elims dest!: first_row_Some split: option.splits)

lemma ManageContest_InrE:
  assumes "ManageContest actor k E w = (Inr u, w')"
  obtains "manages (db w) actor k"
proof -
  have "manages (db w) actor k"
    using assms unfolding ManageContest_def requireUser_def
    by (auto elim!: go_elims simp: manages_def organizes_def filter_empty_conv
        split: option.splits if_splits)
  then show thesis by (rule that)
qed

lemma service_reads [read_intros]:
  "keeps db_same (requireUser actor)" "keeps db_same (ManageContest actor k)"
  "keeps db_same (ManageProblem actor k)" "keeps db_same (CanReadSeries actor s)"
  unfolding requireUser_def ManageContest_def ManageProblem_def CanReadSeries_def GetContest_def
    GetProblem_def
  by (intro reads.keeps_rules)+

text \<open>Reading is granted for an instant the clock gave.\<close>

lemma CanReadSeries_InrE:
  assumes "CanReadSeries actor s E w = (Inr x, w')"
  obtains n where "may_read (db w) actor s (clock E n)"
proof -
  from assms obtain managed w1 where m: "ManageContest actor (s_contest_id s) E w = (managed, w1)"
    and rest: "case managed of Inr _ \<Rightarrow> True | Inl e \<Rightarrow>
      \<exists>u c n. actor = Some u \<and> contest_of (db w1) (s_contest_id s) = Some c \<and>
        released c s (clock E n) \<and> belongs (db w1) u (s_contest_id s)"
    unfolding CanReadSeries_def requireUser_def GetContest_def
    by (auto elim!: go_elims simp: contest_of_def released_eq belongs_def filter_empty_conv
        split: sum.splits if_splits option.splits) blast+
  have same: "db w1 = db w" using db_sameD [OF service_reads(2) m] by simp
  show thesis
  proof (cases managed)
    case (Inr v)
    with m have "manages (db w) actor (s_contest_id s)" by (auto elim: ManageContest_InrE)
    then show thesis by (auto simp: may_read_def intro: that)
  next
    case (Inl e)
    with rest same obtain n where "may_read (db w) actor s (clock E n)"
      by (auto simp: may_read_def)
    then show thesis by (rule that)
  qed
qed

lemma GetSeries_row:
  "GetSeries k E w = (Inr s, w') \<Longrightarrow> s \<in> set (series_rows (db w)) \<and> s_id s = k \<and> db w' = db w"
  unfolding GetSeries_def by (auto elim!: go_elims dest: first_row_Some)

lemma artifact_assignments_granted:
  assumes "artifact_assignments (Some u) as E w = (Inr True, w')"
  shows "\<exists>a\<in>set as. \<exists>n. reads_assignment (db w) u (clock E n) a"
  using assms
proof (induction as arbitrary: w)
  case Nil
  then show ?case by (auto elim!: go_elims)
next
  case (Cons a as)
  from Cons.prems obtain s r w1 w2 where s: "GetSeries (sp_series_id a) E w = (Inr s, w1)"
    and r: "CanReadSeries (Some u) s E w1 = (r, w2)"
    and rest: "case r of Inr _ \<Rightarrow> True
      | Inl e \<Rightarrow> artifact_assignments (Some u) as E w2 = (Inr True, w')"
    by (auto elim!: andThen_InrE attempt_InrE fail_InrE split: sum.splits if_splits)
  have d1: "s \<in> set (series_rows (db w))" "s_id s = sp_series_id a" "db w1 = db w"
    using GetSeries_row [OF s] by auto
  have d2: "db w2 = db w" using db_sameD [OF service_reads(4) r] d1 by simp
  show ?case
  proof (cases r)
    case (Inr v)
    with r obtain n where "may_read (db w) (Some u) s (clock E n)"
      by (auto elim!: CanReadSeries_InrE simp: d1(3))
    with d1 show ?thesis by (auto simp: reads_assignment_def)
  next
    case (Inl e)
    with rest Cons.IH [of w2] d2 show ?thesis by auto
  qed
qed

lemma ManageProblem_owns:
  assumes "ManageProblem (Some u) k E w = (Inr p, w')"
  shows "admin (Some u) \<or> owns (db w) u k"
  using assms by (auto elim!: ManageProblem_InrE simp: owns_def)

lemma artifact_assignments_reads [read_intros]: "keeps db_same (artifact_assignments actor as)"
  by (induction as) (auto simp: GetSeries_def intro!: reads.keeps_rules service_reads)

lemma artifact_allowed_InrE:
  assumes "artifact_allowed k r E w = (Inr ok, w')"
  obtains "ok = shown (db w) k r" and "db w' = db w"
proof -
  have "ok = shown (db w) k r \<and> db w' = db w"
    using assms unfolding artifact_allowed_def shown_def
    by (auto elim!: go_elims simp: filter_empty_conv split: if_splits)
  then show thesis by (auto intro: that)
qed

text \<open>
  One revision: either it opens the file, or the answer comes from the revisions after it.
\<close>

lemma published_revision_granted:
  assumes "andThen (artifact_allowed k r) (\<lambda>allowed.
             if \<not> allowed then rest
             else
               andThen (find_all series_problems (\<lambda>a. sp_published_revision_id a = r_id r)) (\<lambda>assignments.
               andThen (artifact_assignments (Some u) assignments) (\<lambda>granted.
               if granted then ret True else rest))) E w = (Inr True, w')"
    and "r_state r = RevisionPublished"
  shows "(\<exists>n. opens (db w) u k (clock E n) r) \<or> (\<exists>v. db v = db w \<and> rest E v = (Inr True, w'))"
  using assms(1)
proof (rule andThen_InrE)
  fix ok w2
  let ?as = "filter (\<lambda>a. sp_published_revision_id a = r_id r) (series_problems (db w))"
  assume allowed: "artifact_allowed k r E w = (Inr ok, w2)"
    and cont: "(if \<not> ok then rest
             else
               andThen (find_all series_problems (\<lambda>a. sp_published_revision_id a = r_id r)) (\<lambda>assignments.
               andThen (artifact_assignments (Some u) assignments) (\<lambda>granted.
               if granted then ret True else rest))) E w2 = (Inr True, w')"
  have d2: "ok = shown (db w) k r" "db w2 = db w"
    using allowed by (auto elim: artifact_allowed_InrE)
  show ?thesis
  proof (cases ok)
    case True
    with cont obtain g w3 w4 where g: "artifact_assignments (Some u) ?as E w3 = (Inr g, w4)"
      and d3: "db w3 = db w" and more: "(if g then ret True else rest) E w4 = (Inr True, w')"
      using d2 by (auto elim!: andThen_InrE find_all_InrE)
    have "db w4 = db w" using db_sameD [OF artifact_assignments_reads g] d3 by simp
    moreover have "\<exists>a\<in>set ?as. \<exists>n. reads_assignment (db w) u (clock E n) a" if g
      using artifact_assignments_granted [of u ?as E w3 w4] g that unfolding d3 by simp
    ultimately show ?thesis
      using more True d2(1) assms(2) by (cases g) (auto simp: opens_def)
  next
    case False
    with cont d2(2) show ?thesis by auto
  qed
qed

lemma artifact_revisions_step:
  assumes "artifact_revisions (Some u) k (r # rs) E w = (Inr True, w')" and "\<not> admin (Some u)"
  shows "(\<exists>n. opens (db w) u k (clock E n) r) \<or>
         (\<exists>v. db v = db w \<and> artifact_revisions (Some u) k rs E v = (Inr True, w'))"
  using assms(1) [unfolded artifact_revisions.simps]
proof (elim andThen_InrE attempt_InrE)
  fix m w1
  assume m: "ManageProblem (Some u) (r_problem_id r) E w = (m, w1)"
  have d1: "db w1 = db w" using db_sameD [OF service_reads(3) m] by simp
  assume "(case m of
      Inr _ \<Rightarrow> ret True
    | Inl e \<Rightarrow>
        if \<not> errors_is e ErrForbidden then fail e
        else if r_state r \<noteq> RevisionPublished then artifact_revisions (Some u) k rs
        else
          andThen (artifact_allowed k r) (\<lambda>allowed.
          if \<not> allowed then artifact_revisions (Some u) k rs
          else
            andThen (find_all series_problems (\<lambda>a. sp_published_revision_id a = r_id r)) (\<lambda>assignments.
            andThen (artifact_assignments (Some u) assignments) (\<lambda>granted.
            if granted then ret True else artifact_revisions (Some u) k rs)))) E w1 = (Inr True, w')"
  then show ?thesis
  proof (cases m)
    case (Inr p)
    with m assms(2) have "owns (db w) u (r_problem_id r)" by (auto dest: ManageProblem_owns)
    then show ?thesis by (auto simp: opens_def)
  qed (use published_revision_granted [of k r "artifact_revisions (Some u) k rs" u E w1 w'] d1
        in \<open>auto elim!: fail_InrE split: if_splits\<close>)
qed

lemma artifact_revisions_granted:
  assumes "artifact_revisions (Some u) k rs E w = (Inr True, w')" and "\<not> admin (Some u)"
  shows "\<exists>r\<in>set rs. \<exists>n. opens (db w) u k (clock E n) r"
  using assms(1)
proof (induction rs arbitrary: w)
  case Nil
  then show ?case by (auto elim!: go_elims)
next
  case (Cons r rs)
  from artifact_revisions_step [OF Cons.prems assms(2)] show ?case
    using Cons.IH by (metis list.set_intros)
qed

text \<open>What a successful access to a file shows, for every schedule of failures.\<close>

lemma Artifact_granted:
  assumes "Artifact actor k E w = (Inr item, w')"
  shows "item \<in> set (artifacts (db w)) \<and> a_id item = k \<and> actor \<noteq> None \<and>
         (\<exists>n. may_open (db w) actor k (clock E n))"
proof -
  let ?w1 = "w\<lparr>ticks := Suc (Suc (ticks w))\<rparr>"
  from assms obtain u where u: "actor = Some u"
    and item: "item \<in> set (artifacts (db w))" "a_id item = k"
    and rest: "\<not> admin actor \<Longrightarrow>
      artifact_revisions actor k (filter (refers_to (db w) k) (revisions (db w))) E ?w1 = (Inr True, w')"
    unfolding Artifact_def requireUser_def
    by (auto elim!: andThen_InrE first_InrE query_InrE ret_InrE fail_InrE of_sum_InrE
        dest!: first_row_Some split: option.splits if_splits)
  show ?thesis
  proof (cases "admin actor")
    case False
    with rest u have "artifact_revisions (Some u) k (filter (refers_to (db w) k) (revisions (db w))) E ?w1 =
      (Inr True, w')" by simp
    then obtain r n where "r \<in> set (filter (refers_to (db w) k) (revisions (db w)))"
      "opens (db w) u k (clock E n) r"
      using artifact_revisions_granted False u by fastforce
    with item u show ?thesis by (auto simp: may_open_def)
  qed (use item u in \<open>auto simp: may_open_def\<close>)
qed

section \<open>The exact answer\<close>

text \<open>References the policy follows are there: an assignment's series and a series's contest.\<close>

lemma series_contest_there:
  assumes "db_ok d" and "s \<in> set (series_rows d)"
  shows "contest_of d (s_contest_id s) \<noteq> None"
  using assms by (auto simp: contest_of_def first_row_None db_ok_def refs_ok_def series_refs_def has_def)

lemma series_by_id:
  assumes "db_ok d" and "s \<in> set (series_rows d)" and "s_id s = k"
  shows "first_row key (\<lambda>s. s_id s = k) (series_rows d) = Some s"
  using assms by (rule key_lookup)

lemma assignment_series_there:
  assumes "db_ok d" and "a \<in> set (series_problems d)"
  obtains s where "s \<in> set (series_rows d)" and "s_id s = sp_series_id a"
  using assms by (auto simp: db_ok_def refs_ok_def series_problem_refs_def has_def)

lemma reads_assignment_iff:
  assumes "db_ok d" and "s \<in> set (series_rows d)" and "s_id s = sp_series_id a"
  shows "reads_assignment d u at a \<longleftrightarrow> may_read d (Some u) s at"
proof -
  have "q = s" if "q \<in> set (series_rows d)" "s_id q = sp_series_id a" for q
    by (rule key_unique [OF assms(1)]) (simp_all add: that assms)
  then show ?thesis using assms unfolding reads_assignment_def by blast
qed

lemma answers_assignments:
  assumes ok: "db_ok (db w)" and at: "steady E at" and "set as \<subseteq> set (series_problems (db w))"
  shows "answers E w (artifact_assignments (Some u) as)
           (Inr (\<exists>a\<in>set as. reads_assignment (db w) u at a))"
  using assms
proof (induction as arbitrary: w)
  case Nil
  then show ?case by (simp add: answers_ret)
next
  case (Cons a as)
  have calm: "calm E" using at by (rule steady_calm)
  obtain s where s: "s \<in> set (series_rows (db w))" "s_id s = sp_series_id a"
    using Cons.prems by (auto elim: assignment_series_there)
  obtain n where r: "CanReadSeries (Some u) s E (w\<lparr>ticks := Suc (ticks w)\<rparr>) =
      (read_answer (db w) (Some u) s at, w\<lparr>ticks := n\<rparr>)"
    using answers_CanReadSeries [OF at, of "w\<lparr>ticks := Suc (ticks w)\<rparr>" "Some u" s]
    by (auto elim: answersE)
  have ra: "reads_assignment (db w) u at a \<longleftrightarrow> may_read (db w) (Some u) s at"
    using Cons.prems s by (simp add: reads_assignment_iff)
  obtain m where rest: "artifact_assignments (Some u) as E (w\<lparr>ticks := n\<rparr>) =
      (Inr (\<exists>a\<in>set as. reads_assignment (db w) u at a), w\<lparr>ticks := m\<rparr>)"
    using Cons.IH [of "w\<lparr>ticks := n\<rparr>"] Cons.prems by (auto elim: answersE)
  show ?case
    using calm Cons.prems s series_contest_there [of "db w" s]
    by (auto simp: answers_def andThen_run attempt_def GetSeries_def go_simps r rest ra
        series_by_id read_answer_def)
qed

lemma owner_by_id:
  assumes "db_ok d" and "r \<in> set (revisions d)"
  obtains p where "first_row p_id (\<lambda>p. p_id p = r_problem_id r) (problems d) = Some p"
    and "owns d u (r_problem_id r) \<longleftrightarrow> p_owner_id p = u_id u"
proof -
  obtain p where p: "p \<in> set (problems d)" "p_id p = r_problem_id r"
    using assms by (auto simp: db_ok_def refs_ok_def revision_refs_def has_def)
  have "q = p" if "q \<in> set (problems d)" "p_id q = r_problem_id r" for q
    by (rule key_unique [OF assms(1)]) (simp_all add: that p)
  then have "owns d u (r_problem_id r) \<longleftrightarrow> p_owner_id p = u_id u"
    using p unfolding owns_def by blast
  moreover have "first_row p_id (\<lambda>p. p_id p = r_problem_id r) (problems d) = Some p"
    using p by (intro key_lookup [OF assms(1)])
  ultimately show thesis by (intro that)
qed

lemma artifact_allowed_run:
  "calm E \<Longrightarrow> \<exists>n. artifact_allowed k r E w = (Inr (shown (db w) k r), w\<lparr>ticks := n\<rparr>)"
  by (auto simp: artifact_allowed_def shown_def andThen_run go_simps filter_empty_conv)

lemma answers_revisions:
  assumes ok: "db_ok (db w)" and at: "steady E at" and "set rs \<subseteq> set (revisions (db w))"
    and "\<not> admin (Some u)"
  shows "answers E w (artifact_revisions (Some u) k rs)
           (Inr (\<exists>r\<in>set rs. opens (db w) u k at r))"
  using assms
proof (induction rs arbitrary: w)
  case Nil
  then show ?case by (simp add: answers_ret)
next
  case (Cons r rs)
  have calm: "calm E" using at by (rule steady_calm)
  obtain p where p: "first_row p_id (\<lambda>p. p_id p = r_problem_id r) (problems (db w)) = Some p"
    and own: "owns (db w) u (r_problem_id r) \<longleftrightarrow> p_owner_id p = u_id u"
    using Cons.prems by (auto elim: owner_by_id)
  let ?rest = "artifact_revisions (Some u) k rs"
  have IH: "\<exists>m. ?rest E (w\<lparr>ticks := n\<rparr>) = (Inr (\<exists>r\<in>set rs. opens (db w) u k at r), w\<lparr>ticks := m\<rparr>)" for n
    using Cons.IH [of "w\<lparr>ticks := n\<rparr>"] Cons.prems by (auto elim!: answersE)
  obtain n1 where n1: "artifact_allowed k r E (w\<lparr>ticks := Suc (ticks w)\<rparr>) =
      (Inr (shown (db w) k r), w\<lparr>ticks := n1\<rparr>)"
    using artifact_allowed_run [OF calm, of k r "w\<lparr>ticks := Suc (ticks w)\<rparr>"] by auto
  let ?as = "filter (\<lambda>a. sp_published_revision_id a = r_id r) (series_problems (db w))"
  obtain n2 where n2: "artifact_assignments (Some u) ?as E (w\<lparr>ticks := Suc n1\<rparr>) =
      (Inr (\<exists>a\<in>set ?as. reads_assignment (db w) u at a), w\<lparr>ticks := n2\<rparr>)"
    using answers_assignments [OF _ at, of "w\<lparr>ticks := Suc n1\<rparr>" ?as u] Cons.prems
    by (auto elim: answersE)
  have r: "opens (db w) u k at r \<longleftrightarrow> p_owner_id p = u_id u \<or>
      r_state r = RevisionPublished \<and> shown (db w) k r \<and> (\<exists>a\<in>set ?as. reads_assignment (db w) u at a)"
    by (auto simp: opens_def own)
  show ?case
    using calm Cons.prems(4) IH
    by (cases "\<exists>a\<in>set ?as. reads_assignment (db w) u at a")
      (auto simp: answers_def andThen_run attempt_def ManageProblem_def GetProblem_def
        requireUser_def go_simps n1 n2 p r)
qed

lemma answers_Artifact:
  assumes "db_ok (db w)" and "steady E at"
  shows "answers E w (Artifact actor k) (open_answer (db w) actor k at)"
proof (cases actor)
  case None
  then show ?thesis
    by (auto simp: answers_def Artifact_def requireUser_def andThen_run go_simps open_answer_def)
next
  case (Some u)
  have calm: "calm E" using assms(2) by (rule steady_calm)
  let ?rs = "filter (refers_to (db w) k) (revisions (db w))"
  show ?thesis
  proof (cases "admin actor")
    case True
    with calm Some show ?thesis
      by (auto simp: answers_def Artifact_def requireUser_def andThen_run go_simps open_answer_def
          may_open_def split: option.split)
  next
    case False
    obtain n where "artifact_revisions (Some u) k ?rs E (w\<lparr>ticks := Suc (Suc (ticks w))\<rparr>) =
        (Inr (\<exists>r\<in>set ?rs. opens (db w) u k at r), w\<lparr>ticks := n\<rparr>)"
      using answers_revisions [OF _ assms(2), of "w\<lparr>ticks := Suc (Suc (ticks w))\<rparr>" ?rs u k] assms(1) False Some
      by (auto elim: answersE)
    with calm Some False show ?thesis
      by (auto simp: answers_def Artifact_def requireUser_def andThen_run go_simps open_answer_def
          may_open_def split: option.split)
  qed
qed

section \<open>Properties\<close>

text \<open>
  C7: In a steady environment CanSubmit answers exactly what the policy says, error by error:
  a submission is accepted just for a participant of the contest, who may read the series,
  when the contest is published and the instant lies in the half-open windows of both the
  contest and the series; and it changes nothing.
\<close>

theorem submission_decision:
  assumes "steady E at"
  shows "fst (CanSubmit actor k E w) = submit_answer (db w) actor k at \<and>
         db (snd (CanSubmit actor k E w)) = db w \<and> dir (snd (CanSubmit actor k E w)) = dir w"
  using answers_CanSubmit [OF assms, of w actor k] by (auto simp: answers_def)

theorem submission_decision_witness:
  "fst (CanSubmit (Some participant) 1 (sample_env 150) sample_world) = Inr () \<and>
   fst (CanSubmit (Some participant) 1 (sample_env 200) sample_world) = Inl ErrForbidden \<and>
   fst (CanSubmit (Some author) 1 (sample_env 150) sample_world) = Inl ErrForbidden"
proof -
  have "submit_answer sample_db (Some participant) 1 150 = Inr () \<and>
        submit_answer sample_db (Some participant) 1 200 = Inl ErrForbidden \<and>
        submit_answer sample_db (Some author) 1 150 = Inl ErrForbidden"
    by code_simp
  then show ?thesis by (simp add: submission_decision [OF sample_steady])
qed

text \<open>
  C9: In a steady environment and an intact database Artifact answers exactly what the file
  policy says: the row for an administrator, for the owner of a problem one of whose
  revisions refers to the file, and for a user who may now read a series to which a
  published revision showing the file (as its PDF or in a sample test) is assigned;
  everyone else is refused.
\<close>

theorem artifact_decision:
  assumes "db_ok (db w)" and "steady E at"
  shows "fst (Artifact actor k E w) = open_answer (db w) actor k at"
  using answers_Artifact [OF assms] by (rule answers_fst)

theorem artifact_decision_witness:
  "fst (Artifact (Some participant) 1 (sample_env 150) sample_world) = Inr (sample_artifact 1 CHR ''1'') \<and>
   fst (Artifact (Some participant) 3 (sample_env 150) sample_world) = Inl ErrForbidden \<and>
   fst (Artifact (Some participant) 1 (sample_env 110) sample_world) = Inl ErrForbidden \<and>
   fst (Artifact (Some author) 3 (sample_env 110) sample_world) = Inr (sample_artifact 3 CHR ''3'')"
proof -
  have "open_answer sample_db (Some participant) 1 150 = Inr (sample_artifact 1 CHR ''1'') \<and>
        open_answer sample_db (Some participant) 3 150 = Inl ErrForbidden \<and>
        open_answer sample_db (Some participant) 1 110 = Inl ErrForbidden \<and>
        open_answer sample_db (Some author) 3 110 = Inr (sample_artifact 3 CHR ''3'')"
    by code_simp
  then show ?thesis by (simp add: artifact_decision [OF _ sample_steady])
qed

text \<open>
  C2: The files of hidden tests and of drafts never leave the authors: whatever calls fail
  and whatever the clock says, a user who is not an administrator and owns no problem with
  a revision referring to the file gets an error unless a published revision shows it.
\<close>

theorem hidden_files_never_served:
  assumes "\<not> admin (Some u)"
    and "\<And>r. r \<in> set (revisions (db w)) \<Longrightarrow> refers_to (db w) k r \<Longrightarrow>
           \<not> owns (db w) u (r_problem_id r) \<and> (r_state r = RevisionPublished \<longrightarrow> \<not> shown (db w) k r)"
  shows "isl (fst (Artifact (Some u) k E w))"
proof (rule ccontr)
  assume "\<not> isl (fst (Artifact (Some u) k E w))"
  then obtain item w' where "Artifact (Some u) k E w = (Inr item, w')"
    by (cases "fst (Artifact (Some u) k E w)"; cases "Artifact (Some u) k E w") auto
  from Artifact_granted [OF this] assms show False
    by (auto simp: may_open_def opens_def)
qed

theorem hidden_files_never_served_witness:
  "isl (fst (Artifact (Some participant) 3 (sample_env 150) sample_world))"
proof -
  have "\<not> admin (Some participant)" by code_simp
  moreover have "list_all (\<lambda>r. refers_to sample_db 3 r \<longrightarrow>
      \<not> owns sample_db participant (r_problem_id r) \<and>
      (r_state r = RevisionPublished \<longrightarrow> \<not> shown sample_db 3 r)) (revisions sample_db)" by code_simp
  ultimately show ?thesis
    by (intro hidden_files_never_served) (auto simp: list_all_iff)
qed

text \<open>
  C10: Every file the service hands out is justified: for every schedule of failures and every
  behaviour of the clock, a successful access returns the row asked for, to a known actor
  whom the policy allows the file at an instant the clock gave.
\<close>

theorem artifact_access_justified:
  assumes "Artifact actor k E w = (Inr item, w')"
  shows "item \<in> set (artifacts (db w)) \<and> a_id item = k \<and> actor \<noteq> None \<and>
         (\<exists>n. may_open (db w) actor k (clock E n))"
  using assms by (rule Artifact_granted)

theorem artifact_access_justified_witness:
  "\<exists>w'. Artifact (Some root_user) 3 (sample_env 150) sample_world = (Inr (sample_artifact 3 CHR ''3''), w') \<and>
        may_open sample_db (Some root_user) 3 150"
proof -
  have "open_answer sample_db (Some root_user) 3 150 = Inr (sample_artifact 3 CHR ''3'')"
    by code_simp
  then obtain n where run: "Artifact (Some root_user) 3 (sample_env 150) sample_world =
      (Inr (sample_artifact 3 CHR ''3''), sample_world\<lparr>ticks := n\<rparr>)"
    using answers_Artifact [of sample_world "sample_env 150" 150 "Some root_user" 3]
    by (auto elim: answersE)
  show ?thesis
    using artifact_access_justified [OF run] run by (auto simp: sample_env_def)
qed

end
