(* ===== verification/System.thy ===== *)
theory System
  imports Evolution Access
begin

text \<open>
  The program as a transition system: a request names an operation and its arguments,
  perform runs it, and reaches follows any sequence of requests, each in an environment of
  its own, so with its own failures and clock. What every operation keeps is kept along
  every run.
\<close>

datatype request =
    DoCreateContest contest
  | DoUpdateContest contest
  | DoDeleteContest id
  | DoCreateSeries series
  | DoUpdateSeries series
  | DoDeleteSeries id
  | DoCreateUser string string string
  | DoCreateAdmin string string string
  | DoCreateSession id
  | DoDeleteSession id
  | DoCreateProblem problem revision
  | DoUpdateDraft revision
  | DoPublish id time
  | DoCreateDraft id
  | DoCreateTestCase test_case
  | DoSetMember "user option" id id string
  | DoRemoveMember "user option" id id
  | DoSaveSeries "user option" series
  | DoAssign "user option" series_problem
  | DoReorderSeries "user option" id "id list"
  | DoReorderProblems "user option" id "id list"
  | DoSaveTest "user option" id id test_input
  | DoDeleteTest "user option" id id
  | DoUploadPDF "user option" id reader
  | DoPreviewZIP "user option" id reader
  | DoCommitZIP "user option" id id
  | DoCollect "user option"
  | DoCanSubmit "user option" id
  | DoStatement "user option" id
  | DoArtifact "user option" id

definition forget :: "('d, 'a) go \<Rightarrow> ('d, unit) go" where
  "forget m = andThen m (\<lambda>_. ret ())"

fun perform :: "service \<Rightarrow> crypto \<Rightarrow> request \<Rightarrow> (database, unit) go" where
  "perform s K (DoCreateContest c) = forget (CreateContest c)"
| "perform s K (DoUpdateContest c) = forget (UpdateContest c)"
| "perform s K (DoDeleteContest k) = DeleteContest k"
| "perform s K (DoCreateSeries e) = forget (CreateSeries e)"
| "perform s K (DoUpdateSeries e) = forget (UpdateSeries e)"
| "perform s K (DoDeleteSeries k) = DeleteSeries k"
| "perform s K (DoCreateUser email password name) = forget (CreateUser K email password name)"
| "perform s K (DoCreateAdmin email password name) = forget (CreateAdmin K email password name)"
| "perform s K (DoCreateSession k) = forget (CreateSession K k)"
| "perform s K (DoDeleteSession k) = DeleteSession k"
| "perform s K (DoCreateProblem p r) = forget (CreateProblem p r)"
| "perform s K (DoUpdateDraft r) = forget (UpdateDraftRevision r)"
| "perform s K (DoPublish k at) = PublishRevision k at"
| "perform s K (DoCreateDraft k) = forget (CreateDraftRevision k)"
| "perform s K (DoCreateTestCase t) = forget (CreateTestCase t)"
| "perform s K (DoSetMember actor k j role) = SetMember actor k j role"
| "perform s K (DoRemoveMember actor k j) = RemoveMember actor k j"
| "perform s K (DoSaveSeries actor e) = forget (SaveSeries actor e)"
| "perform s K (DoAssign actor a) = forget (Assign actor a)"
| "perform s K (DoReorderSeries actor k ids) = ReorderSeries actor k ids"
| "perform s K (DoReorderProblems actor k ids) = ReorderProblems actor k ids"
| "perform s K (DoSaveTest actor k j i) = forget (SaveTest s actor k j i)"
| "perform s K (DoDeleteTest actor k j) = DeleteTest actor k j"
| "perform s K (DoUploadPDF actor k source) = forget (UploadPDF s actor k source)"
| "perform s K (DoPreviewZIP actor k source) = forget (PreviewZIP s actor k source)"
| "perform s K (DoCommitZIP actor k j) = CommitZIP s actor k j"
| "perform s K (DoCollect actor) = forget (Collect actor)"
| "perform s K (DoCanSubmit actor k) = CanSubmit actor k"
| "perform s K (DoStatement actor k) = forget (Statement actor k)"
| "perform s K (DoArtifact actor k) = forget (Artifact actor k)"

inductive reaches :: "service \<Rightarrow> crypto \<Rightarrow> database world \<Rightarrow> database world \<Rightarrow> bool"
  for s :: service and K :: crypto where
  stay: "reaches s K w w"
| step: "reaches s K w w1 \<Longrightarrow> perform s K q E w1 = (r, w2) \<Longrightarrow> reaches s K w w2"

section \<open>What holds along every run\<close>

lemma reading_requests:
  "keeps db_same (CanSubmit actor k)" "keeps db_same (Statement actor k)"
  "keeps db_same (Artifact actor k)"
proof -
  show "keeps db_same (CanSubmit actor k)" "keeps db_same (Statement actor k)"
    unfolding CanSubmit_def Statement_def by (intro read_intros)+
  have "keeps db_same (artifact_revisions actor k rs)" for rs
    by (induction rs)
      (auto simp: artifact_allowed_def intro!: reads.keeps_rules content_reads artifact_assignments_reads)
  then show "keeps db_same (Artifact actor k)"
    unfolding Artifact_def by (intro read_intros)
qed

lemma perform_evolves: "keeps (evolving always) (perform s K q)"
  by (cases q)
    (auto simp: forget_def SetMember_def RemoveMember_def
      intro!: evolving_intros intro: evolving_reads reading_requests)

lemma reaches_evolves: "reaches s K w w' \<Longrightarrow> db_ok (db w) \<Longrightarrow> evolves (db w) (db w')"
proof (induction rule: reaches.induct)
  case (step w w1 q E r w2)
  have "evolving always w1 w2" using perform_evolves step.hyps(2) by (rule evolving.keepsD)
  with step show ?case
    by (auto simp: evolving_def always_def intro: evolves_trans dest: evolves_ok)
qed (rule evolves_refl)

section \<open>Properties\<close>

text \<open>
  C1: A published revision is immutable: along every run, whatever requests are made and
  whatever fails, its row, the list of its tests and the rows of all its files stay exactly
  as they were.
\<close>

theorem published_revision_immutable:
  assumes "reaches s K w w'" and "db_ok (db w)"
    and "r \<in> set (revisions (db w))" and "r_state r = RevisionPublished"
  shows "r \<in> set (revisions (db w')) \<and>
         revision_tests (db w') (r_id r) = revision_tests (db w) (r_id r) \<and>
         (\<forall>a\<in>set (artifacts (db w)). refers_to (db w) (a_id a) r \<longrightarrow> a \<in> set (artifacts (db w')))"
  using reaches_evolves [OF assms(1,2)] assms(3,4)
  by (simp_all add: evolves_def published_def keeps_revision_def)

theorem published_revision_immutable_witness:
  "revision_tests (db (snd (perform sample_service sample_crypto (DoCreateDraft 1) (sample_env 150) sample_world))) 1 =
     [sample_test 1 1 0 True 1 2, sample_test 2 1 1 False 3 4]"
proof -
  let ?w = "snd (perform sample_service sample_crypto (DoCreateDraft 1) (sample_env 150) sample_world)"
  have run: "reaches sample_service sample_crypto sample_world ?w"
    by (rule reaches.step [OF reaches.stay, where q = "DoCreateDraft 1"]) (rule prod.collapse [symmetric])
  have r: "sample_revision 1 1 RevisionPublished \<in> set (revisions sample_db)"
    by (simp add: sample_db_def)
  have "revision_tests (db ?w) (r_id (sample_revision 1 1 RevisionPublished)) =
      revision_tests sample_db (r_id (sample_revision 1 1 RevisionPublished))"
    using published_revision_immutable [OF run, of "sample_revision 1 1 RevisionPublished"] r
    by (simp add: sample_revision_def)
  moreover have "revision_tests sample_db 1 = [sample_test 1 1 0 True 1 2, sample_test 2 1 1 False 3 4]"
    by code_simp
  ultimately show ?thesis by (simp add: sample_revision_def)
qed

text \<open>
  Assignments stay pinned: when every assignment of a problem points to a published
  revision of that same problem, so it does after any run.
\<close>

theorem assignments_stay_pinned:
  assumes "reaches s K w w'" and "db_ok (db w)"
    and "\<forall>a\<in>set (series_problems (db w)). pinned (db w) a"
  shows "\<forall>a\<in>set (series_problems (db w')). pinned (db w') a"
proof
  fix a
  assume "a \<in> set (series_problems (db w'))"
  with reaches_evolves [OF assms(1,2)] consider "pinned (db w') a"
    | b where "b \<in> set (series_problems (db w))" "same_pin a b"
    by (auto simp: evolves_def)
  then show "pinned (db w') a"
  proof cases
    case 2
    with assms(3) have "pinned (db w) b" by blast
    then have "pinned (db w') b"
      by (rule pinned_kept) (use reaches_evolves [OF assms(1,2)] in \<open>simp add: evolves_def\<close>)
    with 2 show ?thesis by (rule_tac pinned_same)
  qed
qed

theorem assignments_stay_pinned_witness:
  "list_all (pinned (db (snd (perform sample_service sample_crypto
       (DoAssign (Some root_user) (sample_assignment 0 ''C'' 2)) (sample_env 150) sample_world))))
     (series_problems (db (snd (perform sample_service sample_crypto
       (DoAssign (Some root_user) (sample_assignment 0 ''C'' 2)) (sample_env 150) sample_world))))"
proof -
  let ?w = "snd (perform sample_service sample_crypto
      (DoAssign (Some root_user) (sample_assignment 0 ''C'' 2)) (sample_env 150) sample_world)"
  have run: "reaches sample_service sample_crypto sample_world ?w"
    by (rule reaches.step [OF reaches.stay]) (rule prod.collapse [symmetric])
  have "\<forall>a\<in>set (series_problems sample_db). pinned sample_db a" by code_simp
  then have "\<forall>a\<in>set (series_problems (db ?w)). pinned (db ?w) a"
    using assignments_stay_pinned [OF run] by simp
  then show ?thesis by (simp add: list_all_iff del: perform.simps)
qed



end
