(* ===== verification/Drafts.thy ===== *)
theory Drafts
  imports Evolution Samples
begin

text \<open>
  The life of a problem revision: the draft lock, editing, publication and the cloning of
  the latest revision into a new draft (internal/db/problems.go), with what each operation
  leaves in the database.
\<close>

section \<open>Facts on single rows\<close>

lemma update_revision_InrE:
  assumes "update_revisions (\<lambda>r. r_id r = k) upd d = Inr (n, d')"
  shows "d' = d\<lparr>revisions := modify (\<lambda>r. r_id r = k) upd (revisions d)\<rparr>"
  using assms by (auto simp: update_revisions_def elim!: with_rows_InrE update_rows_InrE)

text \<open>The row with a key, in an intact database.\<close>

lemma draft_row:
  assumes "db_ok d" and "is_draft k d" and "r \<in> set (revisions d)" and "r_id r = k"
  shows "r_state r = RevisionDraft"
proof -
  from assms(2) obtain q where q: "q \<in> set (revisions d)" "r_id q = k" "r_state q = RevisionDraft"
    by (auto simp: is_draft_def)
  have "r = q" by (rule key_unique [OF assms(1)]) (simp_all add: assms q)
  with q show ?thesis by simp
qed

lemma modified_row:
  "r \<in> set (modify (\<lambda>r. r_id r = k) upd rows) \<Longrightarrow> (\<And>q. r_id (upd q) = r_id q) \<Longrightarrow> r_id r = k \<Longrightarrow>
     \<exists>q\<in>set rows. r_id q = k \<and> r = upd q"
  by (auto simp: in_set_modify split: if_splits)

section \<open>Editing\<close>

lemma UpdateDraftRevision_InrE:
  assumes "UpdateDraftRevision v E w = (Inr x, w')"
  obtains t where "r_state v = RevisionDraft" and "validateRevision v = Inr x" and "is_draft (r_id v) (db w)"
    and "db w' = (db w)\<lparr>revisions := modify (\<lambda>r. r_id r = r_id v) (set_draft_fields x t) (revisions (db w))\<rparr>"
proof -
  from assms obtain y w1 u w2 n w3 where v: "r_state v = RevisionDraft" "validateRevision v = Inr y"
    and l: "LockDraft (r_id y) E (w\<lparr>ticks := Suc (ticks w)\<rparr>) = (Inr u, w2)"
    and e: "exec (\<lambda>t i. update_revisions (\<lambda>r. r_id r = r_id y) (set_draft_fields y t)) E w2 = (Inr n, w3)"
    and x: "x = y" and w': "db w' = db w3"
    unfolding UpdateDraftRevision_def
    by (auto elim!: andThen_InrE reject_InrE of_sum_InrE transaction_InrE ret_InrE) blast
  have id: "r_id y = r_id v" using v(2) by (auto dest: validateRevision_id)
  note lock = LockDraft_draft [OF l]
  from e obtain d where "update_revisions (\<lambda>r. r_id r = r_id y) (set_draft_fields y (clock E (ticks w2))) (db w2) = Inr (n, d)"
    and d: "db w3 = d" by (auto elim!: exec_InrE)
  from update_revision_InrE [OF this(1)] lock show thesis
    using v id x w' d by (intro that [of "clock E (ticks w2)"]) auto
qed

lemma PublishRevision_InrE:
  assumes "PublishRevision k at E w = (Inr u, w')"
  obtains t q v where "is_draft k (db w)" and "q \<in> set (revisions (db w))" and "r_id q = k"
    and "validateRevision q = Inr v" and "r_statement v \<noteq> [] \<or> r_pdf_artifact_id v \<noteq> None"
    and "db w' = (db w)\<lparr>revisions := modify (\<lambda>r. r_id r = k)
           (\<lambda>r. r\<lparr>r_state := RevisionPublished, r_published_at := Some at, r_updated_at := t\<rparr>) (revisions (db w))\<rparr>"
proof -
  from assms obtain u2 w2 q w3 v n w4 where
    l: "LockDraft k E (w\<lparr>ticks := Suc (ticks w)\<rparr>) = (Inr u2, w2)"
    and g: "GetProblemRevision k E w2 = (Inr q, w3)" and v: "validateRevision q = Inr v"
    and ok: "\<not> (r_statement v = [] \<and> r_pdf_artifact_id v = None)"
    and e: "exec (\<lambda>t i. update_revisions (\<lambda>r. r_id r = k)
      (\<lambda>r. r\<lparr>r_state := RevisionPublished, r_published_at := Some at, r_updated_at := t\<rparr>)) E w3 = (Inr n, w4)"
    and w': "w' = w4\<lparr>ticks := Suc (ticks w4)\<rparr>"
    unfolding PublishRevision_def
    by (elim andThen_InrE reject_InrE of_sum_InrE transaction_InrE ret_InrE, hypsubst, blast)
  note lock = LockDraft_draft [OF l]
  have d3: "db w3 = db w" using db_sameD [OF problems_go_reads(3) g] lock(2) by simp
  have q: "q \<in> set (revisions (db w))" "r_id q = k"
    using g lock(2) unfolding GetProblemRevision_def
    by (auto elim!: andThen_InrE ret_InrE first_InrE query_InrE dest!: first_row_Some split: option.splits)
  from e d3 obtain t d where "update_revisions (\<lambda>r. r_id r = k)
      (\<lambda>r. r\<lparr>r_state := RevisionPublished, r_published_at := Some at, r_updated_at := t\<rparr>) (db w) = Inr (n, d)"
    and "db w4 = d" by (auto elim!: exec_InrE)
  from update_revision_InrE [OF this(1)] this(2) lock q v ok w' show thesis by (intro that [of q v t]) auto
qed

section \<open>Cloning\<close>

text \<open>What a clone of a test keeps: everything but its key, its revision and its time stamps.\<close>

definition test_content :: "test_case \<Rightarrow> test_case" where
  "test_content t =
     t\<lparr>t_id := 0, t_problem_revision_id := 0, t_created_at := 0, t_updated_at := 0\<rparr>"

lemma insert_clone:
  assumes "exec (insert_test (clone_test k t)) E w = (Inr a, w')"
  shows "db w' = (db w)\<lparr>test_cases := test_cases (db w) @ [a]\<rparr> \<and> t_problem_revision_id a = k \<and>
         test_content a = test_content t"
  using assms
  by (auto simp: insert_test_def clone_test_def test_content_def elim!: exec_InrE with_rows_InrE insert_row_InrE)

lemma clone_loop:
  assumes "for_each tests (\<lambda>t. andThen (exec (insert_test (clone_test k t))) (\<lambda>_. ret ())) E w = (Inr u, w')"
  obtains copies where "db w' = (db w)\<lparr>test_cases := test_cases (db w) @ copies\<rparr>"
    and "map test_content copies = map test_content tests"
    and "\<And>t. t \<in> set copies \<Longrightarrow> t_problem_revision_id t = k"
  using assms
proof (induction tests arbitrary: w thesis)
  case Nil
  then show ?case by (auto elim!: ret_InrE simp: go_simps)
next
  case (Cons t ts)
  from Cons.prems(2) obtain a w1 where a: "exec (insert_test (clone_test k t)) E w = (Inr a, w1)"
    and rest: "for_each ts (\<lambda>t. andThen (exec (insert_test (clone_test k t))) (\<lambda>_. ret ())) E w1 = (Inr u, w')"
    by (auto elim!: andThen_InrE ret_InrE)
  note a' = insert_clone [OF a]
  obtain copies where "db w' = (db w1)\<lparr>test_cases := test_cases (db w1) @ copies\<rparr>"
    "map test_content copies = map test_content ts" "\<And>t. t \<in> set copies \<Longrightarrow> t_problem_revision_id t = k"
    using Cons.IH [OF _ rest] by blast
  with a' show ?case by (intro Cons.prems(1) [of "a # copies"]) auto
qed

text \<open>The fields a new draft copies from the latest revision.\<close>

definition same_content :: "revision \<Rightarrow> revision \<Rightarrow> bool" where
  "same_content r q \<longleftrightarrow>
     r_statement r = r_statement q \<and> r_pdf_artifact_id r = r_pdf_artifact_id q \<and>
     r_time_limit_millis r = r_time_limit_millis q \<and> r_memory_limit_kib r = r_memory_limit_kib q \<and>
     r_language_metadata r = r_language_metadata q \<and> r_checker_metadata r = r_checker_metadata q"

lemma lock_row_same:
  assumes "exec (\<lambda>t i. update_problems (\<lambda>p. p_id p = k) (\<lambda>p. p\<lparr>p_id := k\<rparr>)) E w = (Inr n, w')"
  shows "db w' = db w"
  using assms by (auto simp: update_problems_def modify_id elim!: exec_InrE with_rows_InrE update_rows_InrE)

lemma lock_revision_same:
  assumes "exec (\<lambda>t i. update_revisions (\<lambda>p. r_id p = k) (\<lambda>p. p\<lparr>r_id := k\<rparr>)) E w = (Inr n, w')"
  shows "db w' = db w"
  using assms by (auto dest!: update_revisions_same elim!: exec_InrE)

lemma CreateDraftRevision_InrE:
  assumes "CreateDraftRevision k E w = (Inr r, w')" and "db_ok (db w)"
  obtains latest copies where "latest \<in> set (revisions (db w))" and "r_problem_id latest = k"
    and "\<And>q. q \<in> set (revisions (db w)) \<Longrightarrow> r_problem_id q = k \<Longrightarrow> r_number q \<le> r_number latest"
    and "r_problem_id r = k" and "r_number r = wrap64 (r_number latest + 1)"
    and "r_state r = RevisionDraft" and "same_content r latest" and "\<not> has r_id (r_id r) (revisions (db w))"
    and "db w' = (db w)\<lparr>revisions := revisions (db w) @ [r], test_cases := test_cases (db w) @ copies\<rparr>"
    and "map test_content copies = map test_content (revision_tests (db w) (r_id latest))"
    and "\<And>t. t \<in> set copies \<Longrightarrow> t_problem_revision_id t = r_id r"
proof -
  from assms(1) obtain n w1 found w2 m w3 latest w4 w5 tests w6 u w7 where
    l: "exec (\<lambda>t i. update_problems (\<lambda>p. p_id p = k) (\<lambda>p. p\<lparr>p_id := k\<rparr>)) E (w\<lparr>ticks := Suc (ticks w)\<rparr>) = (Inr n, w1)"
    and f: "first revisions (\<lambda>r. - r_number r) (\<lambda>r. r_problem_id r = k) E w1 = (Inr found, w2)"
    and l2: "exec (\<lambda>t i. update_revisions (\<lambda>r. r_id r = r_id found) (\<lambda>r. r\<lparr>r_id := r_id found\<rparr>)) E w2 = (Inr m, w3)"
    and g: "first revisions r_id (\<lambda>r. r_id r = r_id found) E w3 = (Inr latest, w4)"
    and ins: "exec (insert_revision (next_draft k latest)) E w4 = (Inr r, w5)"
    and ts: "find_all test_cases (\<lambda>t. t_problem_revision_id t = r_id latest) E w5 = (Inr tests, w6)"
    and loop: "for_each tests (\<lambda>t. andThen (exec (insert_test (clone_test (r_id r) t))) (\<lambda>_. ret ())) E w6 = (Inr u, w7)"
    and w': "w' = w7\<lparr>ticks := Suc (ticks w7)\<rparr>"
    unfolding CreateDraftRevision_def
    by (elim andThen_InrE transaction_InrE ret_InrE, hypsubst, blast)
  have d1: "db w1 = db w" using lock_row_same [OF l] by simp
  have d2: "db w2 = db w" using f d1 by (auto elim!: first_InrE)
  have d3: "db w3 = db w" using lock_revision_same [OF l2] d2 by simp
  have d4: "db w4 = db w" using g d3 by (auto elim!: first_InrE)
  have fnd: "first_row (\<lambda>r. - r_number r) (\<lambda>r. r_problem_id r = k) (revisions (db w)) = Some found"
    using f d1 by (auto elim!: first_InrE)
  have found: "found \<in> set (revisions (db w))" "r_problem_id found = k" using first_row_Some [OF fnd] by auto
  have latest: "latest = found"
  proof -
    have "latest \<in> set (revisions (db w)) \<and> r_id latest = r_id found"
      using g d3 by (auto elim!: first_InrE dest!: first_row_Some)
    with found(1) show ?thesis by (intro key_unique [OF assms(2)]) auto
  qed
  from ins d4 have d5: "db w5 = (db w)\<lparr>revisions := revisions (db w) @ [r]\<rparr>"
    and r: "r_problem_id r = k" "r_number r = wrap64 (r_number latest + 1)" "r_state r = RevisionDraft"
      "same_content r latest" "\<not> has r_id (r_id r) (revisions (db w))"
    by (auto simp: insert_revision_def next_draft_def same_content_def has_def
        elim!: exec_InrE with_rows_InrE insert_row_InrE)
  from ts d5 have tests: "tests = revision_tests (db w) (r_id latest)" and d6: "db w6 = db w5"
    by (auto elim!: find_all_InrE simp: revision_tests_def)
  from loop obtain copies where "db w7 = (db w6)\<lparr>test_cases := test_cases (db w6) @ copies\<rparr>"
    "map test_content copies = map test_content tests" "\<And>t. t \<in> set copies \<Longrightarrow> t_problem_revision_id t = r_id r"
    using clone_loop [OF loop] by blast
  with d5 d6 w' tests r found latest show thesis
    using first_row_least [OF fnd] by (intro that [of latest copies]) auto
qed

section \<open>Operations that fail\<close>

definition fails_on :: "(database \<Rightarrow> bool) \<Rightarrow> (database, 'a) go \<Rightarrow> bool" where
  "fails_on P m \<longleftrightarrow> (\<forall>E w a w'. P (db w) \<longrightarrow> m E w \<noteq> (Inr a, w'))"

lemma fails_isl: "fails_on P m \<Longrightarrow> P (db w) \<Longrightarrow> isl (fst (m E w))"
  unfolding fails_on_def by (cases "m E w"; cases "fst (m E w)") auto

lemma fails_first: "fails_on P m \<Longrightarrow> fails_on P (andThen m f)"
  by (auto simp: fails_on_def elim!: andThen_InrE)

lemma fails_after: "keeps db_same m \<Longrightarrow> (\<And>a. fails_on P (f a)) \<Longrightarrow> fails_on P (andThen m f)"
  by (auto simp: fails_on_def elim!: andThen_InrE dest!: db_sameD)

lemma fails_transaction: "fails_on P m \<Longrightarrow> fails_on P (transaction m)"
  by (auto simp: fails_on_def elim!: transaction_InrE)

lemma fails_fileTransaction:
  assumes "fails_on P m"
  shows "fails_on P (fileTransaction m)"
  using fails_transaction [OF assms]
  by (fastforce simp: fails_on_def fileTransaction_def split: prod.splits sum.splits)

lemma fails_locks:
  "fails_on (\<lambda>d. \<not> is_draft k d) (LockDraft k)" "fails_on (\<lambda>d. \<not> is_draft k d) (lock_draft k)"
proof -
  show "fails_on (\<lambda>d. \<not> is_draft k d) (LockDraft k)"
    using LockDraft_draft by (fastforce simp: fails_on_def)
  then show "fails_on (\<lambda>d. \<not> is_draft k d) (lock_draft k)"
    unfolding lock_draft_def fails_on_def by (auto elim!: map_error_InrE)
qed

lemmas fails_intros = fails_transaction fails_fileTransaction fails_locks [THEN fails_first]

section \<open>Properties\<close>

text \<open>
  C29: CreateDraftRevision, when it succeeds, adds one revision to the problem: a draft numbered
  after the highest number, with the content of that latest revision and a copy of each of
  its tests in order; every other revision keeps its row and its tests.
\<close>

theorem create_draft_result:
  assumes "CreateDraftRevision k E w = (Inr r, w')" and "db_ok (db w)"
  shows "\<exists>latest\<in>set (revisions (db w)).
      r_problem_id latest = k \<and>
      (\<forall>q\<in>set (revisions (db w)). r_problem_id q = k \<longrightarrow> r_number q \<le> r_number latest) \<and>
      r_problem_id r = k \<and> r_number r = wrap64 (r_number latest + 1) \<and> r_state r = RevisionDraft \<and>
      same_content r latest \<and> revisions (db w') = revisions (db w) @ [r] \<and>
      map test_content (revision_tests (db w') (r_id r)) =
        map test_content (revision_tests (db w) (r_id latest)) \<and>
      (\<forall>j. j \<noteq> r_id r \<longrightarrow> revision_tests (db w') j = revision_tests (db w) j)"
  using assms
proof (rule CreateDraftRevision_InrE)
  fix latest copies
  assume l: "latest \<in> set (revisions (db w))" "r_problem_id latest = k"
    "\<And>q. q \<in> set (revisions (db w)) \<Longrightarrow> r_problem_id q = k \<Longrightarrow> r_number q \<le> r_number latest"
    "r_problem_id r = k" "r_number r = wrap64 (r_number latest + 1)"
    "r_state r = RevisionDraft" "same_content r latest"
    and fresh: "\<not> has r_id (r_id r) (revisions (db w))"
    and d': "db w' = (db w)\<lparr>revisions := revisions (db w) @ [r], test_cases := test_cases (db w) @ copies\<rparr>"
    and c: "map test_content copies = map test_content (revision_tests (db w) (r_id latest))"
      "\<And>t. t \<in> set copies \<Longrightarrow> t_problem_revision_id t = r_id r"
  have "revision_tests (db w) (r_id r) = []"
    using fresh assms(2) by (auto simp: revision_tests_def filter_empty_conv db_ok_def refs_ok_def test_refs_def)
  moreover have "filter (\<lambda>t. t_problem_revision_id t = j) copies = (if j = r_id r then copies else [])" for j
    using c(2) by (auto simp: filter_empty_conv filter_id_conv)
  ultimately show ?thesis
    using l c(1) by (intro bexI [of _ latest]) (auto simp: d' revision_tests_def)
qed

theorem create_draft_result_witness:
  "\<exists>r w'. CreateDraftRevision 1 (sample_env 150) sample_world = (Inr r, w') \<and>
     r_state r = RevisionDraft \<and> revisions (db w') = revisions sample_db @ [r]"
proof -
  have "\<not> isl (fst (CreateDraftRevision 1 (sample_env 150) sample_world))" by code_simp
  then obtain r w' where run: "CreateDraftRevision 1 (sample_env 150) sample_world = (Inr r, w')"
    by (cases "fst (CreateDraftRevision 1 (sample_env 150) sample_world)";
        cases "CreateDraftRevision 1 (sample_env 150) sample_world") auto
  from create_draft_result [OF run] run show ?thesis by auto
qed

text \<open>
  C30: A successful PublishRevision found a draft whose content is valid and which has a
  statement or a PDF, and changes just its state, its publication time to the time given and
  its update stamp; every other row of the database is as before.
\<close>

theorem publish_result:
  assumes "PublishRevision k at E w = (Inr u, w')"
  shows "is_draft k (db w) \<and>
    (\<exists>q v t. q \<in> set (revisions (db w)) \<and> r_id q = k \<and> validateRevision q = Inr v \<and>
       (r_statement v \<noteq> [] \<or> r_pdf_artifact_id v \<noteq> None) \<and>
       db w' = (db w)\<lparr>revisions := modify (\<lambda>r. r_id r = k)
         (\<lambda>r. r\<lparr>r_state := RevisionPublished, r_published_at := Some at, r_updated_at := t\<rparr>) (revisions (db w))\<rparr>)"
  using assms by (rule PublishRevision_InrE) blast

theorem publish_result_witness:
  "\<exists>w'. PublishRevision 2 77 (sample_env 150) sample_world = (Inr (), w') \<and> is_draft 2 sample_db"
proof -
  have "fst (PublishRevision 2 77 (sample_env 150) sample_world) = Inr ()" by code_simp
  then have run: "PublishRevision 2 77 (sample_env 150) sample_world =
      (Inr (), snd (PublishRevision 2 77 (sample_env 150) sample_world))" by (rule run_result)
  have "is_draft 2 sample_db" using publish_result [OF run] by (simp only: sample_world_simps)
  with run show ?thesis by blast
qed

text \<open>
  C31: UpdateDraftRevision writes the validated content of the struct it is given over the
  draft, the PDF reference included, whatever PDF the row had; no other row changes. So a
  PDF stored after the struct was loaded is lost, although both changes take the draft lock.
\<close>

theorem update_draft_result:
  assumes "UpdateDraftRevision v E w = (Inr x, w')" and "db_ok (db w)"
    and "r \<in> set (revisions (db w'))" and "r_id r = r_id v"
  shows "same_content r (trimmed_revision v) \<and> r_pdf_artifact_id r = r_pdf_artifact_id v \<and>
         r_state r = RevisionDraft \<and>
         (\<forall>q\<in>set (revisions (db w)). r_id q \<noteq> r_id v \<longrightarrow> q \<in> set (revisions (db w')))"
  using assms(1)
proof (rule UpdateDraftRevision_InrE)
  fix t
  assume v: "validateRevision v = Inr x" and draft: "is_draft (r_id v) (db w)"
    and d': "db w' = (db w)\<lparr>revisions := modify (\<lambda>r. r_id r = r_id v) (set_draft_fields x t) (revisions (db w))\<rparr>"
  have "\<exists>q\<in>set (revisions (db w)). r_id q = r_id v \<and> r = set_draft_fields x t q"
    using assms(3,4) by (intro modified_row) (simp_all add: d')
  then obtain q where q: "q \<in> set (revisions (db w))" "r_id q = r_id v" "r = set_draft_fields x t q" by blast
  have "r_state q = RevisionDraft" using assms(2) draft q(1,2) by (rule draft_row)
  then show ?thesis
    using q validateRevision_id [OF v]
    by (auto simp: set_draft_fields_def same_content_def d' intro: modify_other)
qed

text \<open>The run of the witness: a PDF arrives between the load of a draft and its update.\<close>

definition uploaded :: "database world" where
  "uploaded = snd (UploadPDF sample_service (Some author) 2 (bytes_reader ''%PDF-1.7'') (sample_env 150) sample_world)"

theorem update_draft_result_witness:
  "\<exists>w'. UpdateDraftRevision (sample_revision 2 2 RevisionDraft) (sample_env 160) uploaded
      = (Inr (sample_revision 2 2 RevisionDraft), w') \<and>
     (\<exists>r\<in>set (revisions (db uploaded)). r_id r = 2 \<and> r_pdf_artifact_id r \<noteq> Some 5) \<and>
     list_all (\<lambda>r. r_pdf_artifact_id r = Some 5) (filter (\<lambda>r. r_id r = 2) (revisions (db w')))"
proof -
  let ?v = "sample_revision 2 2 RevisionDraft"
  have eval: "fst (UpdateDraftRevision ?v (sample_env 160) uploaded) = Inr ?v"
    "\<exists>r\<in>set (revisions (db uploaded)). r_id r = 2 \<and> r_pdf_artifact_id r \<noteq> Some 5" by code_simp+
  from eval(1) have run: "UpdateDraftRevision ?v (sample_env 160) uploaded =
      (Inr ?v, snd (UpdateDraftRevision ?v (sample_env 160) uploaded))" by (rule run_result)
  have ok: "db_ok (db uploaded)"
    using UploadPDF_evolves [of sample_service "Some author" 2 "bytes_reader ''%PDF-1.7''"]
    unfolding keeps_def evolving_def always_def uploaded_def
    by (metis evolves_ok sample_db_ok sample_world_simps(1))
  have "r_pdf_artifact_id r = Some 5"
    if "r \<in> set (revisions (db (snd (UpdateDraftRevision ?v (sample_env 160) uploaded))))" "r_id r = 2" for r
    using update_draft_result [OF run ok that(1)] that(2) by (simp add: sample_revision_def)
  then have "list_all (\<lambda>r. r_pdf_artifact_id r = Some 5)
      (filter (\<lambda>r. r_id r = 2) (revisions (db (snd (UpdateDraftRevision ?v (sample_env 160) uploaded)))))"
    by (simp add: list_all_iff)
  with run eval(2) show ?thesis by blast
qed

text \<open>
  Every edit needs a draft: saving or deleting a test, uploading a PDF, committing an
  archive, adding a test case, updating or publishing a revision succeeds only when the
  revision is a draft at that moment.
\<close>

theorem edits_need_draft:
  assumes "\<not> is_draft k (db w)"
  shows "isl (fst (DeleteTest actor k j E w)) \<and> isl (fst (SaveTest s actor k j i E w)) \<and>
         isl (fst (UploadPDF s actor k source E w)) \<and> isl (fst (CommitZIP s actor k j E w)) \<and>
         isl (fst (PublishRevision k at E w)) \<and>
         (r_id v = k \<longrightarrow> isl (fst (UpdateDraftRevision v E w))) \<and>
         (t_problem_revision_id t = k \<longrightarrow> isl (fst (CreateTestCase t E w)))"
proof -
  let ?P = "\<lambda>d. \<not> is_draft k d"
  have "fails_on ?P (DeleteTest actor k j)" "fails_on ?P (UploadPDF s actor k source)"
    "fails_on ?P (CommitZIP s actor k j)" "fails_on ?P (SaveTest s actor k j i)"
    unfolding DeleteTest_def UploadPDF_def CommitZIP_def SaveTest_def
    by (intro fails_after content_reads reads.keeps_reject fails_intros)+
  moreover have "fails_on ?P (PublishRevision k at)"
    unfolding PublishRevision_def by (intro fails_intros)
  moreover have "fails_on ?P (CreateTestCase t)" if "t_problem_revision_id t = k"
    unfolding CreateTestCase_def that by (intro fails_after reads.keeps_reject fails_intros)
  moreover have "isl (fst (UpdateDraftRevision v E w))" if "r_id v = k"
  proof (rule ccontr)
    assume "\<not> ?thesis"
    then obtain x w' where "UpdateDraftRevision v E w = (Inr x, w')"
      by (cases "fst (UpdateDraftRevision v E w)"; cases "UpdateDraftRevision v E w") auto
    then have "is_draft (r_id v) (db w)" by (rule UpdateDraftRevision_InrE)
    with that assms show False by simp
  qed
  ultimately show ?thesis using assms by (simp add: fails_isl [where P = ?P])
qed

theorem edits_need_draft_witness:
  "isl (fst (UploadPDF sample_service (Some author) 1 (bytes_reader ''%PDF-1.7'') (sample_env 150) sample_world))"
proof -
  have "\<not> is_draft 1 (db sample_world)" by code_simp
  from edits_need_draft [OF this] show ?thesis by blast
qed



end
