(* ===== verification/Membership.thy ===== *)
theory Membership
  imports Access Evolution
begin

text \<open>
  Memberships (setMember of internal/content/service.go): what a change of membership does,
  and that only administrators decide who organizes a contest.
\<close>

definition pair_row :: "id \<Rightarrow> id \<Rightarrow> membership \<Rightarrow> bool" where
  "pair_row k j m \<longleftrightarrow> m_contest_id m = k \<and> m_user_id m = j"

definition organizers :: "database \<Rightarrow> (id \<times> id) set" where
  "organizers d =
     (\<lambda>m. (m_contest_id m, m_user_id m)) ` {m \<in> set (memberships d). m_role m = ''organizer''}"

text \<open>The roles a database gives, by contest and user.\<close>

definition role_in :: "database \<Rightarrow> id \<Rightarrow> id \<Rightarrow> string option" where
  "role_in d k j = map_option m_role (first_row m_id (pair_row k j) (memberships d))"

lemma lock_contest_reads: "keeps db_same (lock_contest k)"
  unfolding lock_contest_def
  by (intro reads.keeps_exec;
      auto simp: db_same_def update_contests_def modify_id elim!: with_rows_InrE update_rows_InrE)

lemma setMember_Inl:
  assumes "setMember actor k j role rm E w = (Inl e, w')"
  shows "db w' = db w"
  using assms unfolding setMember_def
proof (elim andThen_InlE)
  fix a w1 b w2
  assume "ManageContest actor k E w = (Inr a, w1)"
    and "reject (role \<noteq> ''organizer'' \<and> role \<noteq> ''participant'' \<and> \<not> rm)
           (invalid ''invalid membership role'') E w1 = (Inr b, w2)"
    and "transaction (change_member actor k j role rm) E w2 = (Inl e, w')"
  then show ?thesis
    by (auto elim!: reject_InrE dest!: transaction_Inl db_sameD [OF service_reads(2)])
qed (auto simp: reject_run dest!: db_sameD [OF service_reads(2)] split: if_splits)

text \<open>What a successful change shows of the transaction's body.\<close>

text \<open>The role the change finds is the one the member has, or none.\<close>

lemma existing_role:
  assumes f: "first memberships m_id (\<lambda>m. m_contest_id m = k \<and> m_user_id m = j) E w1 = (found, w2)"
    and er: "(case found of
                Inl e \<Rightarrow> if errors_is e ErrRecordNotFound then ret [] else fail e
              | Inr m \<Rightarrow> ret (m_role m)) E w2 = (Inr er, w3)"
    and other: "er \<noteq> ''organizer''"
  shows "role_in (db w1) k j \<noteq> Some ''organizer''"
proof (cases found)
  case (Inl e)
  with er have "errors_is e ErrRecordNotFound" by (auto simp: fail_run split: if_splits)
  with first_Inl f Inl have "first_row m_id (pair_row k j) (memberships (db w1)) = None"
    by (fastforce simp: pair_row_def [abs_def])
  then show ?thesis by (simp add: role_in_def)
next
  case (Inr m)
  with er f other show ?thesis
    by (auto simp: role_in_def pair_row_def [abs_def] elim!: ret_InrE first_InrE)
qed

lemma change_member_InrE:
  assumes "change_member actor k j role rm E w = (Inr u, w')"
  obtains t i where "has u_id j (users (db w))"
    and "\<not> admin actor \<Longrightarrow> role \<noteq> ''organizer'' \<and> role_in (db w) k j \<noteq> Some ''organizer''"
    and "if rm then db w' = db w\<lparr>memberships := filter (\<lambda>m. \<not> pair_row k j m) (memberships (db w))\<rparr>
         else \<exists>m. upsert_membership \<lparr>m_id = 0, m_contest_id = k, m_user_id = j, m_role = role\<rparr> t i (db w)
                = Inr (m, db w')"
proof -
  from assms obtain n w1 found w2 er w3 v w4 where l: "lock_contest k E w = (Inr n, w1)"
    and f: "first memberships m_id (\<lambda>m. m_contest_id m = k \<and> m_user_id m = j) E w1 = (found, w2)"
    and er: "(case found of
                Inl e \<Rightarrow> if errors_is e ErrRecordNotFound then ret [] else fail e
              | Inr m \<Rightarrow> ret (m_role m)) E w2 = (Inr er, w3)"
    and allowed: "\<not> (\<not> admin actor \<and> (role = ''organizer'' \<or> er = ''organizer''))"
    and user: "first users u_id (\<lambda>u. u_id u = j) E w3 = (Inr v, w4)"
    and fin: "(if rm
     then andThen (exec (\<lambda>t i. delete_memberships
                     (\<lambda>m. m_contest_id m = k \<and> m_user_id m = j))) (\<lambda>_. ret ())
     else andThen (exec (upsert_membership
                     \<lparr>m_id = 0, m_contest_id = k, m_user_id = j, m_role = role\<rparr>)) (\<lambda>_.
          ret ())) E w4 = (Inr u, w')"
    unfolding change_member_def
    by (elim andThen_InrE attempt_InrE reject_InrE, hypsubst, blast)
  have d1: "db w1 = db w" using db_sameD [OF lock_contest_reads l] by simp
  have d2: "db w2 = db w" using db_sameD [OF reads.keeps_first f] d1 by simp
  have d3: "db w3 = db w" using er d2 by (auto elim!: ret_InrE fail_InrE split: sum.splits if_splits)
  have role: "role_in (db w) k j \<noteq> Some ''organizer''" if "er \<noteq> ''organizer''"
    using existing_role [OF f er that] by (simp add: d1)
  have d4: "db w4 = db w" using db_sameD [OF reads.keeps_first user] d3 by simp
  have there: "has u_id j (users (db w))"
    using user d3 by (auto elim!: first_InrE dest!: first_row_Some simp: has_def)
  show thesis
  proof (cases rm)
    case True
    with fin d4 have "db w' = db w\<lparr>memberships := filter (\<lambda>m. \<not> pair_row k j m) (memberships (db w))\<rparr>"
      by (auto simp: delete_memberships_def pair_row_def elim!: andThen_InrE exec_InrE ret_InrE)
    with True there role allowed show thesis by (intro that) auto
  next
    case False
    with fin d4 obtain t i m where "upsert_membership \<lparr>m_id = 0, m_contest_id = k, m_user_id = j, m_role = role\<rparr> t i (db w)
                = Inr (m, db w')"
      by (auto elim!: andThen_InrE exec_InrE ret_InrE)
    with False there role allowed show thesis by (intro that) auto
  qed
qed

lemma setMember_InrE:
  assumes "setMember actor k j role rm E w = (Inr u, w')"
  obtains t i where "manages (db w) actor k" and "has u_id j (users (db w))"
    and "rm \<or> role = ''organizer'' \<or> role = ''participant''"
    and "\<not> admin actor \<Longrightarrow> role \<noteq> ''organizer'' \<and> role_in (db w) k j \<noteq> Some ''organizer''"
    and "if rm then db w' = db w\<lparr>memberships := filter (\<lambda>m. \<not> pair_row k j m) (memberships (db w))\<rparr>
         else \<exists>m. upsert_membership \<lparr>m_id = 0, m_contest_id = k, m_user_id = j, m_role = role\<rparr> t i (db w)
                = Inr (m, db w')"
proof -
  from assms obtain a w1 w2 where m: "ManageContest actor k E w = (Inr a, w1)"
    and role: "\<not> (role \<noteq> ''organizer'' \<and> role \<noteq> ''participant'' \<and> \<not> rm)"
    and body: "change_member actor k j role rm E (w1\<lparr>ticks := Suc (ticks w1)\<rparr>) = (Inr u, w2)"
    and w': "w' = w2\<lparr>ticks := Suc (ticks w2)\<rparr>"
    unfolding setMember_def
    by (elim andThen_InrE reject_InrE transaction_InrE, hypsubst, blast)
  have same: "db w1 = db w" using db_sameD [OF service_reads(2) m] by simp
  have man: "manages (db w) actor k" using m by (rule ManageContest_InrE)
  from body show thesis
  proof (rule change_member_InrE)
    fix t i
    assume h: "has u_id j (users (db (w1\<lparr>ticks := Suc (ticks w1)\<rparr>)))"
      "\<not> admin actor \<Longrightarrow> role \<noteq> ''organizer'' \<and> role_in (db (w1\<lparr>ticks := Suc (ticks w1)\<rparr>)) k j \<noteq> Some ''organizer''"
      "if rm then db w2 = db (w1\<lparr>ticks := Suc (ticks w1)\<rparr>)
            \<lparr>memberships := filter (\<lambda>m. \<not> pair_row k j m) (memberships (db (w1\<lparr>ticks := Suc (ticks w1)\<rparr>)))\<rparr>
       else \<exists>m. upsert_membership \<lparr>m_id = 0, m_contest_id = k, m_user_id = j, m_role = role\<rparr> t i
              (db (w1\<lparr>ticks := Suc (ticks w1)\<rparr>)) = Inr (m, db w2)"
    show thesis
      by (rule that [OF man, of t i]) (use h role in \<open>auto simp: same w'\<close>)
  qed
qed

section \<open>Roles after a change\<close>

lemma role_unique:
  assumes "db_ok d"
  shows "role_in d k j = Some role \<longleftrightarrow>
    (\<exists>m\<in>set (memberships d). m_contest_id m = k \<and> m_user_id m = j \<and> m_role m = role)"
proof -
  have "first_row m_id (pair_row k j) (memberships d) = Some m"
    if "m \<in> set (memberships d)" "pair_row k j m" for m
    using that memberships.no_clash [OF db_ok_tables(5) [OF assms]]
    by (intro first_row_unique) (auto simp: pair_row_def membership_clash_def)
  then show ?thesis
    by (fastforce simp: role_in_def pair_row_def dest!: first_row_Some)
qed

lemma organizers_role: "db_ok d \<Longrightarrow> (k, j) \<in> organizers d \<longleftrightarrow> role_in d k j = Some ''organizer''"
  by (auto simp: organizers_def role_unique)

definition has_role :: "database \<Rightarrow> id \<Rightarrow> id \<Rightarrow> string \<Rightarrow> bool" where
  "has_role d k j role \<longleftrightarrow>
     (\<exists>m\<in>set (memberships d). m_contest_id m = k \<and> m_user_id m = j \<and> m_role m = role)"

lemma upsert_roles:
  assumes "upsert_membership \<lparr>m_id = 0, m_contest_id = k, m_user_id = j, m_role = role\<rparr> t i d = Inr (m, d')"
  shows "has_role d' k' j' role' \<longleftrightarrow> (if k' = k \<and> j' = j then role' = role else has_role d k' j' role')"
proof (cases "\<exists>m\<in>set (memberships d). pair_row k j m")
  case True
  with assms have d': "memberships d' = modify (pair_row k j) (\<lambda>m. m\<lparr>m_role := role\<rparr>) (memberships d)"
    by (auto simp: upsert_membership_def pair_row_def [abs_def] membership_clash_def [abs_def]
        split: if_splits)
  have "has_role d' k' j' role' \<longleftrightarrow> (\<exists>m\<in>set (memberships d).
      m_contest_id m = k' \<and> m_user_id m = j' \<and> (if pair_row k j m then role else m_role m) = role')"
    unfolding has_role_def d' modify_def set_map bex_simps by (intro bex_cong) auto
  moreover have "(\<exists>m\<in>set (memberships d). m_contest_id m = k' \<and> m_user_id m = j' \<and>
      (if pair_row k j m then role else m_role m) = role') \<longleftrightarrow>
      (if k' = k \<and> j' = j then role' = role else has_role d k' j' role')"
  proof (cases "k' = k \<and> j' = j")
    case same: True
    with True show ?thesis by (auto simp: pair_row_def)
  next
    case False
    then have "m_contest_id m = k' \<and> m_user_id m = j' \<and> (if pair_row k j m then role else m_role m) = role' \<longleftrightarrow>
        m_contest_id m = k' \<and> m_user_id m = j' \<and> m_role m = role'" for m
      by (auto simp: pair_row_def)
    with False show ?thesis by (simp only: has_role_def if_False)
  qed
  ultimately show ?thesis by (simp only:)
next
  case False
  with assms obtain n where
    "memberships d' = memberships d @ [\<lparr>m_id = n, m_contest_id = k, m_user_id = j, m_role = role\<rparr>]"
    by (auto simp: upsert_membership_def pair_row_def membership_clash_def
        elim!: with_rows_InrE insert_row_InrE split: if_splits)
  with False show ?thesis by (auto simp: has_role_def pair_row_def)
qed

lemma setMember_roles:
  assumes "setMember actor k j role rm E w = (Inr u, w')"
  shows "has_role (db w') k' j' role' \<longleftrightarrow>
    (if k' = k \<and> j' = j then \<not> rm \<and> role' = role else has_role (db w) k' j' role')"
  using assms
proof (rule setMember_InrE)
  fix t i
  assume new: "if rm then db w' = db w\<lparr>memberships := filter (\<lambda>m. \<not> pair_row k j m) (memberships (db w))\<rparr>
         else \<exists>m. upsert_membership \<lparr>m_id = 0, m_contest_id = k, m_user_id = j, m_role = role\<rparr> t i (db w)
                = Inr (m, db w')"
  show ?thesis
  proof (cases rm)
    case True
    with new have "db w' = db w\<lparr>memberships := filter (\<lambda>m. \<not> pair_row k j m) (memberships (db w))\<rparr>"
      by simp
    with True show ?thesis by (auto simp: has_role_def pair_row_def)
  next
    case False
    with new obtain m where "upsert_membership \<lparr>m_id = 0, m_contest_id = k, m_user_id = j, m_role = role\<rparr> t i (db w)
                = Inr (m, db w')" by auto
    from upsert_roles [OF this] False show ?thesis by simp
  qed
qed

lemma has_role_role: "db_ok d \<Longrightarrow> has_role d k j role \<longleftrightarrow> role_in d k j = Some role"
  by (simp add: has_role_def role_unique)

lemma organizers_has: "(k, j) \<in> organizers d \<longleftrightarrow> has_role d k j ''organizer''"
  by (auto simp: organizers_def has_role_def)

lemma setMember_ok: "setMember actor k j role rm E w = (r, w') \<Longrightarrow> db_ok (db w) \<Longrightarrow> db_ok (db w')"
  using evolving.keepsD [OF setMember_evolves]
  by (fastforce simp: evolving_def always_def dest: evolves_ok)

lemma option_ext: "(\<And>x. a = Some x \<longleftrightarrow> b = Some x) \<Longrightarrow> a = b"
  by (cases a; cases b) auto

lemma setMember_organizers:
  assumes "setMember actor k j role rm E w = (r, w')" and "db_ok (db w)" and "\<not> admin actor"
  shows "organizers (db w') = organizers (db w)"
proof (cases r)
  case (Inl e)
  with assms(1) have "db w' = db w" by (auto dest: setMember_Inl)
  then show ?thesis by simp
next
  case (Inr u)
  with assms(1) have run: "setMember actor k j role rm E w = (Inr u, w')" by simp
  have "role \<noteq> ''organizer''" "\<not> has_role (db w) k j ''organizer''"
    using run assms(2,3) by (auto elim!: setMember_InrE simp: has_role_role)
  then have "(k', j') \<in> organizers (db w') \<longleftrightarrow> (k', j') \<in> organizers (db w)" for k' j'
    by (auto simp: organizers_has setMember_roles [OF run])
  then show ?thesis by auto
qed

section \<open>Properties\<close>

text \<open>
  C8: Only an administrator changes who organizes a contest: whatever another actor asks of
  setMember, and whatever fails on the way, the set of organizers of every contest is the
  same afterwards.
\<close>

theorem organizers_need_admin:
  assumes "setMember actor k j role rm E w = (r, w')" and "db_ok (db w)" and "\<not> admin actor"
  shows "organizers (db w') = organizers (db w)"
  using assms by (rule setMember_organizers)

theorem organizers_need_admin_witness:
  "\<not> admin (Some author) \<and>
   organizers (db (snd (setMember (Some author) 1 4 ''organizer'' False (sample_env 150) sample_world))) =
     organizers sample_db"
proof -
  have "\<not> admin (Some author)" by code_simp
  moreover from this organizers_need_admin [OF prod.collapse [symmetric], of sample_world "Some author"]
  have "organizers (db (snd (setMember (Some author) 1 4 ''organizer'' False (sample_env 150) sample_world))) =
     organizers sample_db" by simp
  ultimately show ?thesis by simp
qed

text \<open>
  C26: A successful setMember is the work of a manager of the contest on an existing user; it
  leaves the pair with exactly the role asked for, or with none after a removal, and every
  other membership as it was.
\<close>

theorem set_member_result:
  assumes "setMember actor k j role rm E w = (Inr u, w')" and "db_ok (db w)"
  shows "manages (db w) actor k \<and> has u_id j (users (db w)) \<and>
         role_in (db w') k j = (if rm then None else Some role) \<and>
         (\<forall>k' j'. (k', j') \<noteq> (k, j) \<longrightarrow> role_in (db w') k' j' = role_in (db w) k' j')"
proof -
  have ok: "db_ok (db w')" using assms by (rule setMember_ok)
  have "role_in (db w') k' j' = (if k' = k \<and> j' = j then if rm then None else Some role
      else role_in (db w) k' j')" for k' j'
    by (rule option_ext)
      (use setMember_roles [OF assms(1), of k' j'] has_role_role [OF ok, of k' j']
        has_role_role [OF assms(2), of k' j'] in auto)
  moreover have "manages (db w) actor k \<and> has u_id j (users (db w))"
    using assms(1) by (auto elim: setMember_InrE)
  ultimately show ?thesis by auto
qed

theorem set_member_result_witness:
  "\<exists>w'. SetMember (Some author) 1 4 ''participant'' (sample_env 150) sample_world = (Inr (), w') \<and>
        role_in (db w') 1 4 = Some ''participant''"
proof -
  let ?w = "snd (SetMember (Some author) 1 4 ''participant'' (sample_env 150) sample_world)"
  have "fst (SetMember (Some author) 1 4 ''participant'' (sample_env 150) sample_world) = Inr ()"
    by code_simp
  then have run: "setMember (Some author) 1 4 ''participant'' False (sample_env 150) sample_world = (Inr (), ?w)"
    by (simp add: prod_eq_iff SetMember_def)
  have "role_in (db ?w) 1 4 = Some ''participant''"
    using set_member_result [OF run] by simp
  with run show ?thesis by (auto simp: SetMember_def)
qed

end
