(* ===== verification/Reordering.thy ===== *)
theory Reordering
  imports Access
begin

text \<open>
  Reordering (ReorderSeries and ReorderProblems of internal/content/service.go). Both move
  the rows of one parent under a unique index on (parent, position). What the algorithm
  needs of a table is an interface, ordered_children; its correctness is proved once from
  the laws of the interface, and series and assignments are its interpretations.
\<close>

section \<open>The place of an id in a list\<close>

primrec index_of :: "nat \<Rightarrow> id list \<Rightarrow> id \<Rightarrow> nat option" where
  "index_of n [] i = None"
| "index_of n (x # xs) i = (if x = i then Some n else index_of (Suc n) xs i)"

lemma index_of_None: "index_of n ids i = None \<longleftrightarrow> i \<notin> set ids"
  by (induction ids arbitrary: n) auto

lemma index_of_least: "index_of n ids i = Some m \<Longrightarrow> n \<le> m"
  by (induction ids arbitrary: n) (force split: if_splits)+

lemma index_of_bound: "index_of n ids i = Some m \<Longrightarrow> m < n + length ids"
  by (induction ids arbitrary: n) (force split: if_splits)+

lemma index_of_nth: "distinct ids \<Longrightarrow> j < length ids \<Longrightarrow> index_of n ids (ids ! j) = Some (n + j)"
  by (induction ids arbitrary: n j) (auto simp: nth_Cons split: nat.splits)

text \<open>A view of the children of all parents: id, parent and position, in table order.\<close>

type_synonym children = "(id \<times> id \<times> int) list"

definition placed :: "int \<Rightarrow> nat \<Rightarrow> id list \<Rightarrow> children \<Rightarrow> children" where
  "placed b n ids v =
     map (\<lambda>(i, c, q). (i, c, case index_of n ids i of None \<Rightarrow> q | Some m \<Rightarrow> b + int m)) v"

definition moved :: "id \<Rightarrow> int \<Rightarrow> children \<Rightarrow> children" where
  "moved k p v = map (\<lambda>(i, c, q). (i, c, if i = k then p else q)) v"

lemma placed_Nil [simp]: "placed b n [] v = v"
  by (induction v) (auto simp: placed_def)

lemma placed_Cons:
  assumes "x \<notin> set xs"
  shows "placed b n (x # xs) v = placed b (Suc n) xs (moved x (b + int n) v)"
proof -
  have "index_of (Suc n) xs x = None" using assms by (simp add: index_of_None)
  then show ?thesis by (auto simp: placed_def moved_def split: option.split)
qed

lemma placed_placed [simp]: "placed b n ids (placed b' n ids v) = placed b n ids v"
  by (auto simp: placed_def split: option.split)

lemma in_placed:
  "(i, c, q) \<in> set (placed b n ids v) \<longleftrightarrow>
     (\<exists>q0. (i, c, q0) \<in> set v \<and> q = (case index_of n ids i of None \<Rightarrow> q0 | Some m \<Rightarrow> b + int m))"
  by (simp add: placed_def image_iff Bex_def split_paired_Ex)

lemma in_moved:
  "(i, c, q) \<in> set (moved k p v) \<longleftrightarrow> (\<exists>q0. (i, c, q0) \<in> set v \<and> q = (if i = k then p else q0))"
  by (simp add: moved_def image_iff Bex_def split_paired_Ex)

lemma fst_moved: "map fst (moved k p v) = map fst v"
  by (induction v) (auto simp: moved_def)

text \<open>
  Room for the passes: every child lies below the next target, or is still to be moved from
  above its own target.
\<close>

definition roomy :: "id \<Rightarrow> int \<Rightarrow> nat \<Rightarrow> id list \<Rightarrow> children \<Rightarrow> bool" where
  "roomy parent b n ids v \<longleftrightarrow>
     (\<forall>i q. (i, parent, q) \<in> set v \<longrightarrow>
        q < b + int n \<or> (\<exists>m. index_of n ids i = Some m \<and> b + int m < q))"

definition members :: "id \<Rightarrow> id list \<Rightarrow> children \<Rightarrow> bool" where
  "members parent ids v \<longleftrightarrow> (\<forall>x\<in>set ids. \<exists>q. (x, parent, q) \<in> set v)"

lemma roomy_free:
  assumes "roomy parent b n (x # xs) v" and "(j, parent, q) \<in> set v" and "j \<noteq> x"
  shows "q \<noteq> b + int n"
  using assms index_of_least [of "Suc n" xs j] by (force simp: roomy_def)

lemma roomy_moved:
  assumes "roomy parent b n (x # xs) v"
  shows "roomy parent b (Suc n) xs (moved x (b + int n) v)"
  unfolding roomy_def
proof (intro allI impI)
  fix i q
  assume "(i, parent, q) \<in> set (moved x (b + int n) v)"
  then obtain q0 where q0: "(i, parent, q0) \<in> set v" "q = (if i = x then b + int n else q0)"
    by (auto simp: in_moved)
  with assms have "q0 < b + int n \<or> (\<exists>m. index_of n (x # xs) i = Some m \<and> b + int m < q0)"
    unfolding roomy_def by blast
  with q0(2) show "q < b + int (Suc n) \<or> (\<exists>m. index_of (Suc n) xs i = Some m \<and> b + int m < q)"
    by (cases "i = x") auto
qed

lemma members_moved: "members parent (x # xs) v \<Longrightarrow> members parent xs (moved x p v)"
  by (auto simp: members_def in_moved)

lemma members_placed: "members parent ids v \<Longrightarrow> members parent ids (placed b n ids v)"
  by (auto simp: members_def in_placed)

lemma roomy_above:
  assumes "\<And>i q. (i, parent, q) \<in> set v \<Longrightarrow> i \<in> set ids" and "0 < b"
  shows "roomy parent 0 0 ids (placed b 0 ids v)"
  unfolding roomy_def
proof (intro allI impI)
  fix i q
  assume "(i, parent, q) \<in> set (placed b 0 ids v)"
  then obtain q0 where "(i, parent, q0) \<in> set v"
    and q: "q = (case index_of 0 ids i of None \<Rightarrow> q0 | Some m \<Rightarrow> b + int m)"
    by (auto simp: in_placed)
  with assms(1) have "index_of 0 ids i \<noteq> None" by (auto simp: index_of_None)
  with q assms(2) show "q < 0 + int 0 \<or> (\<exists>m. index_of 0 ids i = Some m \<and> 0 + int m < q)"
    by auto
qed

lemma max_position_ge: "0 \<le> max_position rows" and max_position_upper: "r \<in> set rows \<Longrightarrow> snd r \<le> max_position rows"
proof -
  have mono: "a \<le> fold (\<lambda>r m. if snd r > m then snd r else m) rows a" for a :: int
    and rows :: "(id \<times> int) list"
  proof (induction rows arbitrary: a)
    case (Cons x xs)
    show ?case using Cons [of "if snd x > a then snd x else a"] by (auto split: if_splits)
  qed simp
  then show "0 \<le> max_position rows" by (simp add: max_position_def)
  have "r \<in> set rows \<Longrightarrow> snd r \<le> fold (\<lambda>r m. if snd r > m then snd r else m) rows a" for a
  proof (induction rows arbitrary: a)
    case (Cons x xs)
    then show ?case
      using mono [of "if snd x > a then snd x else a" xs] by (auto split: if_splits)
  qed simp
  then show "r \<in> set rows \<Longrightarrow> snd r \<le> max_position rows" by (simp add: max_position_def)
qed

lemma max_position_least:
  assumes "0 \<le> b" and "\<And>r. r \<in> set rows \<Longrightarrow> snd r \<le> b"
  shows "max_position rows \<le> b"
proof -
  have "a \<le> b \<Longrightarrow> (\<And>r. r \<in> set rows \<Longrightarrow> snd r \<le> b) \<Longrightarrow>
      fold (\<lambda>r m. if snd r > m then snd r else m) rows a \<le> b" for a
    by (induction rows arbitrary: a) auto
  with assms show ?thesis by (simp add: max_position_def)
qed

section \<open>The interface\<close>

locale ordered_children =
  fixes view :: "database \<Rightarrow> children"
    and put :: "id \<Rightarrow> int \<Rightarrow> time \<Rightarrow> database \<Rightarrow> go_error + nat \<times> database"
    and frame :: "database \<Rightarrow> database \<Rightarrow> bool"
  assumes view_keys: "db_ok d \<Longrightarrow> distinct (map fst (view d))"
    and view_pos: "db_ok d \<Longrightarrow> (i, c, q) \<in> set (view d) \<Longrightarrow> 0 \<le> q"
    and put_ok: "put k p t d = Inr (n, d') \<Longrightarrow> db_ok d \<Longrightarrow> db_ok d'"
    and put_view: "put k p t d = Inr (n, d') \<Longrightarrow> view d' = moved k p (view d)"
    and put_frame: "put k p t d = Inr (n, d') \<Longrightarrow> frame d d'"
    and put_success: "db_ok d \<Longrightarrow> 0 \<le> p \<Longrightarrow> (k, c, q) \<in> set (view d) \<Longrightarrow>
      (\<And>j q'. (j, c, q') \<in> set (view d) \<Longrightarrow> j \<noteq> k \<Longrightarrow> q' \<noteq> p) \<Longrightarrow> \<exists>n d'. put k p t d = Inr (n, d')"
    and frame_refl: "frame d d"
    and frame_trans: "frame d d1 \<Longrightarrow> frame d1 d2 \<Longrightarrow> frame d d2"
begin

definition setpos :: "id \<Rightarrow> int \<Rightarrow> (database, nat) go" where
  "setpos k p = exec (\<lambda>t i. put k p t)"

definition children_of :: "id \<Rightarrow> database \<Rightarrow> (id \<times> int) list" where
  "children_of parent d = map (\<lambda>(i, c, q). (i, q)) (filter (\<lambda>(i, c, q). c = parent) (view d))"

lemma setpos_InrE:
  assumes "setpos k p E w = (Inr n, w')" and "db_ok (db w)"
  shows "db_ok (db w')" and "view (db w') = moved k p (view (db w))" and "frame (db w) (db w')"
  using assms unfolding setpos_def
  by (auto elim!: exec_InrE dest: put_ok put_view put_frame)

text \<open>The final pass.\<close>

lemma final_pass:
  assumes "for_each (enumerate n ids) (\<lambda>x. andThen (setpos (snd x) (int (fst x))) (\<lambda>_. ret ())) E w = (Inr u, w')"
    and "db_ok (db w)" and "distinct ids"
  shows "db_ok (db w') \<and> view (db w') = placed 0 n ids (view (db w)) \<and> frame (db w) (db w')"
  using assms
proof (induction ids arbitrary: n w)
  case Nil
  then show ?case by (auto elim!: go_elims simp: frame_refl)
next
  case (Cons x xs)
  from Cons.prems(1) obtain m w1 where s: "setpos x (int n) E w = (Inr m, w1)"
    and rest: "for_each (enumerate (Suc n) xs) (\<lambda>x. andThen (setpos (snd x) (int (fst x))) (\<lambda>_. ret ())) E w1 = (Inr u, w')"
    by (auto elim!: andThen_InrE ret_InrE)
  note s' = setpos_InrE [OF s Cons.prems(2)]
  have "db_ok (db w') \<and> view (db w') = placed 0 (Suc n) xs (view (db w1)) \<and> frame (db w1) (db w')"
    using Cons.IH [OF rest s'(1)] Cons.prems(3) by simp
  with s' Cons.prems(3) show ?case
    by (auto simp: placed_Cons intro: frame_trans)
qed

text \<open>The first pass, which also refuses an id it has seen or does not know.\<close>

abbreviation first_step :: "int \<Rightarrow> id list \<Rightarrow> nat \<times> id \<Rightarrow> (database, id list) go" where
  "first_step b seen x \<equiv>
     andThen (reject (snd x \<notin> set seen) (invalid ''invalid or duplicate order ID'')) (\<lambda>_.
     andThen (setpos (snd x) (wrap64 (b + int (fst x)))) (\<lambda>_.
     ret (removeAll (snd x) seen)))"

lemma first_pass:
  assumes "fold_go (first_step b) seen (enumerate n ids) E w = (Inr u, w')"
    and "db_ok (db w)" and "0 \<le> b" and "b + int n + int (length ids) < 2 ^ 63"
  shows "distinct ids \<and> set ids \<subseteq> set seen \<and> db_ok (db w') \<and>
         view (db w') = placed b n ids (view (db w)) \<and> frame (db w) (db w')"
  using assms
proof (induction ids arbitrary: n w seen)
  case Nil
  then show ?case by (auto elim!: go_elims simp: frame_refl)
next
  case (Cons x xs)
  have wrap: "wrap64 (b + int n) = b + int n"
    using Cons.prems(3,4) by (intro wrap64_id) auto
  from Cons.prems(1) obtain m w1 where x: "x \<in> set seen" and s: "setpos x (b + int n) E w = (Inr m, w1)"
    and rest: "fold_go (first_step b) (removeAll x seen) (enumerate (Suc n) xs) E w1 = (Inr u, w')"
    by (auto elim!: andThen_InrE ret_InrE reject_InrE simp: wrap)
  note s' = setpos_InrE [OF s Cons.prems(2)]
  have "distinct xs \<and> set xs \<subseteq> set (removeAll x seen) \<and> db_ok (db w') \<and>
        view (db w') = placed b (Suc n) xs (view (db w1)) \<and> frame (db w1) (db w')"
    using Cons.IH [OF rest s'(1)] Cons.prems(3,4) by simp
  moreover from this have "x \<notin> set xs" by auto
  ultimately show ?case using s' x by (auto simp: placed_Cons intro: frame_trans)
qed

text \<open>Without failures the passes run to the end: no step meets the unique index.\<close>

lemma setpos_runs:
  assumes "calm E" and "db_ok (db w)" and "0 \<le> b" and "roomy parent b n (x # xs) (view (db w))"
    and "members parent (x # xs) (view (db w))"
  obtains m w' where "setpos x (b + int n) E w = (Inr m, w')"
proof -
  from assms(5) obtain q where q: "(x, parent, q) \<in> set (view (db w))" by (auto simp: members_def)
  have "\<exists>m d'. put x (b + int n) t (db w) = Inr (m, d')" for t
    using put_success [OF assms(2) _ q] roomy_free [OF assms(4)] assms(3) by simp
  then obtain m d' where "put x (b + int n) (clock E (ticks w)) (db w) = Inr (m, d')" by blast
  with assms(1) show thesis by (auto simp: setpos_def go_simps intro: that)
qed

lemma final_pass_runs:
  assumes "calm E" and "db_ok (db w)" and "roomy parent 0 n ids (view (db w))"
    and "members parent ids (view (db w))" and "distinct ids"
  shows "\<exists>w'. for_each (enumerate n ids) (\<lambda>x. andThen (setpos (snd x) (int (fst x))) (\<lambda>_. ret ())) E w = (Inr (), w')"
  using assms
proof (induction ids arbitrary: n w)
  case Nil
  then show ?case by (simp add: go_simps)
next
  case (Cons x xs)
  obtain m w1 where s: "setpos x (int n) E w = (Inr m, w1)"
    using setpos_runs [OF Cons.prems(1,2) order_refl Cons.prems(3,4)] by auto
  note s' = setpos_InrE [OF s Cons.prems(2)]
  have "\<exists>w'. for_each (enumerate (Suc n) xs) (\<lambda>x. andThen (setpos (snd x) (int (fst x))) (\<lambda>_. ret ())) E w1 = (Inr (), w')"
  proof (rule Cons.IH)
    show "roomy parent 0 (Suc n) xs (view (db w1))"
      using roomy_moved [OF Cons.prems(3)] s'(2) by simp
    show "members parent xs (view (db w1))"
      using members_moved [OF Cons.prems(4)] s'(2) by simp
  qed (use Cons.prems s' in auto)
  moreover have "andThen (setpos x (int n)) (\<lambda>_. ret ()) E w = (Inr (), w1)"
    using s by (simp add: andThen_run go_simps)
  ultimately show ?case by (auto simp: andThen_Inr)
qed

lemma first_pass_runs:
  assumes "calm E" and "db_ok (db w)" and "roomy parent b n ids (view (db w))"
    and "members parent ids (view (db w))" and "distinct ids" and "set ids \<subseteq> set seen"
    and "0 \<le> b" and "b + int n + int (length ids) < 2 ^ 63"
  shows "\<exists>u w'. fold_go (first_step b) seen (enumerate n ids) E w = (Inr u, w')"
  using assms
proof (induction ids arbitrary: n w seen)
  case Nil
  then show ?case by (simp add: go_simps)
next
  case (Cons x xs)
  have wrap: "wrap64 (b + int n) = b + int n"
    using Cons.prems(7,8) by (intro wrap64_id) auto
  obtain m w1 where s: "setpos x (b + int n) E w = (Inr m, w1)"
    using setpos_runs [OF Cons.prems(1,2,7,3,4)] by auto
  note s' = setpos_InrE [OF s Cons.prems(2)]
  have "\<exists>u w'. fold_go (first_step b) (removeAll x seen) (enumerate (Suc n) xs) E w1 = (Inr u, w')"
  proof (rule Cons.IH)
    show "roomy parent b (Suc n) xs (view (db w1))"
      using roomy_moved [OF Cons.prems(3)] s'(2) by simp
    show "members parent xs (view (db w1))"
      using members_moved [OF Cons.prems(4)] s'(2) by simp
  qed (use Cons.prems s' in auto)
  moreover have "first_step b seen (n, x) E w = (Inr (removeAll x seen), w1)"
    using s wrap Cons.prems(6) by (simp add: andThen_run go_simps)
  ultimately show ?case by (auto simp: andThen_Inr)
qed

section \<open>The whole reordering\<close>

lemma children_ids: "fst ` set (children_of parent d) = {i. \<exists>q. (i, parent, q) \<in> set (view d)}"
  by (force simp: children_of_def)

lemma reorder_InrE:
  assumes run: "reorder lock (query (children_of parent)) setpos ids E w = (Inr u, w')"
    and lock: "keeps db_same lock" and ok: "db_ok (db w)"
  shows "distinct ids" and "set ids = fst ` set (children_of parent (db w))"
    and "db_ok (db w')" and "view (db w') = placed 0 0 ids (view (db w))" and "frame (db w) (db w')"
proof -
  let ?rows = "children_of parent (db w)"
  let ?b = "max_position ?rows + 1"
  have b: "0 \<le> ?b" using max_position_ge [of ?rows] by simp
  obtain m w1 w2 seen w3 w4 where l: "lock (E) (w\<lparr>ticks := Suc (ticks w)\<rparr>) = (Inr m, w1)"
    and w2: "w2 = w1\<lparr>ticks := Suc (ticks w1)\<rparr>" and len: "length (children_of parent (db w1)) = length ids"
    and small: "max_position (children_of parent (db w1)) \<le> 2 ^ 30" "length ids \<le> 10000"
    and p1: "fold_go (first_step (max_position (children_of parent (db w1)) + 1))
       (map fst (children_of parent (db w1))) (enumerate 0 ids) E w2 = (Inr seen, w3)"
    and p2: "for_each (enumerate 0 ids) (\<lambda>x. andThen (setpos (snd x) (int (fst x))) (\<lambda>_. ret ())) E w3 = (Inr u, w4)"
    and w': "w' = w4\<lparr>ticks := Suc (ticks w4)\<rparr>"
    using run unfolding reorder_def Let_def
    by (auto elim!: transaction_InrE andThen_InrE query_InrE reject_InrE simp: not_less) blast
  have same: "db w1 = db w" using db_sameD [OF lock l] by simp
  have bound: "?b + int 0 + int (length ids) < 2 ^ 63"
    using small same by simp
  have first: "distinct ids \<and> set ids \<subseteq> set (map fst ?rows) \<and> db_ok (db w3) \<and>
      view (db w3) = placed ?b 0 ids (view (db w2)) \<and> frame (db w2) (db w3)"
    by (rule first_pass [OF p1 [unfolded same] _ b bound]) (simp add: w2 same ok)
  then have d: "distinct ids" and sub: "set ids \<subseteq> set (map fst ?rows)" by auto
  have last: "db_ok (db w4) \<and> view (db w4) = placed 0 0 ids (view (db w3)) \<and> frame (db w3) (db w4)"
    by (rule final_pass [OF p2 _ d]) (use first in simp)
  show "distinct ids" by (rule d)
  have "card (set ids) = length (map fst ?rows)" using len same distinct_card [OF d] by simp
  with card_length [of "map fst ?rows"] sub have "set ids = set (map fst ?rows)"
    by (intro card_seteq) auto
  then show "set ids = fst ` set ?rows" by simp
  show "db_ok (db w')" "view (db w') = placed 0 0 ids (view (db w))" "frame (db w) (db w')"
    using first last frame_trans by (auto simp: w' w2 same)
qed

text \<open>The result in terms of the rows: listed ids at their places, other parents untouched.\<close>

lemma reorder_positions:
  assumes run: "reorder lock (query (children_of parent)) setpos ids E w = (Inr u, w')"
    and lock: "keeps db_same lock" and ok: "db_ok (db w)"
  shows "(i, c, q) \<in> set (view (db w')) \<Longrightarrow> j < length ids \<Longrightarrow> i = ids ! j \<Longrightarrow> q = int j"
    and "(i, c, q) \<in> set (view (db w')) \<Longrightarrow> c \<noteq> parent \<Longrightarrow> (i, c, q) \<in> set (view (db w))"
proof -
  note r = reorder_InrE [OF assms]
  show "(i, c, q) \<in> set (view (db w')) \<Longrightarrow> j < length ids \<Longrightarrow> i = ids ! j \<Longrightarrow> q = int j"
    using index_of_nth [OF r(1), of j 0] by (auto simp: r(4) in_placed)
  assume i: "(i, c, q) \<in> set (view (db w'))" "c \<noteq> parent"
  then obtain q0 where q0: "(i, c, q0) \<in> set (view (db w))"
    "q = (case index_of 0 ids i of None \<Rightarrow> q0 | Some m \<Rightarrow> int m)"
    by (auto simp: r(4) in_placed cong del: option.case_cong_weak)
  have "i \<notin> set ids"
  proof
    assume "i \<in> set ids"
    then obtain q1 where "(i, parent, q1) \<in> set (view (db w))" by (auto simp: r(2) children_ids)
    with q0(1) have "(parent, q1) = (c, q0)"
      using distinct_key_eq [OF view_keys [OF ok], of "(i, parent, q1)" "(i, c, q0)"] by simp
    with i(2) show False by simp
  qed
  then have "index_of 0 ids i = None" by (simp add: index_of_None)
  with q0 show "(i, c, q) \<in> set (view (db w))" by simp
qed

lemma reorder_runs:
  assumes calm: "calm E" and ok: "db_ok (db w)"
    and lock: "keeps db_same lock" and locks: "\<And>v. db v = db w \<Longrightarrow> \<not> isl (fst (lock E v))"
    and d: "distinct ids" and all: "set ids = fst ` set (children_of parent (db w))"
    and len: "length (children_of parent (db w)) = length ids" "length ids \<le> 10000"
    and small: "max_position (children_of parent (db w)) \<le> 2 ^ 30"
  shows "\<exists>w'. reorder lock (query (children_of parent)) setpos ids E w = (Inr (), w')"
proof -
  let ?rows = "children_of parent (db w)" and ?w0 = "w\<lparr>ticks := Suc (ticks w)\<rparr>"
  let ?b = "max_position ?rows + 1"
  have b: "0 < ?b" using max_position_ge [of ?rows] by simp
  obtain l w1 where l: "lock E ?w0 = (l, w1)" by (cases "lock E ?w0")
  with locks [of ?w0] obtain m where m: "lock E ?w0 = (Inr m, w1)"
    by (cases l) auto
  have same: "db w1 = db w" using db_sameD [OF lock m] by simp
  let ?w2 = "w1\<lparr>ticks := Suc (ticks w1)\<rparr>"
  have q: "query (children_of parent) E w1 = (Inr ?rows, ?w2)" using calm by (simp add: go_simps same)
  have inside: "i \<in> set ids" if "(i, parent, p) \<in> set (view (db w))" for i p
    using that all by (auto simp: children_ids)
  have mem: "members parent ids (view (db w))" using all by (auto simp: members_def children_ids)
  have bound: "?b + int 0 + int (length ids) < 2 ^ 63" using small len by simp
  have room: "roomy parent ?b 0 ids (view (db w))"
    unfolding roomy_def
  proof (intro allI impI disjI1)
    fix i p
    assume "(i, parent, p) \<in> set (view (db w))"
    then have "(i, p) \<in> set ?rows" by (force simp: children_of_def)
    then show "p < ?b + int 0" using max_position_upper [of "(i, p)" ?rows] by simp
  qed
  obtain seen w3 where p1: "fold_go (first_step ?b) (map fst ?rows) (enumerate 0 ids) E ?w2 = (Inr seen, w3)"
    using first_pass_runs [of E ?w2 parent ?b 0 ids "map fst ?rows"] calm ok same room mem d all b bound
    by auto
  note p1' = first_pass [OF p1 _ _ bound]
  have v3: "db_ok (db w3)" "view (db w3) = placed ?b 0 ids (view (db w))"
    using p1' ok same b by auto
  obtain w4 where p2: "for_each (enumerate 0 ids) (\<lambda>x. andThen (setpos (snd x) (int (fst x))) (\<lambda>_. ret ())) E w3 = (Inr (), w4)"
    using final_pass_runs [OF calm v3(1), of parent 0 ids] roomy_above [OF inside b] mem d
    by (auto simp: v3 members_placed)
  show ?thesis
    unfolding reorder_def Let_def
    by (rule exI, rule transaction_Inr [OF calm, where w' = w4])
      (use len small in \<open>simp add: andThen_Inr m q p1 p2 reject_run\<close>)
qed

end

section \<open>Series and assignments provide it\<close>

definition series_view :: "database \<Rightarrow> children" where
  "series_view d = map (\<lambda>s. (s_id s, s_contest_id s, s_position s)) (series_rows d)"

definition put_series :: "id \<Rightarrow> int \<Rightarrow> time \<Rightarrow> database \<Rightarrow> go_error + nat \<times> database" where
  "put_series k p t =
     update_series_rows (\<lambda>s. s_id s = k) (\<lambda>s. s\<lparr>s_position := p, s_updated_at := t\<rparr>)"

text \<open>Only positions and update stamps of series differ.\<close>

definition only_series_positions :: "database \<Rightarrow> database \<Rightarrow> bool" where
  "only_series_positions d d' \<longleftrightarrow>
     d' = d\<lparr>series_rows := series_rows d'\<rparr> \<and>
     list_all2 (\<lambda>s s'. s' = s\<lparr>s_position := s_position s', s_updated_at := s_updated_at s'\<rparr>)
       (series_rows d) (series_rows d')"

definition assignment_view :: "database \<Rightarrow> children" where
  "assignment_view d = map (\<lambda>a. (sp_id a, sp_series_id a, sp_position a)) (series_problems d)"

definition put_assignment :: "id \<Rightarrow> int \<Rightarrow> time \<Rightarrow> database \<Rightarrow> go_error + nat \<times> database" where
  "put_assignment k p t =
     update_series_problems (\<lambda>a. sp_id a = k) (\<lambda>a. a\<lparr>sp_position := p, sp_updated_at := t\<rparr>)"

definition only_assignment_positions :: "database \<Rightarrow> database \<Rightarrow> bool" where
  "only_assignment_positions d d' \<longleftrightarrow>
     d' = d\<lparr>series_problems := series_problems d'\<rparr> \<and>
     list_all2 (\<lambda>a a'. a' = a\<lparr>sp_position := sp_position a', sp_updated_at := sp_updated_at a'\<rparr>)
       (series_problems d) (series_problems d')"

lemma put_series_InrE:
  assumes "put_series k p t d = Inr (n, d')"
  shows "d' = d\<lparr>series_rows := modify (\<lambda>s. s_id s = k) (\<lambda>s. s\<lparr>s_position := p, s_updated_at := t\<rparr>) (series_rows d)\<rparr>"
  using assms by (auto simp: put_series_def update_series_rows_def elim!: with_rows_InrE update_rows_InrE)

lemma put_assignment_InrE:
  assumes "put_assignment k p t d = Inr (n, d')"
  shows "d' = d\<lparr>series_problems := modify (\<lambda>a. sp_id a = k) (\<lambda>a. a\<lparr>sp_position := p, sp_updated_at := t\<rparr>) (series_problems d)\<rparr>"
  using assms by (auto simp: put_assignment_def update_series_problems_def elim!: with_rows_InrE update_rows_InrE)

interpretation ordered_series: ordered_children series_view put_series only_series_positions
proof
  fix d and k :: id and p t n d' c q
  show "put_series k p t d = Inr (n, d') \<Longrightarrow> db_ok d \<Longrightarrow> db_ok d'"
    unfolding put_series_def by (erule update_series_rows_ok) auto
  show "put_series k p t d = Inr (n, d') \<Longrightarrow> series_view d' = moved k p (series_view d)"
    by (drule put_series_InrE) (auto simp: series_view_def moved_def modify_def)
  show "put_series k p t d = Inr (n, d') \<Longrightarrow> only_series_positions d d'"
    by (drule put_series_InrE)
      (auto simp: only_series_positions_def modify_def list_all2_conv_all_nth)
  show "only_series_positions d d"
    by (simp add: only_series_positions_def list.rel_refl)
  show "\<exists>n d'. put_series k p t d = Inr (n, d')"
    if "db_ok d" "0 \<le> p" "(k, c, q) \<in> set (series_view d)"
      "\<And>j q'. (j, c, q') \<in> set (series_view d) \<Longrightarrow> j \<noteq> k \<Longrightarrow> q' \<noteq> p"
  proof -
    have c: "s_contest_id s = c" if "s \<in> set (series_rows d)" "s_id s = k" for s
    proof -
      from \<open>(k, c, q) \<in> set (series_view d)\<close> obtain s0 where
        "s0 \<in> set (series_rows d)" "s_id s0 = k" "s_contest_id s0 = c"
        by (auto simp: series_view_def)
      moreover from this that have "s = s0" by (intro key_unique [OF \<open>db_ok d\<close>]) simp_all
      ultimately show ?thesis by simp
    qed
    have "\<not> series_clash r (s\<lparr>s_position := p, s_updated_at := t\<rparr>)"
      if "s \<in> set (series_rows d)" "s_id s = k" "r \<in> set (series_rows d)" "s_id r \<noteq> s_id s" for r s
    proof -
      have "(s_id r, c, s_position r) \<in> set (series_view d)" if "s_contest_id r = c"
        using \<open>r \<in> set (series_rows d)\<close> that by (force simp: series_view_def)
      then show ?thesis using that c [OF that(1,2)]
        \<open>\<And>j q'. (j, c, q') \<in> set (series_view d) \<Longrightarrow> j \<noteq> k \<Longrightarrow> q' \<noteq> p\<close>
        by (auto simp: series_clash_def)
    qed
    moreover have "series_check (s\<lparr>s_position := p, s_updated_at := t\<rparr>) \<and>
        series_refs d (s\<lparr>s_position := p, s_updated_at := t\<rparr>)" if "s \<in> set (series_rows d)" for s
      using series_rows.row_check [OF db_ok_tables(4) [OF \<open>db_ok d\<close>] that] \<open>0 \<le> p\<close> \<open>db_ok d\<close> that
      by (auto simp: series_check_def series_refs_def db_ok_def refs_ok_def)
    ultimately show ?thesis
      by (simp add: put_series_def update_series_rows_def update_rows_runs)
  qed
next
  show "db_ok d \<Longrightarrow> distinct (map fst (series_view d))" for d
    using db_ok_tables(4) [of d] by (simp add: series_view_def table_ok_def comp_def)
  show "db_ok d \<Longrightarrow> (i, c, q) \<in> set (series_view d) \<Longrightarrow> 0 \<le> q" for d i c q
    using series_rows.row_check [OF db_ok_tables(4)] by (auto simp: series_view_def series_check_def)
  show "only_series_positions d d1 \<Longrightarrow> only_series_positions d1 d2 \<Longrightarrow> only_series_positions d d2" for d d1 d2
  proof -
    have R: "s' = s\<lparr>s_position := s_position s', s_updated_at := s_updated_at s'\<rparr> \<Longrightarrow>
        s'' = s'\<lparr>s_position := s_position s'', s_updated_at := s_updated_at s''\<rparr> \<Longrightarrow>
        s'' = s\<lparr>s_position := s_position s'', s_updated_at := s_updated_at s''\<rparr>" for s s' s'' :: series
      by (cases s; cases s'; cases s'') simp
    assume "only_series_positions d d1" "only_series_positions d1 d2"
    then have d: "d1 = d\<lparr>series_rows := series_rows d1\<rparr>" "d2 = d1\<lparr>series_rows := series_rows d2\<rparr>"
      and l: "list_all2 (\<lambda>s s'. s' = s\<lparr>s_position := s_position s', s_updated_at := s_updated_at s'\<rparr>)
                (series_rows d) (series_rows d1)"
        "list_all2 (\<lambda>s s'. s' = s\<lparr>s_position := s_position s', s_updated_at := s_updated_at s'\<rparr>)
                (series_rows d1) (series_rows d2)"
      by (simp_all only: only_series_positions_def)
    have "d2 = d\<lparr>series_rows := series_rows d2\<rparr>"
      using d by (cases d; cases d1; cases d2) simp
    moreover note list_all2_trans [OF R l]
    ultimately show "only_series_positions d d2" by (simp only: only_series_positions_def)
  qed
qed

interpretation ordered_assignments: ordered_children assignment_view put_assignment only_assignment_positions
proof
  fix d and k :: id and p t n d' c q
  show "put_assignment k p t d = Inr (n, d') \<Longrightarrow> db_ok d \<Longrightarrow> db_ok d'"
    unfolding put_assignment_def by (erule update_series_problems_ok) auto
  show "put_assignment k p t d = Inr (n, d') \<Longrightarrow> assignment_view d' = moved k p (assignment_view d)"
    by (drule put_assignment_InrE) (auto simp: assignment_view_def moved_def modify_def)
  show "put_assignment k p t d = Inr (n, d') \<Longrightarrow> only_assignment_positions d d'"
    by (drule put_assignment_InrE)
      (auto simp: only_assignment_positions_def modify_def list_all2_conv_all_nth)
  show "only_assignment_positions d d"
    by (simp add: only_assignment_positions_def list.rel_refl)
  show "\<exists>n d'. put_assignment k p t d = Inr (n, d')"
    if "db_ok d" "0 \<le> p" "(k, c, q) \<in> set (assignment_view d)"
      "\<And>j q'. (j, c, q') \<in> set (assignment_view d) \<Longrightarrow> j \<noteq> k \<Longrightarrow> q' \<noteq> p"
  proof -
    have c: "sp_series_id a = c" if "a \<in> set (series_problems d)" "sp_id a = k" for a
    proof -
      from \<open>(k, c, q) \<in> set (assignment_view d)\<close> obtain a0 where
        "a0 \<in> set (series_problems d)" "sp_id a0 = k" "sp_series_id a0 = c"
        by (auto simp: assignment_view_def)
      moreover from this that have "a = a0" by (intro key_unique [OF \<open>db_ok d\<close>]) simp_all
      ultimately show ?thesis by simp
    qed
    have "\<not> series_problem_clash b (a\<lparr>sp_position := p, sp_updated_at := t\<rparr>)"
      if "a \<in> set (series_problems d)" "sp_id a = k" "b \<in> set (series_problems d)" "sp_id b \<noteq> sp_id a" for a b
    proof -
      have "\<not> series_problem_clash b a"
        using series_problems.no_clash [OF db_ok_tables(10) [OF \<open>db_ok d\<close>] that(3,1)] that(4) by auto
      moreover have "(sp_id b, c, sp_position b) \<in> set (assignment_view d)" if "sp_series_id b = c"
        using \<open>b \<in> set (series_problems d)\<close> that by (force simp: assignment_view_def)
      ultimately show ?thesis using that c [OF that(1,2)]
        \<open>\<And>j q'. (j, c, q') \<in> set (assignment_view d) \<Longrightarrow> j \<noteq> k \<Longrightarrow> q' \<noteq> p\<close>
        by (auto simp: series_problem_clash_def)
    qed
    moreover have "series_problem_check (a\<lparr>sp_position := p, sp_updated_at := t\<rparr>) \<and>
        series_problem_refs d (a\<lparr>sp_position := p, sp_updated_at := t\<rparr>)" if "a \<in> set (series_problems d)" for a
      using series_problems.row_check [OF db_ok_tables(10) [OF \<open>db_ok d\<close>] that] \<open>0 \<le> p\<close> \<open>db_ok d\<close> that
      by (auto simp: series_problem_check_def series_problem_refs_def db_ok_def refs_ok_def)
    ultimately show ?thesis
      by (simp add: put_assignment_def update_series_problems_def update_rows_runs)
  qed
next
  show "db_ok d \<Longrightarrow> distinct (map fst (assignment_view d))" for d
    using db_ok_tables(10) [of d] by (simp add: assignment_view_def table_ok_def comp_def)
  show "db_ok d \<Longrightarrow> (i, c, q) \<in> set (assignment_view d) \<Longrightarrow> 0 \<le> q" for d i c q
    using series_problems.row_check [OF db_ok_tables(10)]
    by (auto simp: assignment_view_def series_problem_check_def)
  show "only_assignment_positions d d1 \<Longrightarrow> only_assignment_positions d1 d2 \<Longrightarrow> only_assignment_positions d d2" for d d1 d2
  proof -
    have R: "a' = a\<lparr>sp_position := sp_position a', sp_updated_at := sp_updated_at a'\<rparr> \<Longrightarrow>
        a'' = a'\<lparr>sp_position := sp_position a'', sp_updated_at := sp_updated_at a''\<rparr> \<Longrightarrow>
        a'' = a\<lparr>sp_position := sp_position a'', sp_updated_at := sp_updated_at a''\<rparr>" for a a' a'' :: series_problem
      by (cases a; cases a'; cases a'') simp
    assume "only_assignment_positions d d1" "only_assignment_positions d1 d2"
    then have d: "d1 = d\<lparr>series_problems := series_problems d1\<rparr>" "d2 = d1\<lparr>series_problems := series_problems d2\<rparr>"
      and l: "list_all2 (\<lambda>a a'. a' = a\<lparr>sp_position := sp_position a', sp_updated_at := sp_updated_at a'\<rparr>)
                (series_problems d) (series_problems d1)"
        "list_all2 (\<lambda>a a'. a' = a\<lparr>sp_position := sp_position a', sp_updated_at := sp_updated_at a'\<rparr>)
                (series_problems d1) (series_problems d2)"
      by (simp_all only: only_assignment_positions_def)
    have "d2 = d\<lparr>series_problems := series_problems d2\<rparr>"
      using d by (cases d; cases d1; cases d2) simp
    moreover note list_all2_trans [OF R l]
    ultimately show "only_assignment_positions d d2" by (simp only: only_assignment_positions_def)
  qed
qed

text \<open>The program's reorderings are the generic one on these interfaces.\<close>

lemma series_setpos: "ordered_series.setpos = set_series_position"
  by (auto simp: fun_eq_iff ordered_series.setpos_def set_series_position_def put_series_def)

lemma assignment_setpos: "ordered_assignments.setpos = set_assignment_position"
  by (auto simp: fun_eq_iff ordered_assignments.setpos_def set_assignment_position_def put_assignment_def)

lemma series_children:
  "ordered_series.children_of k d =
     map (\<lambda>s. (s_id s, s_position s)) (filter (\<lambda>s. s_contest_id s = k) (series_rows d))"
  by (simp add: ordered_series.children_of_def series_view_def filter_map comp_def)

lemma assignment_children:
  "ordered_assignments.children_of k d =
     map (\<lambda>a. (sp_id a, sp_position a)) (filter (\<lambda>a. sp_series_id a = k) (series_problems d))"
  by (simp add: ordered_assignments.children_of_def assignment_view_def filter_map comp_def)

lemma ReorderSeries_generic:
  "ReorderSeries actor k ids =
     andThen (ManageContest actor k) (\<lambda>_.
     reorder (lock_contest k) (query (ordered_series.children_of k)) ordered_series.setpos ids)"
  by (simp add: ReorderSeries_def series_children [abs_def] series_setpos)

definition lock_series :: "id \<Rightarrow> (database, nat) go" where
  "lock_series k = exec (\<lambda>t i. update_series_rows (\<lambda>s. s_id s = k) (\<lambda>s. s\<lparr>s_id := k\<rparr>))"

lemma ReorderProblems_generic:
  "ReorderProblems actor k ids =
     andThen (Series actor k) (\<lambda>_.
     reorder (lock_series k) (query (ordered_assignments.children_of k)) ordered_assignments.setpos ids)"
  by (simp add: ReorderProblems_def assignment_children [abs_def] assignment_setpos lock_series_def)

text \<open>The locks rewrite a row to itself.\<close>

lemma locks_read: "keeps db_same (lock_contest k)" "keeps db_same (lock_series k)"
  unfolding lock_contest_def lock_series_def
  by (intro reads.keeps_exec;
      auto simp: db_same_def update_contests_def update_series_rows_def modify_id
        elim!: with_rows_InrE update_rows_InrE)+

lemma update_rows_same:
  assumes "table_ok pk chk clash rows" and "\<And>r. sel r \<Longrightarrow> upd r = r"
    and "\<And>r. r \<in> set rows \<Longrightarrow> ref r"
  shows "update_rows pk chk clash ref sel upd rows = Inr (length (filter sel rows), rows)"
proof -
  have "update_rows pk chk clash ref sel upd rows = Inr (length (filter sel rows), modify sel upd rows)"
    using assms unfolding table_ok_def by (intro update_rows_runs; simp; blast)
  moreover have "modify sel upd rows = rows" by (rule modify_id) (rule assms(2))
  ultimately show ?thesis by simp
qed

lemma locks_run:
  assumes "calm E" and "db_ok (db w)"
  shows "\<not> isl (fst (lock_contest k E w))" and "\<not> isl (fst (lock_series k E w))"
proof -
  have "\<exists>n. update_contests (\<lambda>c. c_id c = k) (\<lambda>c. c\<lparr>c_id := k\<rparr>) (db w) = Inr (n, db w)"
    unfolding update_contests_def
    by (subst update_rows_same [OF db_ok_tables(3) [OF assms(2)]]) auto
  with assms(1) show "\<not> isl (fst (lock_contest k E w))" by (auto simp: lock_contest_def go_simps)
  have "\<exists>n. update_series_rows (\<lambda>s. s_id s = k) (\<lambda>s. s\<lparr>s_id := k\<rparr>) (db w) = Inr (n, db w)"
    unfolding update_series_rows_def
    by (subst update_rows_same [OF db_ok_tables(4) [OF assms(2)]])
      (use assms(2) in \<open>auto simp: db_ok_def refs_ok_def\<close>)
  with assms(1) show "\<not> isl (fst (lock_series k E w))" by (auto simp: lock_series_def go_simps)
qed

section \<open>Properties\<close>

text \<open>
  C27: ReorderSeries, when it succeeds, was given every series of the contest exactly once, and
  leaves each at its place in the list; all other positions, all other columns but the
  update stamps, and all other tables are as before. This holds whatever the environment.
\<close>

theorem reorder_series_result:
  assumes "ReorderSeries actor k ids E w = (Inr u, w')" and "db_ok (db w)"
  shows "distinct ids \<and>
         set ids = s_id ` {s \<in> set (series_rows (db w)). s_contest_id s = k} \<and>
         (\<forall>s\<in>set (series_rows (db w')).
            (\<forall>j<length ids. s_id s = ids ! j \<longrightarrow> s_position s = int j)) \<and>
         (\<forall>s\<in>set (series_rows (db w')). s_contest_id s \<noteq> k \<longrightarrow>
            (\<exists>s0\<in>set (series_rows (db w)). s_id s0 = s_id s \<and> s_position s0 = s_position s)) \<and>
         only_series_positions (db w) (db w')"
proof -
  obtain m w1 where m: "ManageContest actor k E w = (Inr m, w1)"
    and run: "reorder (lock_contest k) (query (ordered_series.children_of k)) ordered_series.setpos ids E w1 = (Inr u, w')"
    using assms(1) unfolding ReorderSeries_generic by (auto elim!: andThen_InrE)
  have same: "db w1 = db w" using db_sameD [OF service_reads(2) m] by simp
  note r = ordered_series.reorder_InrE [OF run locks_read(1), unfolded same, OF assms(2)]
  note pos = ordered_series.reorder_positions [OF run locks_read(1), unfolded same, OF assms(2)]
  have children: "fst ` set (ordered_series.children_of k (db w)) =
      s_id ` {s \<in> set (series_rows (db w)). s_contest_id s = k}"
    by (force simp: series_children)
  have row: "(s_id s, s_contest_id s, s_position s) \<in> set (series_view d)"
    if "s \<in> set (series_rows d)" for s d using that by (simp add: series_view_def)
  have "\<exists>s0\<in>set (series_rows (db w)). s_id s0 = s_id s \<and> s_position s0 = s_position s"
    if "s \<in> set (series_rows (db w'))" "s_contest_id s \<noteq> k" for s
    using pos(2) [OF row [OF that(1)] that(2)] by (auto simp: series_view_def)
  then show ?thesis using r pos(1) [OF row] children by auto
qed

theorem reorder_series_result_witness:
  "\<exists>w'. ReorderSeries (Some author) 1 [2, 1] (sample_env 150) sample_world = (Inr (), w') \<and>
        map (\<lambda>s. (s_id s, s_position s)) (series_rows (db w')) = [(1, 1), (2, 0)] \<and>
        only_series_positions sample_db (db w')"
proof -
  let ?w = "snd (ReorderSeries (Some author) 1 [2, 1] (sample_env 150) sample_world)"
  have eval: "fst (ReorderSeries (Some author) 1 [2, 1] (sample_env 150) sample_world) = Inr ()"
    "map (\<lambda>s. (s_id s, s_position s)) (series_rows (db ?w)) = [(1, 1), (2, 0)]" by code_simp+
  then have run: "ReorderSeries (Some author) 1 [2, 1] (sample_env 150) sample_world = (Inr (), ?w)"
    by (simp only: prod_eq_iff fst_conv snd_conv simp_thms)
  have "only_series_positions (db sample_world) (db ?w)"
    using reorder_series_result [OF run] by simp
  with run eval(2) show ?thesis by (intro exI [of _ ?w]) simp
qed

text \<open>
  C28: ReorderSeries succeeds for a manager of the contest: without failures every order that
  lists each series of the contest exactly once is accepted, up to ten thousand series at
  positions of at most 2 to the 30; neither the unique index nor overflow gets in the way.
\<close>

theorem reorder_series_succeeds:
  assumes "calm E" and "db_ok (db w)" and "manage_answer (db w) actor k = Inr ()"
    and "distinct ids" and "set ids = s_id ` {s \<in> set (series_rows (db w)). s_contest_id s = k}"
    and "length ids \<le> 10000"
    and "\<forall>s\<in>set (series_rows (db w)). s_contest_id s = k \<longrightarrow> s_position s \<le> 2 ^ 30"
  shows "fst (ReorderSeries actor k ids E w) = Inr ()"
proof -
  let ?rows = "filter (\<lambda>s. s_contest_id s = k) (series_rows (db w))"
  obtain n where m: "ManageContest actor k E w = (Inr (), w\<lparr>ticks := n\<rparr>)"
    using answers_ManageContest [OF assms(1), of w actor k] assms(3) by (auto elim: answersE)
  have "distinct (map s_id ?rows)"
    using db_ok_tables(4) [OF assms(2)] by (auto simp: table_ok_def intro: distinct_filter_map)
  from distinct_card [OF this] distinct_card [OF assms(4)] assms(5)
  have len: "length (ordered_series.children_of k (db w)) = length ids"
    by (simp add: series_children)
  have small: "max_position (ordered_series.children_of k (db w)) \<le> 2 ^ 30"
    by (rule max_position_least, simp) (use assms(7) in \<open>auto simp: series_children\<close>)
  have "\<exists>w'. reorder (lock_contest k) (query (ordered_series.children_of k)) ordered_series.setpos ids E
      (w\<lparr>ticks := n\<rparr>) = (Inr (), w')"
    by (rule ordered_series.reorder_runs)
      (use assms len small locks_read locks_run in \<open>auto simp: series_children image_iff\<close>)
  with m show ?thesis by (auto simp: ReorderSeries_generic andThen_Inr)
qed

theorem reorder_series_succeeds_witness:
  "fst (ReorderSeries (Some author) 1 [2, 1] (sample_env 150) sample_world) = Inr ()"
proof (rule reorder_series_succeeds)
  show "manage_answer (db sample_world) (Some author) 1 = Inr ()" by code_simp
  show "set [2, 1] = s_id ` {s \<in> set (series_rows (db sample_world)). s_contest_id s = 1}"
    by code_simp
  show "\<forall>s\<in>set (series_rows (db sample_world)). s_contest_id s = 1 \<longrightarrow> s_position s \<le> 2 ^ 30"
    by (simp add: sample_db_def sample_series_def)
qed simp_all

text \<open>
  ReorderProblems, when it succeeds, was given every assignment of the series exactly once,
  and leaves each at its place in the list; all other positions, all other columns but the
  update stamps, and all other tables are as before. This holds whatever the environment.
\<close>

theorem reorder_problems_result:
  assumes "ReorderProblems actor k ids E w = (Inr u, w')" and "db_ok (db w)"
  shows "distinct ids \<and>
         set ids = sp_id ` {a \<in> set (series_problems (db w)). sp_series_id a = k} \<and>
         (\<forall>a\<in>set (series_problems (db w')).
            (\<forall>j<length ids. sp_id a = ids ! j \<longrightarrow> sp_position a = int j)) \<and>
         (\<forall>a\<in>set (series_problems (db w')). sp_series_id a \<noteq> k \<longrightarrow>
            (\<exists>a0\<in>set (series_problems (db w)). sp_id a0 = sp_id a \<and> sp_position a0 = sp_position a)) \<and>
         only_assignment_positions (db w) (db w')"
proof -
  obtain e w1 where e: "Series actor k E w = (Inr e, w1)"
    and run: "reorder (lock_series k) (query (ordered_assignments.children_of k)) ordered_assignments.setpos ids E w1 = (Inr u, w')"
    using assms(1) unfolding ReorderProblems_generic by (auto elim!: andThen_InrE)
  have "keeps db_same (Series actor k)" unfolding Series_def by (intro read_intros)
  from db_sameD [OF this e] have same: "db w1 = db w" by simp
  note r = ordered_assignments.reorder_InrE [OF run locks_read(2), unfolded same, OF assms(2)]
  note pos = ordered_assignments.reorder_positions [OF run locks_read(2), unfolded same, OF assms(2)]
  have children: "fst ` set (ordered_assignments.children_of k (db w)) =
      sp_id ` {a \<in> set (series_problems (db w)). sp_series_id a = k}"
    by (force simp: assignment_children)
  have row: "(sp_id a, sp_series_id a, sp_position a) \<in> set (assignment_view d)"
    if "a \<in> set (series_problems d)" for a d using that by (simp add: assignment_view_def)
  have "\<exists>a0\<in>set (series_problems (db w)). sp_id a0 = sp_id a \<and> sp_position a0 = sp_position a"
    if "a \<in> set (series_problems (db w'))" "sp_series_id a \<noteq> k" for a
    using pos(2) [OF row [OF that(1)] that(2)] by (auto simp: assignment_view_def)
  then show ?thesis using r pos(1) [OF row] children by auto
qed

theorem reorder_problems_result_witness:
  "\<exists>w'. ReorderProblems (Some author) 1 [2, 1] (sample_env 150) sample_world = (Inr (), w') \<and>
        map (\<lambda>a. (sp_id a, sp_position a)) (series_problems (db w')) = [(1, 1), (2, 0)] \<and>
        only_assignment_positions sample_db (db w')"
proof -
  let ?w = "snd (ReorderProblems (Some author) 1 [2, 1] (sample_env 150) sample_world)"
  have eval: "fst (ReorderProblems (Some author) 1 [2, 1] (sample_env 150) sample_world) = Inr ()"
    "map (\<lambda>a. (sp_id a, sp_position a)) (series_problems (db ?w)) = [(1, 1), (2, 0)]" by code_simp+
  then have run: "ReorderProblems (Some author) 1 [2, 1] (sample_env 150) sample_world = (Inr (), ?w)"
    by (simp only: prod_eq_iff fst_conv snd_conv simp_thms)
  have "only_assignment_positions (db sample_world) (db ?w)"
    using reorder_problems_result [OF run] by simp
  with run eval(2) show ?thesis by (intro exI [of _ ?w]) simp
qed

end
