(* ===== verification/Storage.thy ===== *)
theory Storage
  imports Evolution Samples "HOL-Library.Multiset"
begin

text \<open>
  The file store and the operations built on it: what a saved file holds and what Save
  leaves alone, the storage quota, archives of tests from the container to the committed
  rows, and the collection of unreferenced files.
\<close>

section \<open>Inverting the calls on the directory\<close>

lemma os_call_InrE:
  assumes "os_call E w = (Inr u, w')" obtains "db w' = db w" and "dir w' = dir w"
  using assms by (auto simp: os_call_def call_def Let_def split: if_splits)

lemma os_write_InrE:
  assumes "os_write name b E w = (Inr u, w')"
  obtains f where "dir_get name (dir w) = Some f" and "db w' = db w"
    and "dir w' = dir_put name (f\<lparr>f_data := b, f_mtime := clock E (ticks w)\<rparr>) (dir w)"
  using assms by (auto simp: os_write_def elim!: on_dir_InrE split: option.splits)

lemma os_rename_InrE:
  assumes "os_rename src dst E w = (Inr u, w')"
  obtains f where "dir_get src (dir w) = Some f" and "db w' = db w"
    and "dir w' = dir_put dst f (dir_del src (dir w))"
  using assms by (auto simp: os_rename_def elim!: on_dir_InrE split: option.splits)

lemma os_create_temp_InrE:
  assumes "os_create_temp E w = (Inr name, w')"
  obtains x where "name = upload_prefix @ x" and "dir_get name (dir w) = None" and "db w' = db w"
    and "dir w' = dir_put name \<lparr>f_data = [], f_kind = Regular, f_mtime = clock E (ticks w)\<rparr> (dir w)"
  using assms by (auto simp: os_create_temp_def Let_def elim!: on_dir_InrE split: if_splits)

lemma os_remove_snd:
  "db (snd (os_remove name E w)) = db w \<and>
   (\<forall>n. n \<noteq> name \<or> dir_get name (dir w) = None \<longrightarrow>
      dir_get n (dir (snd (os_remove name E w))) = dir_get n (dir w))"
  by (auto simp: os_remove_def on_dir_def call_def Let_def split: sum.splits)

lemma randomKey_InrE:
  assumes "randomKey E w = (Inr key, w')"
  obtains "key = hex_encode (random_bytes E (ticks w))" and "db w' = db w" and "dir w' = dir w"
  using assms by (auto simp: randomKey_def call_def Let_def split: if_splits)

text \<open>The keys of the store are never staging names.\<close>

lemma hex_not_upload: "hex_encode b \<noteq> upload_prefix @ x"
proof
  assume h: "hex_encode b = upload_prefix @ x"
  then have "b \<noteq> []" by (auto simp: upload_prefix_def)
  then obtain c s where b: "b = c # s" by (cases b) auto
  from h have "hex_digit (code c div 16) = CHR ''.''" by (simp add: b upload_prefix_def)
  then have "code (hex_digit (code c div 16)) = (46 :: nat)" by simp
  with code_nibbles [of c] show False by (simp add: code_hex_digit split: if_splits)
qed

section \<open>The bytes in use\<close>

definition counted :: "string \<times> fnode \<Rightarrow> bool" where
  "counted e \<longleftrightarrow> \<not> (f_kind (snd e) = Directory \<or> has_prefix (fst e) upload_prefix)"

definition file_size :: "string \<times> fnode \<Rightarrow> int" where
  "file_size e = int (length (f_data (snd e)))"

definition committed_bytes :: "directory \<Rightarrow> int" where
  "committed_bytes fs = (\<Sum>e\<leftarrow>filter counted fs. file_size e)"

lemma used_loop:
  assumes "fold_go (\<lambda>used entry.
        if f_kind (snd entry) = Directory \<or> has_prefix (fst entry) upload_prefix then ret used
        else andThen os_call (\<lambda>_. ret (used + int (length (f_data (snd entry)))))) n entries E w = (Inr u, w')"
  shows "u = n + committed_bytes entries \<and> db w' = db w \<and> dir w' = dir w"
  using assms
proof (induction entries arbitrary: n w)
  case Nil
  then show ?case by (auto elim!: ret_InrE simp: committed_bytes_def)
next
  case (Cons e es)
  show ?case
  proof (cases "counted e")
    case True
    with Cons.prems obtain w1 where "db w1 = db w" "dir w1 = dir w"
      "fold_go (\<lambda>used entry.
        if f_kind (snd entry) = Directory \<or> has_prefix (fst entry) upload_prefix then ret used
        else andThen os_call (\<lambda>_. ret (used + int (length (f_data (snd entry))))))
        (n + int (length (f_data (snd e)))) es E w1 = (Inr u, w')"
      by (auto simp: counted_def elim!: andThen_InrE os_call_InrE ret_InrE)
    with Cons.IH [of "n + int (length (f_data (snd e)))" w1] True
    show ?thesis by (simp add: committed_bytes_def file_size_def)
  next
    case False
    with Cons show ?thesis
      by (auto simp: counted_def committed_bytes_def elim!: andThen_InrE ret_InrE)
  qed
qed

lemma committed_sort: "committed_bytes (sort_key f fs) = committed_bytes fs"
proof -
  have "mset (map file_size (filter counted (sort_key f fs))) = mset (map file_size (filter counted fs))"
    by simp
  then show ?thesis unfolding committed_bytes_def by (metis sum_mset_sum_list)
qed

lemma used_bytes_InrE:
  assumes "used_bytes E w = (Inr u, w')"
  obtains "u = committed_bytes (dir w)" and "db w' = db w" and "dir w' = dir w"
  using assms unfolding used_bytes_def os_read_dir_def
  by (auto elim!: andThen_InrE on_dir_InrE dest!: used_loop simp: committed_sort)

lemma committed_del: "committed_bytes (dir_del n fs) \<le> committed_bytes fs"
  by (induction fs) (auto simp: committed_bytes_def dir_del_def file_size_def)

lemma committed_put:
  "f_kind f \<noteq> Directory \<Longrightarrow> \<not> has_prefix n upload_prefix \<Longrightarrow>
     committed_bytes (dir_put n f fs) = int (length (f_data f)) + committed_bytes (dir_del n fs)"
  by (simp add: committed_bytes_def dir_put_def counted_def file_size_def)

lemma committed_staging:
  "has_prefix n upload_prefix \<Longrightarrow> committed_bytes (dir_put n f fs) = committed_bytes (dir_del n fs)"
  by (simp add: committed_bytes_def dir_put_def counted_def)

lemma upload_has_prefix [simp]: "has_prefix (upload_prefix @ x) upload_prefix"
  by (simp add: has_prefix_def)

lemma hex_no_prefix: "\<not> has_prefix (hex_encode b) upload_prefix"
  by (metis append_take_drop_id has_prefix_def hex_not_upload)

section \<open>Saving a file\<close>

text \<open>The staging part, on a directory holding a fresh staging file of its own.\<close>

lemma store_staged_InrE:
  assumes "store_staged sha st k fn kind src key t E w = (Inr item, w')"
  obtains f i where "r_error src = None" and "int (length (r_bytes src)) \<le> MaxBytes st"
    and "MaxTotalBytes st > 0 \<Longrightarrow>
         committed_bytes (dir_put t f (dir w)) + int (length (r_bytes src)) \<le> MaxTotalBytes st"
    and "f_data f = r_bytes src" and "\<And>g. dir_get t (dir w) = Some g \<Longrightarrow> f_kind f = f_kind g"
    and "dir w' = dir_put key f (dir_del t (dir_put t f (dir w)))"
    and "db w' = (db w)\<lparr>artifacts := artifacts (db w) @ [item]\<rparr>"
    and "item = \<lparr>a_id = i, a_owner_id = k, a_storage_key = key, a_sha256 = hex_encode (sha (r_bytes src)),
           a_size_bytes = int (length (r_bytes src)), a_content_type = kind, a_filename = path_base fn,
           a_created_at = a_created_at item\<rparr>"
    and "\<forall>a\<in>set (artifacts (db w)). a_storage_key a \<noteq> key \<and> a_id a \<noteq> i"
proof -
  let ?row = "\<lambda>data. \<lparr>a_id = 0, a_owner_id = k, a_storage_key = key, a_sha256 = hex_encode (sha data),
                a_size_bytes = int (length data), a_content_type = kind, a_filename = path_base fn,
                a_created_at = zero_time\<rparr>"
  from assms obtain data w1 w2 w3 w4 q w5 w6 w7 r w8 u1 u2 u3 u4 u5 where
    read: "read_limited (MaxBytes st + 1) src = Inr data"
    and wr: "os_write t data E w = (Inr u1, w1)" and c1: "os_call E w1 = (Inr u2, w2)"
    and c2: "os_call E w2 = (Inr u3, w3)" and small: "\<not> int (length data) > MaxBytes st"
    and quota: "(if MaxTotalBytes st > 0
              then andThen used_bytes (\<lambda>used. reject (int (length data) > MaxTotalBytes st - used) ErrQuota)
              else ret ()) E w3 = (Inr q, w5)"
    and c3: "os_call E w5 = (Inr u4, w6)" and mv: "os_rename t key E w6 = (Inr u5, w7)"
    and ins: "exec (insert_artifact (?row data)) E w7 = (r, w8)"
    and fin: "(case r of Inl e \<Rightarrow> andThen (attempt (os_remove key)) (\<lambda>_. fail e) | Inr item \<Rightarrow> ret item) E w8
              = (Inr item, w')"
    unfolding store_staged_def Let_def
    by (elim andThen_InrE map_error_InrE of_sum_InrE ret_InrE reject_InrE attempt_InrE, hypsubst, blast)
  have data: "data = r_bytes src" "r_error src = None"
    using read_limited_short [OF read] small by auto
  obtain f where f: "dir_get t (dir w) = Some f" "db w1 = db w"
    "dir w1 = dir_put t (f\<lparr>f_data := data, f_mtime := clock E (ticks w)\<rparr>) (dir w)"
    using wr by (auto elim: os_write_InrE)
  let ?f = "f\<lparr>f_data := data, f_mtime := clock E (ticks w)\<rparr>"
  have w3: "db w3 = db w" "dir w3 = dir_put t ?f (dir w)"
    using c1 c2 f by (auto elim!: os_call_InrE)
  have w5: "db w5 = db w" "dir w5 = dir_put t ?f (dir w)"
    and room: "MaxTotalBytes st > 0 \<Longrightarrow> committed_bytes (dir_put t ?f (dir w)) + int (length data) \<le> MaxTotalBytes st"
    using quota w3 by (auto elim!: andThen_InrE used_bytes_InrE reject_InrE ret_InrE split: if_splits)
  have w6: "db w6 = db w" "dir w6 = dir_put t ?f (dir w)" using c3 w5 by (auto elim!: os_call_InrE)
  have w7: "db w7 = db w" "dir w7 = dir_put key ?f (dir_del t (dir_put t ?f (dir w)))"
    using mv w6 by (auto elim!: os_rename_InrE)
  from fin have "r = Inr item" "w' = w8"
    by (auto elim!: andThen_InrE fail_InrE ret_InrE split: sum.splits)
  with ins w7 obtain i c where "db w' = (db w)\<lparr>artifacts := artifacts (db w) @ [item]\<rparr>"
    "dir w' = dir w7" "item = (?row data)\<lparr>a_id := i, a_created_at := c\<rparr>"
    "\<forall>a\<in>set (artifacts (db w)). a_storage_key a \<noteq> key \<and> a_id a \<noteq> i"
    by (auto simp: insert_artifact_def artifact_clash_def elim!: exec_InrE with_rows_InrE insert_row_InrE)
  with data small room f w7 show thesis by (intro that [of ?f i]) auto
qed

text \<open>A saved file: its row is appended, its bytes are under its key, nothing else changes.\<close>

definition saved_file :: "(bytes \<Rightarrow> bytes) \<Rightarrow> id \<Rightarrow> string \<Rightarrow> string \<Rightarrow> bytes \<Rightarrow> database world \<Rightarrow> artifact \<Rightarrow>
    database world \<Rightarrow> bool" where
  "saved_file sha k fn kind b w item w' \<longleftrightarrow>
     db w' = (db w)\<lparr>artifacts := artifacts (db w) @ [item]\<rparr> \<and>
     (\<exists>f. dir w' = dir_put (a_storage_key item) f (dir w) \<and> f_data f = b \<and> f_kind f = Regular) \<and>
     (\<forall>a\<in>set (artifacts (db w)). a_storage_key a \<noteq> a_storage_key item \<and> a_id a \<noteq> a_id item) \<and>
     a_owner_id item = k \<and> a_sha256 item = hex_encode (sha b) \<and> a_size_bytes item = int (length b) \<and>
     a_content_type item = kind \<and> a_filename item = path_base fn"

lemma Save_InrE:
  assumes "Save sha st k fn kind src E w = (Inr item, w')"
  obtains n where "saved_file sha k fn kind (r_bytes src) w item w'"
    and "a_storage_key item = hex_encode (random_bytes E n)"
    and "r_error src = None" and "int (length (r_bytes src)) \<le> MaxBytes st"
    and "MaxTotalBytes st > 0 \<Longrightarrow> committed_bytes (dir w') \<le> MaxTotalBytes st"
proof -
  from assms obtain key t w1 w2 w3 w4 u where e: "Ensure E w = (Inr u, w1)"
    and rk: "randomKey E w1 = (Inr key, w2)" and ct: "os_create_temp E w2 = (Inr t, w3)"
    and st: "store_staged sha st k fn kind src key t E w3 = (Inr item, w4)"
    and w': "w' = snd (os_remove t E w4)"
    unfolding Save_def
    by (elim andThen_InrE map_error_InrE reject_InrE deferred_InrE, hypsubst, blast)
  have w2: "db w2 = db w" "dir w2 = dir w" and key: "key = hex_encode (random_bytes E (ticks w1))"
    using e rk by (auto simp: Ensure_def elim!: os_call_InrE randomKey_InrE)
  obtain x where x: "t = upload_prefix @ x" "dir_get t (dir w) = None" "db w3 = db w"
    "dir w3 = dir_put t \<lparr>f_data = [], f_kind = Regular, f_mtime = clock E (ticks w2)\<rparr> (dir w)"
    using ct w2 by (auto elim: os_create_temp_InrE)
  have del: "dir_del t (dir_put t f (dir w3)) = dir w" for f
    using x dir_del_none [of t "dir w"] by (simp add: dir_put_def dir_del_def)
  from st show thesis
  proof (rule store_staged_InrE)
    fix f i
    assume s: "r_error src = None" "int (length (r_bytes src)) \<le> MaxBytes st"
      "MaxTotalBytes st > 0 \<Longrightarrow>
         committed_bytes (dir_put t f (dir w3)) + int (length (r_bytes src)) \<le> MaxTotalBytes st"
      "f_data f = r_bytes src" "\<And>g. dir_get t (dir w3) = Some g \<Longrightarrow> f_kind f = f_kind g"
      "dir w4 = dir_put key f (dir_del t (dir_put t f (dir w3)))"
      "db w4 = (db w3)\<lparr>artifacts := artifacts (db w3) @ [item]\<rparr>"
      "item = \<lparr>a_id = i, a_owner_id = k, a_storage_key = key, a_sha256 = hex_encode (sha (r_bytes src)),
           a_size_bytes = int (length (r_bytes src)), a_content_type = kind, a_filename = path_base fn,
           a_created_at = a_created_at item\<rparr>"
      "\<forall>a\<in>set (artifacts (db w3)). a_storage_key a \<noteq> key \<and> a_id a \<noteq> i"
    have fields: "a_storage_key item = key" "a_id item = i" "a_owner_id item = k"
      "a_sha256 item = hex_encode (sha (r_bytes src))" "a_size_bytes item = int (length (r_bytes src))"
      "a_content_type item = kind" "a_filename item = path_base fn"
      by (subst s(8), simp)+
    have regular: "f_kind f = Regular" using s(5) x(4) by simp
    have d4: "dir w4 = dir_put key f (dir w)" using s(6) del by simp
    have "dir_get t (dir w4) = None" using x key hex_not_upload [of "random_bytes E (ticks w1)" x] by (simp add: d4)
    then have gone: "dir w' = dir w4" "db w' = db w4"
      unfolding w' by (auto simp: os_remove_def on_dir_def call_def Let_def)
    have "committed_bytes (dir w') \<le> MaxTotalBytes st" if "MaxTotalBytes st > 0"
    proof -
      have "committed_bytes (dir w') = int (length (r_bytes src)) + committed_bytes (dir_del key (dir w))"
        using regular s(4) hex_no_prefix by (simp add: gone d4 committed_put key)
      also have "\<dots> \<le> int (length (r_bytes src)) + committed_bytes (dir w)"
        using committed_del by simp
      also have "committed_bytes (dir w) = committed_bytes (dir_put t f (dir w3))"
        using x committed_staging [of t f "dir w3"] del [of f] dir_del_none [of t "dir w"]
        by (simp add: dir_put_def dir_del_def)
      finally show ?thesis using s(3) that by simp
    qed
    moreover have "saved_file sha k fn kind (r_bytes src) w item w'"
      using s(4,7,9) x(3) fields gone d4 regular by (auto simp: saved_file_def)
    ultimately show thesis using that fields(1) key s(1,2) by blast
  qed
qed

text \<open>The bytes of a file row: what Open would deliver.\<close>

definition file_of :: "database world \<Rightarrow> artifact \<Rightarrow> bytes option" where
  "file_of w a = map_option f_data (dir_get (a_storage_key a) (dir w))"

lemma file_of_simps [simp]:
  "file_of (w\<lparr>saved := ks\<rparr>) a = file_of w a" "file_of (w\<lparr>ticks := n\<rparr>) a = file_of w a"
  by (simp_all add: file_of_def)

lemma saved_file_bytes: "saved_file sha k fn kind b w item w' \<Longrightarrow> file_of w' item = Some b"
  by (auto simp: saved_file_def file_of_def)

lemma saved_file_others:
  "saved_file sha k fn kind b w item w' \<Longrightarrow> a \<in> set (artifacts (db w)) \<Longrightarrow> file_of w' a = file_of w a"
  by (auto simp: saved_file_def file_of_def)

lemma valid_hex_key: "length b = 32 \<Longrightarrow> valid_key (hex_encode b)"
  using slash_hex_encode [of b] path_base_id [of "hex_encode b"]
  by (cases b) (auto simp: valid_key_def)

section \<open>Properties of the store\<close>

text \<open>
  C32: A successful Save stored the whole source, at most MaxBytes long, under a key of no
  other row, appended one row describing it (owner, length, hash, type, base name) and left
  every other file and row alone; with a quota set, the committed files together stay within
  it. This holds whatever the environment.
\<close>

theorem save_result:
  assumes "Save sha st k fn kind src E w = (Inr item, w')"
  shows "saved_file sha k fn kind (r_bytes src) w item w' \<and> r_error src = None \<and>
         int (length (r_bytes src)) \<le> MaxBytes st \<and>
         (MaxTotalBytes st > 0 \<longrightarrow> committed_bytes (dir w') \<le> MaxTotalBytes st)"
  using assms by (rule Save_InrE) blast

theorem save_result_witness:
  "\<exists>item w'. Save (svc_sha256 sample_service) (svc_store sample_service) 2 ''a/input.txt'' ''text/plain''
       (bytes_reader ''12'') (sample_env 150) sample_world = (Inr item, w') \<and>
     a_filename item = ''input.txt'' \<and> file_of w' item = Some ''12'' \<and> committed_bytes (dir w') \<le> 1000"
proof -
  let ?r = "Save (svc_sha256 sample_service) (svc_store sample_service) 2 ''a/input.txt'' ''text/plain''
       (bytes_reader ''12'') (sample_env 150) sample_world"
  have "\<not> isl (fst ?r)" by code_simp
  then obtain item w' where run: "?r = (Inr item, w')" by (cases "fst ?r"; cases ?r) auto
  have limits: "MaxTotalBytes (svc_store sample_service) = 1000" by code_simp
  have base: "path_base ''a/input.txt'' = ''input.txt''" by code_simp
  from save_result [OF run] limits base have "a_filename item = ''input.txt''"
    "file_of w' item = Some ''12''" "committed_bytes (dir w') \<le> 1000"
    by (auto simp: saved_file_def bytes_reader_def file_of_def)
  with run show ?thesis by blast
qed

text \<open>
  What is saved can be read back: without failures, opening the row a successful Save
  returned delivers the bytes of the source, given 32 random bytes for the key.
\<close>

theorem save_open_roundtrip:
  assumes "Save sha st k fn kind src E w = (Inr item, w')" and "\<forall>n. length (random_bytes E n) = 32"
    and "calm E'"
  shows "fst (Open item E' w') = Inr (r_bytes src)"
  using assms(1)
proof (rule Save_InrE)
  fix n
  assume s: "saved_file sha k fn kind (r_bytes src) w item w'"
    and key: "a_storage_key item = hex_encode (random_bytes E n)"
  have "valid_key (a_storage_key item)" using assms(2) by (simp add: key valid_hex_key)
  moreover obtain f where "dir_get (a_storage_key item) (dir w') = Some f" "f_data f = r_bytes src"
    using saved_file_bytes [OF s] by (auto simp: file_of_def)
  ultimately show ?thesis
    using assms(3) by (simp add: Open_def on_dir_def call_def Let_def calm_def)
qed

theorem save_open_roundtrip_witness:
  "\<exists>item w'. Save (svc_sha256 sample_service) (svc_store sample_service) 2 ''input.txt'' ''text/plain''
       (bytes_reader ''12'') (sample_env 150\<lparr>random_bytes := \<lambda>n. replicate 32 CHR 0x01\<rparr>) sample_world
       = (Inr item, w') \<and> fst (Open item (sample_env 160) w') = Inr ''12''"
proof -
  let ?r = "Save (svc_sha256 sample_service) (svc_store sample_service) 2 ''input.txt'' ''text/plain''
       (bytes_reader ''12'') (sample_env 150\<lparr>random_bytes := \<lambda>n. replicate 32 CHR 0x01\<rparr>) sample_world"
  have "\<not> isl (fst ?r)" by code_simp
  then obtain item w' where run: "?r = (Inr item, w')" by (cases "fst ?r"; cases ?r) auto
  have "fst (Open item (sample_env 160) w') = Inr (r_bytes (bytes_reader ''12''))"
    by (rule save_open_roundtrip [OF run]) simp_all
  with run show ?thesis by (auto simp: bytes_reader_def)
qed

section \<open>Committing an archive\<close>

text \<open>Operations that only add files: rows are appended and the files of the old rows stay.\<close>

definition adds_files :: "database world \<Rightarrow> database world \<Rightarrow> bool" where
  "adds_files w w' \<longleftrightarrow>
     (\<exists>new. artifacts (db w') = artifacts (db w) @ new) \<and>
     (\<forall>a\<in>set (artifacts (db w)). file_of w' a = file_of w a)"

definition stored :: "database world \<Rightarrow> id \<Rightarrow> bytes \<Rightarrow> bool" where
  "stored w k b \<longleftrightarrow> (\<exists>a\<in>set (artifacts (db w)). a_id a = k \<and> file_of w a = Some b)"

lemma adds_files_refl: "db w' = db w \<Longrightarrow> dir w' = dir w \<Longrightarrow> adds_files w w'"
  by (simp add: adds_files_def file_of_def)

lemma adds_files_trans: "adds_files w w1 \<Longrightarrow> adds_files w1 w2 \<Longrightarrow> adds_files w w2"
  by (auto simp: adds_files_def)

lemma stored_kept: "stored w k b \<Longrightarrow> adds_files w w' \<Longrightarrow> stored w' k b"
  by (auto simp: stored_def adds_files_def)

lemma save_InrE:
  assumes "save s st k fn kind (bytes_reader b) E w = (Inr item, w')"
  obtains "db w' = (db w)\<lparr>artifacts := artifacts (db w) @ [item]\<rparr>"
    and "adds_files w w'" and "stored w' (a_id item) b" and "a_owner_id item = k"
proof -
  from assms obtain w1 where "Save (svc_sha256 s) st k fn kind (bytes_reader b) E w = (Inr item, w1)"
    and w': "w' = w1\<lparr>saved := saved w1 @ [a_storage_key item]\<rparr>"
    unfolding save_def by (auto elim!: andThen_InrE note_saved_InrE ret_InrE)
  from this(1) have f: "saved_file (svc_sha256 s) k fn kind b w item w1"
    by (rule Save_InrE) (simp add: bytes_reader_def)
  have "adds_files w w'"
    using f saved_file_others [OF f] by (auto simp: adds_files_def saved_file_def w')
  moreover have "stored w' (a_id item) b"
    using f saved_file_bytes [OF f] by (auto simp: stored_def saved_file_def w')
  ultimately show thesis using f by (intro that) (auto simp: saved_file_def w')
qed

text \<open>A test as the import of the pair at index i leaves it.\<close>

definition imported :: "database world \<Rightarrow> id \<Rightarrow> int \<Rightarrow> nat \<times> test_pair \<Rightarrow> test_case \<Rightarrow> bool" where
  "imported w k m x t \<longleftrightarrow>
     t_problem_revision_id t = k \<and> t_position t = wrap64 (m + 1 + int (fst x)) \<and> \<not> t_is_sample t \<and>
     stored w (t_input_artifact_id t) (tp_input (snd x)) \<and>
     stored w (t_output_artifact_id t) (tp_output (snd x))"

lemma imported_kept: "imported w k m x t \<Longrightarrow> adds_files w w' \<Longrightarrow> imported w' k m x t"
  by (auto simp: imported_def intro: stored_kept)

lemma import_pair_InrE:
  assumes "import_pair s actor k m x E w = (Inr u, w')"
  obtains new t where "db w' = (db w)\<lparr>artifacts := artifacts (db w) @ new, test_cases := test_cases (db w) @ [t]\<rparr>"
    and "adds_files w w'" and "imported w' k m x t"
proof -
  from assms obtain inp w1 out w2 t w3 where
    a: "save s (svc_store s) (actor_id actor) (tp_name (snd x) @ ''.in'') ''text/plain''
          (bytes_reader (tp_input (snd x))) E w = (Inr inp, w1)"
    and b: "save s (svc_store s) (actor_id actor) (tp_name (snd x) @ ''.out'') ''text/plain''
          (bytes_reader (tp_output (snd x))) E w1 = (Inr out, w2)"
    and c: "exec (insert_test (imported_test k m (fst x) (a_id inp) (a_id out))) E w2 = (Inr t, w')"
    unfolding import_pair_def by (elim andThen_InrE ret_InrE, hypsubst, blast)
  from a have w1: "db w1 = (db w)\<lparr>artifacts := artifacts (db w) @ [inp]\<rparr>" "adds_files w w1"
    "stored w1 (a_id inp) (tp_input (snd x))" by (auto elim: save_InrE)
  from b have w2: "db w2 = (db w1)\<lparr>artifacts := artifacts (db w1) @ [out]\<rparr>" "adds_files w1 w2"
    "stored w2 (a_id out) (tp_output (snd x))" by (auto elim: save_InrE)
  from c have w': "db w' = (db w2)\<lparr>test_cases := test_cases (db w2) @ [t]\<rparr>" "dir w' = dir w2"
    and t: "t_problem_revision_id t = k" "t_position t = wrap64 (m + 1 + int (fst x))" "\<not> t_is_sample t"
      "t_input_artifact_id t = a_id inp" "t_output_artifact_id t = a_id out"
    by (auto simp: insert_test_def imported_test_def elim!: exec_InrE with_rows_InrE insert_row_InrE)
  have last: "adds_files w2 w'" by (simp add: adds_files_def file_of_def w')
  have all: "adds_files w w'" using w1(2) w2(2) last adds_files_trans by blast
  have "imported w' k m x t"
    using t w1(3) w2(2,3) last adds_files_trans [OF w2(2) last] by (auto simp: imported_def intro: stored_kept)
  with all show thesis using w1 w2 w' by (intro that [of t "[inp, out]"]) auto
qed

lemma import_loop_pairs:
  assumes "for_each xs (import_pair s actor k m) E w = (Inr u, w')"
  obtains new ts where "db w' = (db w)\<lparr>artifacts := artifacts (db w) @ new, test_cases := test_cases (db w) @ ts\<rparr>"
    and "adds_files w w'" and "list_all2 (imported w' k m) xs ts"
  using assms
proof (induction xs arbitrary: w thesis)
  case Nil
  then show ?case by (intro Nil.prems(1) [of "[]" "[]"]) (auto elim!: ret_InrE simp: adds_files_refl)
next
  case (Cons x xs)
  from Cons.prems(2) obtain v w1 where x: "import_pair s actor k m x E w = (Inr v, w1)"
    and rest: "for_each xs (import_pair s actor k m) E w1 = (Inr u, w')"
    by (auto elim!: andThen_InrE)
  from x obtain new t where 1: "db w1 = (db w)\<lparr>artifacts := artifacts (db w) @ new, test_cases := test_cases (db w) @ [t]\<rparr>"
    "adds_files w w1" "imported w1 k m x t" by (rule import_pair_InrE)
  obtain new' ts where 2: "db w' = (db w1)\<lparr>artifacts := artifacts (db w1) @ new', test_cases := test_cases (db w1) @ ts\<rparr>"
    "adds_files w1 w'" "list_all2 (imported w' k m) xs ts"
    using Cons.IH [OF _ rest] by blast
  show ?case
    using 1 2 adds_files_trans [OF 1(2) 2(2)] imported_kept [OF 1(3) 2(2)]
    by (intro Cons.prems(1) [of "t # ts" "new @ new'"]) auto
qed

lemma fileTransaction_InrE:
  assumes "fileTransaction body E w = (Inr a, w')"
  obtains w1 where "body E (w\<lparr>saved := [], ticks := Suc (ticks w)\<rparr>) = (Inr a, w1)"
    and "db w' = db w1" and "dir w' = dir w1"
proof -
  from assms have "transaction body E (w\<lparr>saved := []\<rparr>) = (Inr a, w')"
    by (auto simp: fileTransaction_def split: prod.splits sum.splits)
  then show thesis by (rule transaction_InrE) (rule that, auto)
qed

lemma Open_InrE:
  assumes "Open item E w = (Inr b, w')"
  obtains "file_of w item = Some b" and "db w' = db w" and "dir w' = dir w"
  using assms
  by (auto simp: Open_def file_of_def fail_def elim!: on_dir_InrE split: if_splits option.splits)

text \<open>The part of a commit after the preview row is found and not yet committed.\<close>

definition commit_effect ::
  "service \<Rightarrow> id \<Rightarrow> import_preview \<Rightarrow> database world \<Rightarrow> database world \<Rightarrow> bool" where
  "commit_effect s k p w w' \<longleftrightarrow>
     (\<exists>b pairs ts new c.
        stored w (pv_artifact_id p) b \<and>
        ReadTestZIP (svc_unzip s) (bytes_reader b) (svc_limits s) = Inr pairs \<and>
        test_cases (db w') = test_cases (db w) @ ts \<and>
        list_all2 (imported w' k (last_position (revision_tests (db w) k))) (enumerate 0 pairs) ts \<and>
        artifacts (db w') = artifacts (db w) @ new \<and> adds_files w w' \<and>
        revisions (db w') = revisions (db w) \<and>
        previews (db w') = modify (\<lambda>q. pv_id q = pv_id p) (\<lambda>q. q\<lparr>pv_committed_at := Some c\<rparr>) (previews (db w)))"

lemma commit_preview_InrE:
  assumes "commit_preview s actor k p E w = (Inr u, w')"
  shows "commit_effect s k p w w'"
proof -
  from assms obtain at w1 item w2 b w3 pairs m w4 v w5 c w6 n where at: "now E w = (Inr at, w1)"
    and item: "first artifacts a_id (\<lambda>a. a_id a = pv_artifact_id p) E w1 = (Inr item, w2)"
    and b: "Open item E w2 = (Inr b, w3)"
    and pairs: "ReadTestZIP (svc_unzip s) (bytes_reader b) (svc_limits s) = Inr pairs"
    and m: "query (\<lambda>d. last_position (filter (\<lambda>t. t_problem_revision_id t = k) (test_cases d))) E w3 = (Inr m, w4)"
    and loop: "for_each (enumerate 0 pairs) (import_pair s actor k m) E w4 = (Inr v, w5)"
    and c: "now E w5 = (Inr c, w6)"
    and upd: "exec (\<lambda>t i. update_previews (\<lambda>q. pv_id q = pv_id p) (\<lambda>q. q\<lparr>pv_committed_at := Some c\<rparr>)) E w6 = (Inr n, w')"
    unfolding commit_preview_def
    by (elim andThen_InrE map_error_InrE of_sum_InrE reject_InrE ret_InrE, hypsubst, blast)
  have s1: "db w1 = db w" "dir w1 = dir w" using at by (auto elim!: now_InrE)
  have i: "item \<in> set (artifacts (db w))" "a_id item = pv_artifact_id p" "db w2 = db w" "dir w2 = dir w"
    using item s1 by (auto elim!: first_InrE dest!: first_row_Some)
  have s3: "file_of w item = Some b" "db w3 = db w" "dir w3 = dir w"
    using b i by (auto simp: file_of_def elim!: Open_InrE)
  have s4: "m = last_position (revision_tests (db w) k)" "db w4 = db w" "dir w4 = dir w"
    using m s3 by (auto simp: revision_tests_def elim!: query_InrE)
  from loop obtain new ts where
    l: "db w5 = (db w4)\<lparr>artifacts := artifacts (db w4) @ new, test_cases := test_cases (db w4) @ ts\<rparr>"
      "adds_files w4 w5" "list_all2 (imported w5 k m) (enumerate 0 pairs) ts"
    by (rule import_loop_pairs)
  have s6: "db w6 = db w5" "dir w6 = dir w5" using c by (auto elim!: now_InrE)
  have s7: "db w' = (db w6)\<lparr>previews := modify (\<lambda>q. pv_id q = pv_id p) (\<lambda>q. q\<lparr>pv_committed_at := Some c\<rparr>) (previews (db w6))\<rparr>"
    "dir w' = dir w6"
    using upd by (auto simp: update_previews_def elim!: exec_InrE with_rows_InrE update_rows_InrE)
  have last: "adds_files w5 w'" by (simp add: adds_files_def file_of_def s7 s6)
  have "adds_files w w4" using s4 by (intro adds_files_refl) simp_all
  with l(2) last have all: "adds_files w w'" using adds_files_trans by blast
  have "list_all2 (imported w' k m) (enumerate 0 pairs) ts"
    using l(3) by (rule list_all2_mono) (rule imported_kept [OF _ last])
  then show ?thesis
    unfolding commit_effect_def stored_def
    using i s3(1) pairs l(1) s4 s6 s7 all
    by (intro exI [of _ b] exI [of _ pairs] exI [of _ ts] exI [of _ new] exI [of _ c]) auto
qed

lemma CommitZIP_InrE:
  assumes "CommitZIP s actor k j E w = (Inr u, w')"
  obtains p where "p \<in> set (previews (db w))" and "pv_id p = j" and "pv_owner_id p = actor_id actor"
    and "pv_revision_id p = k" and "is_draft k (db w)"
    and "if pv_committed_at p \<noteq> None then db w' = db w \<and> dir w' = dir w else commit_effect s k p w w'"
proof -
  from assms obtain r w1 v w2 p w3 w4 where r: "Revision actor k E w = (Inr r, w1)"
    and l: "lock_draft k E (w1\<lparr>saved := [], ticks := Suc (ticks w1)\<rparr>) = (Inr v, w2)"
    and f: "first previews pv_id (\<lambda>p. pv_id p = j \<and> pv_owner_id p = actor_id actor \<and> pv_revision_id p = k) E w2 = (Inr p, w3)"
    and c: "(if pv_committed_at p \<noteq> None then ret () else commit_preview s actor k p) E w3 = (Inr u, w4)"
    and w': "db w' = db w4" "dir w' = dir w4"
    unfolding CommitZIP_def by (elim andThen_InrE fileTransaction_InrE, hypsubst?, blast)
  have s1: "db w1 = db w" "dir w1 = dir w" using db_sameD [OF content_reads(5) r] by auto
  have s2: "db w2 = db w" "dir w2 = dir w" using db_sameD [OF lock_draft_reads l] s1 by auto
  have p: "p \<in> set (previews (db w))" "pv_id p = j" "pv_owner_id p = actor_id actor" "pv_revision_id p = k"
    and s3: "db w3 = db w" "dir w3 = dir w"
    using f s2 by (auto elim!: first_InrE dest!: first_row_Some)
  have draft: "is_draft k (db w)" using lock_draft_draft [OF l] s2 by simp
  have same: "commit_effect s k p w3 w4 \<Longrightarrow> commit_effect s k p w w'"
    using s3 w' by (simp add: commit_effect_def stored_def adds_files_def file_of_def imported_def [abs_def])
  from c p draft same s3 w' show thesis
    by (intro that [of p]) (auto elim!: ret_InrE dest: commit_preview_InrE split: if_splits)
qed

text \<open>A service without quota whose archives hold one test, and an environment with short names.\<close>

definition small_service :: service where
  "small_service =
     \<lparr>svc_store = \<lparr>MaxBytes = 50, MaxTotalBytes = 0\<rparr>, svc_limits = sample_limits, svc_sha256 = \<lambda>b. [],
      svc_unzip = \<lambda>b. Inr [sample_entry ''a.in'' ''3'', sample_entry ''a.out'' ''4'']\<rparr>"

definition small_env :: env where
  "small_env =
     \<lparr>faulty = \<lambda>_. False, clock = \<lambda>_. 150, random_bytes = \<lambda>n. replicate n CHR 0x01,
      temp_suffix = \<lambda>n. [], new_id = \<lambda>n. n + 10\<rparr>"

text \<open>
  C25: A successful commit of a previewed archive was asked for by the owner of the preview,
  on the revision it was made for, while that revision is a draft. If the preview was already
  committed nothing changes at all. Otherwise the stored archive is read again and its pairs
  are appended, in the order of their names, as hidden tests with consecutive positions after
  the last one, each referring to files with exactly the bytes of the pair; rows and files
  that were there stay, no revision changes, and the preview is marked committed.
\<close>

theorem commit_appends_tests:
  assumes "CommitZIP s actor k j E w = (Inr u, w')"
  shows "\<exists>p\<in>set (previews (db w)).
           pv_id p = j \<and> pv_owner_id p = actor_id actor \<and> pv_revision_id p = k \<and> is_draft k (db w) \<and>
           (if pv_committed_at p \<noteq> None then db w' = db w \<and> dir w' = dir w else commit_effect s k p w w')"
  using assms by (rule CommitZIP_InrE) blast

theorem commit_appends_tests_witness:
  "\<exists>w'. CommitZIP small_service (Some author) 2 1 small_env sample_world = (Inr (), w') \<and>
     length (test_cases (db w')) = 4"
proof -
  let ?r = "CommitZIP small_service (Some author) 2 1 small_env sample_world"
  have "fst ?r = Inr ()" by code_simp
  then obtain w' where run: "?r = (Inr (), w')" by (cases ?r) auto
  from commit_appends_tests [OF run] obtain p where
    p: "p \<in> set (previews sample_db)" "if pv_committed_at p \<noteq> None then db w' = sample_db \<and> dir w' = dir sample_world
          else commit_effect small_service 2 p sample_world w'" by auto
  have "\<forall>p\<in>set (previews sample_db). pv_committed_at p = None" by code_simp
  with p have "commit_effect small_service 2 p sample_world w'" by auto
  then obtain b pairs ts where
    pairs: "ReadTestZIP (svc_unzip small_service) (bytes_reader b) (svc_limits small_service) = Inr pairs"
      "stored sample_world (pv_artifact_id p) b"
    and t: "test_cases (db w') = test_cases sample_db @ ts" "length (enumerate 0 pairs) = length ts"
    by (auto simp: commit_effect_def dest: list_all2_lengthD)
  from pairs(2) obtain key f where "(key, f) \<in> set (dir sample_world)" "f_data f = b"
    by (auto simp: stored_def file_of_def dir_get_def dest!: map_of_SomeD)
  moreover have "\<forall>e\<in>set (dir sample_world). f_data (snd e) = ''data''" by code_simp
  ultimately have "b = ''data''" by fastforce
  moreover have "map_sum (\<lambda>_. ()) length (ReadTestZIP (svc_unzip small_service) (bytes_reader ''data'') (svc_limits small_service)) = Inr 1"
    by code_simp
  ultimately have "length pairs = 1" using pairs(1) by simp
  moreover have "length (test_cases sample_db) = 3" by code_simp
  ultimately have "length (test_cases (db w')) = 4" using t by simp
  with run show ?thesis by blast
qed

section \<open>What is read from an archive\<close>

text \<open>
  C33: An archive within the limits is accepted exactly when every entry is a regular file
  with a flat name ending in .in or .out (in any case), no two entries share base name and
  extension, every base name has both, and the contents stay within the byte and file limits;
  and then the tests are those pairs, each once, sorted by name.
\<close>

theorem read_archive_iff:
  assumes "ImportMaxBytes limits > 0" and "ImportMaxFiles limits > 0"
    and "read_limited (ImportMaxBytes limits + 1) source = Inr archive"
    and "int (length archive) \<le> ImportMaxBytes limits" and "unzip archive = Inr entries"
  shows "ReadTestZIP unzip source limits = Inr out \<longleftrightarrow>
           archive_ok limits entries \<and> out = archive_pairs entries"
  using assms by (rule read_entries)

theorem read_archive_iff_witness:
  "ReadTestZIP (\<lambda>_. Inr sample_entries) (bytes_reader ''zip'') sample_limits =
     Inr [\<lparr>tp_name = ''a'', tp_input = ''3'', tp_output = ''4''\<rparr>,
          \<lparr>tp_name = ''b'', tp_input = ''1'', tp_output = ''2''\<rparr>] \<and>
   (\<forall>out. ReadTestZIP (\<lambda>_. Inr (tl sample_entries)) (bytes_reader ''zip'') sample_limits \<noteq> Inr out)"
proof -
  have limits: "ImportMaxBytes sample_limits > 0" "ImportMaxFiles sample_limits > 0" by code_simp+
  have source: "read_limited (ImportMaxBytes sample_limits + 1) (bytes_reader ''zip'') = Inr ''zip''"
    "int (length ''zip'') \<le> ImportMaxBytes sample_limits" by code_simp+
  note read = read_archive_iff [OF limits source]
  have "archive_ok sample_limits sample_entries" "\<not> archive_ok sample_limits (tl sample_entries)"
    "archive_pairs sample_entries = [\<lparr>tp_name = ''a'', tp_input = ''3'', tp_output = ''4''\<rparr>,
          \<lparr>tp_name = ''b'', tp_input = ''1'', tp_output = ''2''\<rparr>]" by code_simp+
  with read [of "\<lambda>_. Inr sample_entries"] read [of "\<lambda>_. Inr (tl sample_entries)"] show ?thesis
    by simp
qed

text \<open>
  The name check lets through exactly the names that stay inside one directory: not
  empty, and with neither a slash nor a backslash.
\<close>

theorem accepted_names: "validName name \<longleftrightarrow> name \<noteq> [] \<and> backslash \<notin> set name \<and> slash \<notin> set name"
  by (rule valid_name_flat)

end
