(* ===== verification/Collection.thy ===== *)
theory Collection
  imports Storage
begin

text \<open>
  The collection of unreferenced files (internal/content/files.go, Collect): which rows and
  files it may remove, whatever fails on the way.
\<close>

section \<open>Steps that spare the files of the rows\<close>

definition spares :: "database world \<Rightarrow> database world \<Rightarrow> bool" where
  "spares w w' \<longleftrightarrow>
     db w' = db w \<and>
     (\<forall>a\<in>set (artifacts (db w)). \<not> has_prefix (a_storage_key a) upload_prefix \<longrightarrow>
        dir_get (a_storage_key a) (dir w') = dir_get (a_storage_key a) (dir w))"

interpretation spares: world_order spares
  by unfold_locales (auto simp: spares_def)

definition in_use :: "database \<Rightarrow> string \<Rightarrow> bool" where
  "in_use d name \<longleftrightarrow>
     (\<exists>a\<in>set (artifacts d). a_storage_key a = name \<and> \<not> has_prefix name upload_prefix)"

lemma os_remove_spares: "\<not> in_use (db w) name \<Longrightarrow> spares w (snd (os_remove name E w))"
  using os_remove_snd [of name E w] by (auto simp: spares_def in_use_def)

lemma Remove_spares: "\<not> in_use (db w) name \<Longrightarrow> spares w (snd (Remove name E w))"
  by (auto simp: Remove_def fail_def spares.R_refl os_remove_spares)

lemma remove_existing_spares:
  assumes "\<not> in_use (db w) name"
  shows "spares w (snd (remove_existing m name E w))"
proof -
  have "spares w (snd (attempt (Remove name) E w))"
    using Remove_spares [OF assms, of E] by (auto simp: attempt_def split: prod.split)
  then show ?thesis
    unfolding remove_existing_def
    by (rule spares.andThen_after) (auto simp: ret_def fail_def spares.R_refl split: sum.split)
qed

lemma spares_on_dir:
  assumes "\<And>E n fs a fs'. f E n fs = Inr (a, fs') \<Longrightarrow> fs' = fs"
  shows "keeps spares (on_dir f)"
proof (rule spares.keeps_on_dir)
  fix E n a fs and w :: "database world"
  assume "f E n (dir w) = Inr (a, fs)"
  then have "fs = dir w" by (rule assms)
  then show "spares w (w\<lparr>dir := fs\<rparr>)" by (simp add: spares_def)
qed

lemma spares_os_call: "keeps spares os_call"
  by (simp add: keeps_def os_call_def call_def Let_def spares_def)

lemma spares_read_dir: "keeps spares os_read_dir"
  unfolding os_read_dir_def by (rule spares_on_dir) simp

lemma remove_loop_spares:
  "(\<And>item. item \<in> set items \<Longrightarrow> \<not> in_use (db w) (a_storage_key item)) \<Longrightarrow>
     spares w (snd (fold_go (\<lambda>removed item.
        andThen (remove_existing m (a_storage_key item)) (\<lambda>_. ret (Suc removed))) n items E w))"
proof (induction items arbitrary: n w)
  case Nil
  then show ?case by (simp add: ret_def spares.R_refl)
next
  case (Cons x xs)
  let ?f = "andThen (remove_existing m (a_storage_key x)) (\<lambda>_. ret (Suc n))"
  have one: "spares w (snd (?f E w))"
    using Cons.prems [of x] remove_existing_spares
    by (intro spares.andThen_after) (auto simp: ret_def spares.R_refl)
  have "spares w1 (snd (fold_go (\<lambda>removed item.
        andThen (remove_existing m (a_storage_key item)) (\<lambda>_. ret (Suc removed))) k xs E w1))"
    if "?f E w = (Inr k, w1)" for k w1
  proof -
    have "db w1 = db w" using one that by (simp add: spares_def)
    with Cons.prems show ?thesis by (intro Cons.IH) simp
  qed
  with one show ?case by (simp only: fold_go.simps) (rule spares.andThen_after)
qed

lemma orphan_step_spares:
  "keeps spares (andThen (Effects.count artifacts (\<lambda>a. a_storage_key a = name)) (\<lambda>n.
     if n \<noteq> 0 then ret k else andThen (remove_existing m name) (\<lambda>_. ret (Suc k))))"
proof (rule spares.keeps_andThen_after [OF spares.keeps_count])
  fix E w n and w' :: "database world"
  assume c: "Effects.count artifacts (\<lambda>a. a_storage_key a = name) E w = (Inr n, w')"
  show "spares w' (snd ((if n \<noteq> 0 then ret k else andThen (remove_existing m name) (\<lambda>_. ret (Suc k))) E w'))"
  proof (cases "n = 0")
    case True
    with c have "\<not> in_use (db w') name"
      by (auto simp: in_use_def filter_empty_conv elim!: count_InrE)
    then have "spares w' (snd (andThen (remove_existing m name) (\<lambda>_. ret (Suc k)) E w'))"
      by (intro spares.andThen_after remove_existing_spares) (auto simp: ret_def spares.R_refl)
    with True show ?thesis by simp
  qed (simp add: ret_def spares.R_refl)
qed

lemma collect_orphan_spares: "keeps spares (collect_orphan cutoff n entry)"
  unfolding collect_orphan_def
  by (intro spares.keeps_if spares.keeps_ret spares.keeps_andThen [OF spares_os_call] orphan_step_spares)

lemma CollectTemporary_spares: "keeps spares (CollectTemporary cutoff)"
proof -
  have remove: "keeps spares (andThen (os_remove name) (\<lambda>_. ret k))" if "has_prefix name upload_prefix"
    for name and k :: nat
  proof -
    have "spares w (snd (os_remove name E w))" for E w
      using that by (intro os_remove_spares) (simp add: in_use_def)
    then show ?thesis by (intro spares.keeps_andThen spares.keeps_ret) (simp add: keeps_def)
  qed
  have "keeps spares (if \<not> has_prefix (fst e) upload_prefix then ret k
      else andThen os_call (\<lambda>_.
             if f_kind (snd e) \<noteq> Regular \<or> \<not> f_mtime (snd e) < cutoff then ret k
             else andThen (os_remove (fst e)) (\<lambda>_. ret (Suc k))))" for e :: "string \<times> fnode" and k
    by (cases "has_prefix (fst e) upload_prefix")
      (simp_all add: spares.keeps_ret spares.keeps_andThen spares_os_call remove)
  then show ?thesis
    unfolding CollectTemporary_def
    by (intro spares.keeps_andThen spares_read_dir spares.keeps_fold_go)
qed

section \<open>The rows removed\<close>

definition files_fixed :: "database world \<Rightarrow> database world \<Rightarrow> bool" where
  "files_fixed w w' \<longleftrightarrow> dir w' = dir w"

interpretation files_fixed: world_order files_fixed
  by unfold_locales (auto simp: files_fixed_def)

lemma collect_rows_files: "keeps files_fixed (transaction (collect_rows cutoff))"
  unfolding collect_rows_def
  by (intro files_fixed.keeps_rules files_fixed.keeps_exec) (auto simp: files_fixed_def)

lemma delete_loop:
  "for_each items (\<lambda>item. andThen (exec (\<lambda>t i. delete_artifacts (\<lambda>a. a_id a = a_id item))) (\<lambda>_. ret ())) E w
     = (Inr u, w') \<Longrightarrow>
   db w' = (db w)\<lparr>artifacts := filter (\<lambda>a. a_id a \<notin> a_id ` set items) (artifacts (db w))\<rparr>"
proof (induction items arbitrary: w)
  case Nil
  then show ?case by (auto elim!: ret_InrE)
next
  case (Cons x xs)
  from Cons.prems obtain n w1 where
    one: "exec (\<lambda>t i. delete_artifacts (\<lambda>a. a_id a = a_id x)) E w = (Inr n, w1)"
    and rest: "for_each xs (\<lambda>item. andThen (exec (\<lambda>t i. delete_artifacts (\<lambda>a. a_id a = a_id item))) (\<lambda>_. ret ())) E w1
       = (Inr u, w')"
    unfolding for_each.simps by (elim andThen_InrE ret_InrE) simp
  from one have "db w1 = (db w)\<lparr>artifacts := filter (\<lambda>a. a_id a \<noteq> a_id x) (artifacts (db w))\<rparr>"
    by (auto simp: delete_artifacts_def Let_def elim!: exec_InrE split: if_splits)
  with Cons.IH [OF rest] show ?case
    by (auto intro: filter_cong)
qed

definition unused :: "time \<Rightarrow> database \<Rightarrow> artifact list" where
  "unused cutoff d = filter (\<lambda>a. a_created_at a < cutoff \<and> \<not> artifact_referenced d (a_id a)) (artifacts d)"

definition without_expired :: "time \<Rightarrow> database \<Rightarrow> database" where
  "without_expired cutoff d = d\<lparr>previews := filter (\<lambda>p. \<not> pv_expires_at p < cutoff) (previews d)\<rparr>"

definition collected :: "time \<Rightarrow> database \<Rightarrow> database" where
  "collected cutoff d =
     (without_expired cutoff d)\<lparr>artifacts :=
        filter (\<lambda>a. a_id a \<notin> a_id ` set (unused cutoff (without_expired cutoff d))) (artifacts d)\<rparr>"

lemma referenced_artifacts:
  "artifact_referenced (d\<lparr>artifacts := xs\<rparr>) k = artifact_referenced d k"
  by (simp add: artifact_referenced_def)

lemma collect_rows_InrE:
  assumes "transaction (collect_rows cutoff) E w = (Inr items, w')"
  obtains "db w' = collected cutoff (db w)" and "items = unused cutoff (without_expired cutoff (db w))"
  using assms unfolding collect_rows_def
proof (elim transaction_InrE andThen_InrE exec_InrE query_InrE ret_InrE, goal_cases)
  case (1 w1 n w2 found w3 u w4 d)
  then have "db w3 = without_expired cutoff (db w)"
    "found = unused cutoff (without_expired cutoff (db w))"
    by (auto simp: delete_previews_def without_expired_def unused_def)
  moreover have "db w4 = (db w3)\<lparr>artifacts := filter (\<lambda>a. a_id a \<notin> a_id ` set found) (artifacts (db w3))\<rparr>"
    using 1 by (intro delete_loop) simp
  ultimately show ?case
    using 1 by (intro 1(1)) (simp_all add: collected_def without_expired_def)
qed

lemma unused_not_in_use:
  assumes "db_ok d" and "item \<in> set (unused cutoff (without_expired cutoff d))"
  shows "\<not> in_use (collected cutoff d) (a_storage_key item)"
proof
  assume "in_use (collected cutoff d) (a_storage_key item)"
  then obtain a where a: "a \<in> set (artifacts d)" "a_storage_key a = a_storage_key item" "a_id a \<noteq> a_id item"
    using assms(2) by (auto simp: in_use_def collected_def)
  moreover have "item \<in> set (artifacts d)" using assms(2) by (simp add: unused_def without_expired_def)
  moreover have "\<forall>r\<in>set (artifacts d). \<forall>q\<in>set (artifacts d). artifact_clash r q \<longrightarrow> a_id r = a_id q"
    using db_ok_tables(7) [OF assms(1)] unfolding table_ok_def by blast
  ultimately show False unfolding artifact_clash_def by blast
qed

text \<open>What a collection may have done: nothing at all, or the rows and then only spare files.\<close>

lemma Collect_effect:
  assumes "Collect actor E w = (r, w')" and "db_ok (db w)"
  shows "db w' = db w \<and> dir w' = dir w \<or>
    admin actor \<and> db w' = collected (clock E (ticks w) - hour_ns) (db w) \<and>
    (\<exists>w2. db w2 = db w' \<and> dir w2 = dir w \<and> spares w2 w')"
proof (cases "admin actor")
  case False
  with assms show ?thesis by (auto simp: Collect_def andThen_def reject_def fail_def)
next
  case True
  let ?cutoff = "clock E (ticks w) - hour_ns"
  let ?w1 = "w\<lparr>ticks := Suc (ticks w)\<rparr>"
  define rest where "rest = (\<lambda>items :: artifact list.
     andThen (fold_go (\<lambda>removed item.
                andThen (remove_existing ''remove unused artifact'' (a_storage_key item)) (\<lambda>_.
                ret (Suc removed))) 0 items) (\<lambda>removed.
     andThen (CollectTemporary ?cutoff) (\<lambda>staging.
     andThen os_read_dir (\<lambda>entries.
     fold_go (collect_orphan ?cutoff) (removed + staging) entries))))"
  have run: "andThen (transaction (collect_rows ?cutoff)) rest E ?w1 = (r, w')"
    using assms(1) True by (simp add: Collect_def rest_def andThen_def reject_def ret_def now_def Let_def)
  obtain q w2 where rows: "transaction (collect_rows ?cutoff) E ?w1 = (q, w2)"
    by (cases "transaction (collect_rows ?cutoff) E ?w1")
  have dir: "dir w2 = dir w"
    using files_fixed.keepsD [OF collect_rows_files rows] by (simp add: files_fixed_def)
  show ?thesis
  proof (cases q)
    case (Inl e)
    with rows run have "w' = w2" by (auto simp: andThen_def)
    moreover have "db w2 = db w" using rows Inl transaction_Inl by fastforce
    ultimately show ?thesis using dir by simp
  next
    case (Inr items)
    from rows Inr have c: "db w2 = collected ?cutoff (db w)"
      "items = unused ?cutoff (without_expired ?cutoff (db w))"
      by (auto elim!: collect_rows_InrE)
    have free: "\<And>item. item \<in> set items \<Longrightarrow> \<not> in_use (db w2) (a_storage_key item)"
      using unused_not_in_use [OF assms(2)] by (simp add: c)
    have "spares w2 (snd (rest items E w2))"
      unfolding rest_def
    proof (rule spares.andThen_after, rule remove_loop_spares, erule free)
      fix a w3
      have "keeps spares (andThen (CollectTemporary ?cutoff) (\<lambda>staging.
          andThen os_read_dir (\<lambda>entries. fold_go (collect_orphan ?cutoff) (a + staging) entries)))"
        by (intro spares.keeps_andThen CollectTemporary_spares spares_read_dir spares.keeps_fold_go
            collect_orphan_spares)
      then show "spares w3 (snd (andThen (CollectTemporary ?cutoff) (\<lambda>staging.
          andThen os_read_dir (\<lambda>entries. fold_go (collect_orphan ?cutoff) (a + staging) entries)) E w3))"
        by (simp add: keeps_def)
    qed
    moreover have "snd (rest items E w2) = w'" using run rows Inr by (auto simp: andThen_def)
    ultimately have "spares w2 w'" by simp
    with True c dir show ?thesis by (auto simp: spares_def)
  qed
qed

section \<open>The property\<close>

text \<open>
  C24: The collection never takes a file a row still needs: whatever fails and however far it
  gets, every artifact row that is left keeps exactly its bytes, no row is made up, and a row
  that is gone was removed for an administrator, was older than the grace period, and is
  referred to by no revision, test or preview of the database that is left.
\<close>

theorem collect_spares_files:
  assumes "Collect actor E w = (r, w')" and "db_ok (db w)"
    and "\<forall>a\<in>set (artifacts (db w)). \<not> has_prefix (a_storage_key a) upload_prefix"
  shows "(\<forall>a\<in>set (artifacts (db w')). a \<in> set (artifacts (db w)) \<and> file_of w' a = file_of w a) \<and>
    (\<forall>a\<in>set (artifacts (db w)) - set (artifacts (db w')).
       admin actor \<and> a_created_at a < clock E (ticks w) - hour_ns \<and> \<not> artifact_referenced (db w') (a_id a))"
  using Collect_effect [OF assms(1,2)]
proof (elim disjE conjE exE)
  assume "db w' = db w" "dir w' = dir w"
  then show ?thesis by (simp add: file_of_def)
next
  let ?cutoff = "clock E (ticks w) - hour_ns"
  fix w2
  assume h: "admin actor" "db w' = collected ?cutoff (db w)" "db w2 = db w'" "dir w2 = dir w" "spares w2 w'"
  have "artifact_referenced (db w') k = artifact_referenced (without_expired ?cutoff (db w)) k" for k
    by (simp only: h(2) collected_def referenced_artifacts)
  then have gone: "b \<in> set (unused ?cutoff (without_expired ?cutoff (db w))) \<longleftrightarrow>
      b \<in> set (artifacts (db w)) \<and> a_created_at b < ?cutoff \<and> \<not> artifact_referenced (db w') (a_id b)" for b
    by (auto simp: unused_def) (simp_all add: without_expired_def)
  have kept: "set (artifacts (db w')) =
      {a \<in> set (artifacts (db w)). a_id a \<notin> a_id ` set (unused ?cutoff (without_expired ?cutoff (db w)))}"
    by (simp add: h(2) collected_def)
  show ?thesis
  proof (intro conjI ballI)
    fix a
    assume a: "a \<in> set (artifacts (db w'))"
    then show "a \<in> set (artifacts (db w))" by (simp add: kept)
    with assms(3) have "\<not> has_prefix (a_storage_key a) upload_prefix" by blast
    with a h(3,4,5) show "file_of w' a = file_of w a" by (simp add: spares_def file_of_def)
  next
    fix a
    assume a: "a \<in> set (artifacts (db w)) - set (artifacts (db w'))"
    then obtain b where b: "b \<in> set (unused ?cutoff (without_expired ?cutoff (db w)))" "a_id b = a_id a"
      by (auto simp: kept)
    with a have "b = a" using key_unique(5) [OF assms(2)] gone by blast
    with b h(1) show "admin actor" "a_created_at a < ?cutoff" "\<not> artifact_referenced (db w') (a_id a)"
      by (simp_all add: gone)
  qed
qed

definition two_files :: "database world" where
  "two_files = sample_world\<lparr>dir := map sample_file ''17''\<rparr>"

theorem collect_spares_files_witness:
  "\<exists>w'. Collect (Some root_user) (sample_env (2 * hour_ns)) two_files = (Inr 2, w') \<and>
     map a_id (artifacts (db w')) = [1, 2, 3, 4, 5] \<and>
     file_of w' (sample_artifact 1 CHR ''1'') = Some ''data''"
proof -
  let ?r = "Collect (Some root_user) (sample_env (2 * hour_ns)) two_files"
  have eval: "map_prod id (\<lambda>w. map a_id (artifacts (db w))) ?r = (Inr 2, [1, 2, 3, 4, 5])" by code_simp
  have "sample_artifact 1 CHR ''1'' \<in> set (artifacts (db (snd ?r)))" by code_simp
  moreover have "file_of two_files (sample_artifact 1 CHR ''1'') = Some ''data''" by code_simp
  moreover have "\<forall>a\<in>set (artifacts (db two_files)). \<not> has_prefix (a_storage_key a) upload_prefix"
    by code_simp
  moreover have "db_ok (db two_files)" by (simp add: two_files_def)
  moreover have run: "?r = (Inr 2, snd ?r)" using eval by (cases ?r) simp
  ultimately have "file_of (snd ?r) (sample_artifact 1 CHR ''1'') = Some ''data''"
    using collect_spares_files [OF run] by simp
  with run eval show ?thesis by (cases ?r) auto
qed

end
