(* ===== verification/Failures.thy ===== *)
theory Failures
  imports System Storage
begin

text \<open>
  What a failed request leaves behind: all requests but the two that commit in several
  steps change all or nothing of the database.
\<close>

section \<open>Operations that change all or nothing of the database\<close>

definition atomic :: "(database, 'a) go \<Rightarrow> bool" where
  "atomic m \<longleftrightarrow> (\<forall>E w e w'. m E w = (Inl e, w') \<longrightarrow> db w' = db w)"

named_theorems atomic_intros

lemma atomic_transaction [atomic_intros]: "atomic (transaction m)"
  by (auto simp: atomic_def dest: transaction_Inl)

lemma atomic_reads: "keeps db_same m \<Longrightarrow> atomic m"
  by (auto simp: atomic_def dest: db_sameD)

lemma atomic_exec [atomic_intros]: "atomic (exec f)"
  by (auto simp: atomic_def exec_def call_def Let_def split: if_splits sum.splits prod.splits)

lemma atomic_after: "keeps db_same m \<Longrightarrow> (\<And>a. atomic (f a)) \<Longrightarrow> atomic (andThen m f)"
  unfolding atomic_def
proof (intro allI impI)
  fix E w e w'
  assume m: "keeps db_same m" and f: "\<And>a. \<forall>E w e w'. f a E w = (Inl e, w') \<longrightarrow> db w' = db w"
    and run: "andThen m f E w = (Inl e, w')"
  from run show "db w' = db w"
  proof (rule andThen_InlE)
    assume "m E w = (Inl e, w')"
    with m show ?thesis by (auto dest: db_sameD)
  next
    fix a w1
    assume "m E w = (Inr a, w1)" "f a E w1 = (Inl e, w')"
    with m f show ?thesis by (metis db_sameD)
  qed
qed

text \<open>A last step that cannot fail.\<close>

lemma atomic_then_ret [atomic_intros]: "atomic m \<Longrightarrow> atomic (andThen m (\<lambda>a. ret (f a)))"
  by (auto simp: atomic_def ret_def elim!: andThen_InlE)

text \<open>A statement whose row count is looked at: with no row affected it changed nothing.\<close>

definition idle_at_zero :: "(time \<Rightarrow> id \<Rightarrow> database \<Rightarrow> go_error + nat \<times> database) \<Rightarrow> bool" where
  "idle_at_zero f \<longleftrightarrow> (\<forall>t i d d'. f t i d = Inr (0, d') \<longrightarrow> d' = d)"

lemma atomic_counted:
  assumes "idle_at_zero f" and "\<And>n. n \<noteq> 0 \<Longrightarrow> atomic (g n)" and "\<And>n E w e w'. n \<noteq> 0 \<Longrightarrow> g n E w \<noteq> (Inl e, w')"
  shows "atomic (andThen (exec f) (\<lambda>n. andThen (reject (n = 0) e) (\<lambda>_. g n)))"
  unfolding atomic_def
proof (intro allI impI)
  fix E w e' w'
  assume "andThen (exec f) (\<lambda>n. andThen (reject (n = 0) e) (\<lambda>_. g n)) E w = (Inl e', w')"
  then show "db w' = db w"
  proof (rule andThen_InlE)
    assume "exec f E w = (Inl e', w')"
    then show ?thesis using atomic_exec [unfolded atomic_def] by blast
  next
    fix n w1
    assume run: "exec f E w = (Inr n, w1)" and rest: "andThen (reject (n = 0) e) (\<lambda>_. g n) E w1 = (Inl e', w')"
    have n: "n = 0" "w' = w1"
      using rest assms(3) by (cases "n = 0"; auto simp: andThen_def reject_def ret_def fail_def)+
    with run assms(1) show ?thesis by (auto simp: idle_at_zero_def elim!: exec_InrE)
  qed
qed

lemma filter_not_none: "filter R xs = [] \<Longrightarrow> filter (\<lambda>x. \<not> R x) xs = xs"
  by (simp add: filter_empty_conv filter_id_conv)

lemma idle_statements:
  "idle_at_zero (\<lambda>t i. update_contests P (f t))" "idle_at_zero (\<lambda>t i. update_series_rows Q (g t))"
  "idle_at_zero (\<lambda>t i. delete_contests P)" "idle_at_zero (\<lambda>t i. delete_series Q)"
proof -
  show "idle_at_zero (\<lambda>t i. update_contests P (f t))" "idle_at_zero (\<lambda>t i. update_series_rows Q (g t))"
    by (auto simp: idle_at_zero_def update_contests_def update_series_rows_def filter_empty_conv
        modify_none elim!: with_rows_InrE update_rows_InrE)
  show "idle_at_zero (\<lambda>t i. delete_contests P)" "idle_at_zero (\<lambda>t i. delete_series Q)"
    by (auto simp: idle_at_zero_def delete_contests_def delete_series_def Let_def has_Nil filter_not_none)
qed

section \<open>The operations\<close>

definition db_fixed :: "database world \<Rightarrow> database world \<Rightarrow> bool" where
  "db_fixed w w' \<longleftrightarrow> db w' = db w"

interpretation db_fixed: world_order db_fixed
  by unfold_locales (auto simp: db_fixed_def)

lemma remove_files_fixed: "keeps db_fixed (remove_files ks)"
  unfolding remove_files_def Remove_def os_remove_def
  by (intro db_fixed.keeps_rules db_fixed.keeps_on_dir) (simp add: db_fixed_def)

lemma atomic_fileTransaction [atomic_intros]: "atomic (fileTransaction body)"
  unfolding atomic_def
proof (intro allI impI)
  fix E w e w'
  assume "fileTransaction body E w = (Inl e, w')"
  then obtain w1 where "transaction body E (w\<lparr>saved := []\<rparr>) = (Inl e, w1)"
    and w': "w' = snd (remove_files (saved w1) E w1)"
    by (auto simp: fileTransaction_def split: prod.splits sum.splits)
  then have "db w1 = db w" by (auto dest: transaction_Inl)
  moreover have "db w' = db w1"
    using remove_files_fixed [of "saved w1"] by (simp add: w' keeps_def db_fixed_def)
  ultimately show "db w' = db w" by simp
qed

lemma atomic_contests [atomic_intros]:
  "atomic (CreateContest c)" "atomic (UpdateContest c)" "atomic (DeleteContest k)"
  "atomic (CreateSeries s)" "atomic (UpdateSeries s)" "atomic (DeleteSeries k)"
proof -
  have reject: "reject b e = andThen (reject b e) (\<lambda>_. ret ())" for b e
    by (simp add: reject_def andThen_def ret_def fail_def fun_eq_iff)
  show "atomic (CreateContest c)" "atomic (CreateSeries s)"
    unfolding CreateContest_def CreateSeries_def by (intro atomic_after reads.keeps_rules atomic_exec)+
  show "atomic (UpdateContest c)" "atomic (UpdateSeries s)"
    unfolding UpdateContest_def UpdateSeries_def
    by (intro atomic_after reads.keeps_rules atomic_counted idle_statements atomic_reads; simp add: ret_def)+
  show "atomic (DeleteContest k)" "atomic (DeleteSeries k)"
    unfolding DeleteContest_def DeleteSeries_def
    by (subst reject, intro atomic_counted idle_statements atomic_reads reads.keeps_rules; simp add: ret_def)+
qed

lemma atomic_accounts [atomic_intros]:
  "atomic (CreateUser K e p n)" "atomic (CreateAdmin K e p n)" "atomic (DeleteSession k)"
proof -
  have hash: "keeps db_same (HashPassword K p)" for p
    by (auto simp: HashPassword_def keeps_def db_same_def call_def Let_def split: sum.split)
  show "atomic (CreateUser K e p n)" "atomic (CreateAdmin K e p n)"
    unfolding CreateUser_def CreateAdmin_def createUser_def by (intro atomic_after hash atomic_exec)+
  show "atomic (DeleteSession k)" unfolding DeleteSession_def by (intro atomic_intros)
qed

lemma atomic_content [atomic_intros]:
  "atomic (CreateProblem p r)" "atomic (UpdateDraftRevision r)" "atomic (PublishRevision k at)"
  "atomic (CreateDraftRevision k)" "atomic (CreateTestCase t)" "atomic (setMember actor k j role rm)"
  "atomic (SaveSeries actor s)" "atomic (Assign actor a)" "atomic (ReorderSeries actor k ids)"
  "atomic (ReorderProblems actor k ids)"
  unfolding CreateProblem_def UpdateDraftRevision_def PublishRevision_def CreateDraftRevision_def
    CreateTestCase_def setMember_def Assign_def ReorderSeries_def ReorderProblems_def reorder_def
    SaveSeries_def Let_def
  by (intro atomic_after reads.keeps_rules content_reads atomic_transaction atomic_exec; simp add: atomic_intros)+

lemma atomic_files [atomic_intros]:
  "atomic (SaveTest s actor k j i)" "atomic (DeleteTest actor k j)" "atomic (UploadPDF s actor k source)"
  "atomic (PreviewZIP s actor k source)" "atomic (CommitZIP s actor k j)"
  unfolding SaveTest_def DeleteTest_def UploadPDF_def PreviewZIP_def CommitZIP_def Let_def
  by (intro atomic_after atomic_then_ret reads.keeps_rules content_reads atomic_transaction atomic_fileTransaction)+

section \<open>The property\<close>





end
