(* ===== verification/Http.thy ===== *)
theory Http
  imports Content_Files Db_Accounts
begin

text \<open>
  Requests and responses, the identity behind a request, and the protection of requests
  that change state (internal/server/auth.go and security.go, with the token of
  handlers.go, withCSRFToken). A request is what \<^verbatim>\<open>net/http\<close> makes of the wire: the method,
  the path, headers, cookies, and what reading the body would give. Parsers of the standard library that only yield values (URLs, mail addresses,
  host and port, letter case) are the fields of a record the operations take.
\<close>

section \<open>Messages\<close>

type_synonym fields = "(string \<times> string) list"

definition get_field :: "string \<Rightarrow> fields \<Rightarrow> string" where
  "get_field k fs = (case map_of fs k of None \<Rightarrow> [] | Some v \<Rightarrow> v)"

record url =
  url_scheme :: string
  url_host :: string
  url_user :: bool
  url_path :: string
  url_query :: string
  url_fragment :: string

text \<open>
  A JSON document as the decoder sees it. Numbers keep their text; an object keeps its
  members in order, duplicates included.
\<close>

datatype json =
    JNull
  | JBool bool
  | JNumber string
  | JString string
  | JArray "json list"
  | JObject "(string \<times> json) list"

text \<open>
  What reading the body gives: nothing of use, text that stops being JSON at an offset, a JSON
  value with the offset of its end and whether nothing follows it, or a multipart upload: the
  field name of its first part, the offsets where its content starts and ends, the content,
  and what comes after it.
\<close>

datatype after_part = NoMorePart | AnotherPart | BrokenPart go_error

record upload_part =
  up_name :: string
  up_start :: int
  up_content :: reader
  up_end :: int
  up_after :: after_part

datatype body =
    NoBody
  | TooLong
  | BadJson string int
  | JsonBody json int bool
  | Multipart "upload_part option"

record http_request =
  q_method :: string
  q_path :: string
  q_params :: fields
  q_query :: fields
  q_host :: string
  q_tls :: bool
  q_remote :: string
  q_headers :: fields
  q_cookies :: fields
  q_length :: int
  q_form :: "fields option"
  q_media :: "string option"
  q_body :: body

record http_cookie =
  ck_name :: string
  ck_value :: string
  ck_max_age :: int
  ck_http_only :: bool
  ck_secure :: bool

record library =
  parse_url :: "string \<Rightarrow> url option"
  parse_address :: "string \<Rightarrow> string option"
  lower :: "string \<Rightarrow> string"
  split_host :: "string \<Rightarrow> string option"
  parse_rfc3339 :: "string \<Rightarrow> time option"
  parse_form_time :: "string \<Rightarrow> time option"
  format_attachment :: "string \<Rightarrow> string"

definition cookie :: "http_request \<Rightarrow> string \<Rightarrow> string option" where
  "cookie q name = map_of (q_cookies q) name"

definition header :: "http_request \<Rightarrow> string \<Rightarrow> string" where
  "header q name = get_field name (q_headers q)"

definition isHTMX :: "http_request \<Rightarrow> bool" where
  "isHTMX q \<longleftrightarrow> header q ''HX-Request'' = ''true''"

section \<open>Identity\<close>

definition session_cookie :: string where "session_cookie = ''session_token''"
definition csrf_cookie :: string where "csrf_cookie = ''csrf_token''"

text \<open>Any failure on the way leaves the request anonymous; an expired session is deleted.\<close>

definition GetUser :: "crypto \<Rightarrow> http_request \<Rightarrow> (database, user option) go" where
  "GetUser K q =
     (case cookie q session_cookie of
        None \<Rightarrow> ret None
      | Some token \<Rightarrow>
          if token = [] then ret None
          else
            andThen (attempt (GetSessionByToken K token)) (\<lambda>found.
            case found of
              Inl e \<Rightarrow> ret None
            | Inr session \<Rightarrow>
                andThen now (\<lambda>at.
                if at > ss_expires_at session
                then andThen (attempt (DeleteSession (ss_id session))) (\<lambda>_. ret None)
                else andThen (attempt (first users u_id (\<lambda>u. u_id u = ss_user_id session))) (\<lambda>r.
                     ret (case r of Inl e \<Rightarrow> None | Inr u \<Rightarrow> Some u)))))"

text \<open>The middleware: static files and the liveness probe are served without an identity.\<close>

definition open_path :: "http_request \<Rightarrow> bool" where
  "open_path q \<longleftrightarrow> has_prefix (q_path q) ''/static/'' \<or> q_path q = ''/live''"

definition AuthMiddleware ::
  "crypto \<Rightarrow> (user option \<Rightarrow> http_request \<Rightarrow> (database, 'r) go) \<Rightarrow> http_request \<Rightarrow> (database, 'r) go" where
  "AuthMiddleware K next q =
     (if open_path q then next None q
      else andThen (GetUser K q) (\<lambda>actor. next actor q))"

section \<open>Tokens against forged requests\<close>

definition constantTimeEqual :: "string \<Rightarrow> string \<Rightarrow> bool" where
  "constantTimeEqual a b \<longleftrightarrow> a = b"

definition generateCSRFToken :: "('d, string) go" where
  "generateCSRFToken = call (\<lambda>E n w. (Inr (hex_encode (random_bytes E n)), w))"

definition dot :: char where "dot = CHR ''.''"

definition session_value :: "http_request \<Rightarrow> string" where
  "session_value q = (case cookie q session_cookie of None \<Rightarrow> [] | Some v \<Rightarrow> v)"

definition signCSRF :: "crypto \<Rightarrow> bytes \<Rightarrow> http_request \<Rightarrow> string \<Rightarrow> string" where
  "signCSRF K key q nonce =
     nonce @ dot # hex_encode (hmac_sha256 K key (nonce @ [CHR 0x00] @ session_value q))"

definition validSignedCSRF :: "crypto \<Rightarrow> bytes \<Rightarrow> http_request \<Rightarrow> string \<Rightarrow> bool" where
  "validSignedCSRF K key q token =
     (case cut token dot of
        None \<Rightarrow> False
      | Some (nonce, _) \<Rightarrow> length nonce = 64 \<and> constantTimeEqual (signCSRF K key q nonce) token)"

definition validRequestCSRF :: "http_request \<Rightarrow> bool" where
  "validRequestCSRF q =
     (case cookie q csrf_cookie of
        None \<Rightarrow> False
      | Some v \<Rightarrow>
          if v = [] then False
          else if header q ''X-CSRF-Token'' \<noteq> [] then constantTimeEqual v (header q ''X-CSRF-Token'')
          else (case q_form q of
                  None \<Rightarrow> False
                | Some form \<Rightarrow> constantTimeEqual v (get_field ''csrf_token'' form)))"

definition week_seconds :: int where
  "week_seconds = 7 * 24 * 3600"

text \<open>
  The token a page or the API hands out: the one the request already carries when it is
  valid, otherwise a fresh one, also set as a cookie. A failing random source yields no token.
\<close>

definition fresh_csrf ::
  "crypto \<Rightarrow> bytes \<Rightarrow> bool \<Rightarrow> http_request \<Rightarrow> (database, string \<times> http_cookie list) go" where
  "fresh_csrf K key secure q =
     andThen (attempt generateCSRFToken) (\<lambda>r. case r of
       Inl e \<Rightarrow> ret ([], [])
     | Inr nonce \<Rightarrow>
         ret (signCSRF K key q nonce,
              [\<lparr>ck_name = csrf_cookie, ck_value = signCSRF K key q nonce, ck_max_age = week_seconds,
                ck_http_only = False, ck_secure = secure\<rparr>]))"

definition withCSRFToken ::
  "crypto \<Rightarrow> bytes \<Rightarrow> bool \<Rightarrow> http_request \<Rightarrow> (database, string \<times> http_cookie list) go" where
  "withCSRFToken K key secure q =
     (case cookie q csrf_cookie of
        Some v \<Rightarrow> if validSignedCSRF K key q v then ret (v, []) else fresh_csrf K key secure q
      | None \<Rightarrow> fresh_csrf K key secure q)"

section \<open>Origin and body limits\<close>

text \<open>
  Simple case folding onto ASCII, as \<^verbatim>\<open>strings.EqualFold\<close> compares with an ASCII string:
  besides the ASCII capitals, U+212A (E2 84 AA) folds to k and U+017F (C5 BF) to s. It is
  used on the names of struct fields and on hosts, which net/http only accepts in ASCII.
\<close>

fun fold_ascii :: "string \<Rightarrow> string" where
  "fold_ascii [] = []"
| "fold_ascii (c # s) =
     (if 65 \<le> code c \<and> code c \<le> 90 then byte (code c + 32) # fold_ascii s
      else case s of
             [] \<Rightarrow> c # fold_ascii s
           | d # s' \<Rightarrow>
               if code c = 197 \<and> code d = 191 then CHR ''s'' # fold_ascii s'
               else (case s' of
                       [] \<Rightarrow> c # fold_ascii s
                     | e # s'' \<Rightarrow> if code c = 226 \<and> code d = 132 \<and> code e = 170
                                  then CHR ''k'' # fold_ascii s'' else c # fold_ascii s))"

definition equal_fold :: "string \<Rightarrow> string \<Rightarrow> bool" where
  "equal_fold a b \<longleftrightarrow> fold_ascii a = fold_ascii b"

definition sameOrigin :: "library \<Rightarrow> http_request \<Rightarrow> url option \<Rightarrow> bool" where
  "sameOrigin L q publicURL =
     (let origin = trim_space (header q ''Origin'')
      in if origin = [] then True
         else case parse_url L origin of
                None \<Rightarrow> False
              | Some parsed \<Rightarrow>
                  if url_host parsed = [] \<or> url_user parsed \<or> url_path parsed \<noteq> [] \<or>
                     url_query parsed \<noteq> [] \<or> url_fragment parsed \<noteq> [] \<or>
                     (url_scheme parsed \<noteq> ''http'' \<and> url_scheme parsed \<noteq> ''https'')
                  then False
                  else
                    let want = (case publicURL of
                                  None \<Rightarrow> (q_host q, if q_tls q then ''https'' else ''http'')
                                | Some u \<Rightarrow> (url_host u, url_scheme u))
                    in url_scheme parsed = snd want \<and> equal_fold (url_host parsed) (fst want))"

record server_config =
  SecureCookies :: bool
  PublicURL :: "url option"
  MaxArtifactBytes :: int
  MaxStorageBytes :: int
  MaxImportBytes :: int
  MaxImportFiles :: int

definition body_limit :: "server_config \<Rightarrow> http_request \<Rightarrow> int" where
  "body_limit cfg q =
     (let limit = 2 ^ 20;
          revision = has_prefix (q_path q) ''/api/v1/revisions/'';
          limit = (if revision \<and> has_suffix (q_path q) ''/pdf''
                   then wrap64 (MaxArtifactBytes cfg + 65536) else limit)
      in if revision \<and> has_suffix (q_path q) ''/imports''
         then wrap64 (MaxImportBytes cfg + 65536) else limit)"

text \<open>
  \<^verbatim>\<open>http.MaxBytesReader\<close>: the read that passes the limit fails, so what ends before the limit
  is still read, and what comes later is replaced by the error.
\<close>

fun limit_body :: "int \<Rightarrow> body \<Rightarrow> body" where
  "limit_body n (BadJson m at) = (if at > n then TooLong else BadJson m at)"
| "limit_body n (JsonBody j at only) = (if at > n then TooLong else JsonBody j at False)"
| "limit_body n (Multipart (Some p)) =
     (if up_start p > n then Multipart None
      else if up_end p > n then Multipart (Some (p\<lparr>up_content := (up_content p)\<lparr>r_error := Some ErrMaxBytes\<rparr>\<rparr>))
      else Multipart (Some (p\<lparr>up_after := BrokenPart ErrMaxBytes\<rparr>)))"
| "limit_body n b = b"

definition limit_request :: "int \<Rightarrow> http_request \<Rightarrow> http_request" where
  "limit_request limit q =
     (if q_length q \<le> max 0 limit then q
      else q\<lparr>q_form := None, q_body := limit_body (max 0 limit) (q_body q)\<rparr>)"

definition safe_method :: "http_request \<Rightarrow> bool" where
  "safe_method q \<longleftrightarrow> q_method q \<in> {''GET'', ''HEAD'', ''OPTIONS''}"

definition forged :: "library \<Rightarrow> crypto \<Rightarrow> bytes \<Rightarrow> url option \<Rightarrow> http_request \<Rightarrow> bool" where
  "forged L K key publicURL q \<longleftrightarrow>
     \<not> sameOrigin L q publicURL \<or>
     (case cookie q csrf_cookie of None \<Rightarrow> True | Some v \<Rightarrow> \<not> validSignedCSRF K key q v) \<or>
     \<not> validRequestCSRF q"

definition RequestProtection ::
  "library \<Rightarrow> crypto \<Rightarrow> bytes \<Rightarrow> server_config \<Rightarrow> (http_request \<Rightarrow> (database, 'r) go) \<Rightarrow>
     (bool \<Rightarrow> 'r) \<Rightarrow> http_request \<Rightarrow> (database, 'r) go" where
  "RequestProtection L K key cfg next refuse q =
     (if safe_method q then next q
      else let q = limit_request (body_limit cfg q) q
           in if forged L K key (PublicURL cfg) q then ret (refuse (has_prefix (q_path q) ''/api/''))
              else next q)"

end
