(* ===== verification/Responses.thy ===== *)
theory Responses
  imports Http
begin

text \<open>
  Responses and what they carry (internal/server/pages.go and the helpers of handlers.go,
  auth.go and admin.go). A page is the name of its template with the data given to it, and a
  JSON value is the struct the API encodes; the theory Rendering says what is sent for them.
\<close>

record page_data =
  pd_title :: string
  pd_user :: "user option"
  pd_error :: string
  pd_mode :: string
  pd_action :: string
  pd_template :: string
  pd_csrf :: string
  pd_contest :: "contest option"
  pd_contests :: "contest list"
  pd_series :: "series list"
  pd_problems :: "problem list"
  pd_problem :: "problem option"
  pd_revision :: "revision option"
  pd_revisions :: "revision list"
  pd_tests :: "test_case list"

definition no_data :: page_data where
  "no_data =
     \<lparr>pd_title = [], pd_user = None, pd_error = [], pd_mode = [], pd_action = [], pd_template = [],
      pd_csrf = [], pd_contest = None, pd_contests = [], pd_series = [], pd_problems = [],
      pd_problem = None, pd_revision = None, pd_revisions = [], pd_tests = []\<rparr>"

datatype api_value =
    VToken string
  | VContests "contest list"
  | VContest contest
  | VMembers "membership list"
  | VSeriesList "series list"
  | VSeries series
  | VAssignments "series_problem list"
  | VAssignment series_problem
  | VProblems "problem list"
  | VProblem problem
  | VCreated problem revision
  | VRevisions "revision list"
  | VRevision revision
  | VTests "test_case list"
  | VTest test_case
  | VArtifact artifact
  | VPreview preview
  | VStatement statement
  | VRemoved nat

datatype content =
    Empty
  | Text string
  | Page string page_data
  | ContestList "contest list"
  | AccessError string
  | Json api_value
  | JsonError string string
  | Download artifact bytes

record response =
  rs_status :: nat
  rs_headers :: fields
  rs_cookies :: "http_cookie list"
  rs_content :: content

definition respond :: "nat \<Rightarrow> content \<Rightarrow> response" where
  "respond n c = \<lparr>rs_status = n, rs_headers = [], rs_cookies = [], rs_content = c\<rparr>"

text \<open>What the handlers share: the service, the token key, and the parameters of the model.\<close>

record handler =
  h_library :: library
  h_crypto :: crypto
  h_service :: service
  h_key :: bytes
  h_secure :: bool

section \<open>Plain responses\<close>

definition redirect_to :: "nat \<Rightarrow> string \<Rightarrow> response" where
  "redirect_to n target = (respond n Empty)\<lparr>rs_headers := [(''Location'', target)]\<rparr>"

definition hxRedirect :: "http_request \<Rightarrow> string \<Rightarrow> response" where
  "hxRedirect q target =
     (if isHTMX q then (respond 200 Empty)\<lparr>rs_headers := [(''HX-Redirect'', target)]\<rparr>
      else redirect_to 303 target)"

text \<open>\<^verbatim>\<open>http.Error\<close> and \<^verbatim>\<open>http.NotFound\<close>: the message as a line of plain text.\<close>

definition plain_error :: "nat \<Rightarrow> string \<Rightarrow> response" where
  "plain_error n message =
     (respond n (Text (message @ [CHR 0x0A])))\<lparr>rs_headers :=
        [(''Content-Type'', ''text/plain; charset=utf-8''), (''X-Content-Type-Options'', ''nosniff'')]\<rparr>"

definition not_found :: response where
  "not_found = plain_error 404 ''404 page not found''"

definition server_error :: "string \<Rightarrow> response" where
  "server_error message = plain_error 500 message"

definition renderAccessError :: "nat \<Rightarrow> string \<Rightarrow> response" where
  "renderAccessError n message = respond n (AccessError message)"

definition renderAdminError :: "http_request \<Rightarrow> nat \<Rightarrow> string \<Rightarrow> response" where
  "renderAdminError q n message =
     (if \<not> isHTMX q then renderAccessError n message
      else respond n (Page ''admin_error'' (no_data\<lparr>pd_error := message\<rparr>)))"

section \<open>Pages\<close>

definition render_page ::
  "handler \<Rightarrow> http_request \<Rightarrow> nat \<Rightarrow> string \<Rightarrow> page_data \<Rightarrow> (database, response) go" where
  "render_page h q n name data =
     andThen (withCSRFToken (h_crypto h) (h_key h) (h_secure h) q) (\<lambda>t.
     ret ((respond n (Page name (data\<lparr>pd_csrf := fst t\<rparr>)))\<lparr>rs_cookies := snd t\<rparr>))"

definition renderAuthError ::
  "handler \<Rightarrow> http_request \<Rightarrow> string \<Rightarrow> string \<Rightarrow> nat \<Rightarrow> (database, response) go" where
  "renderAuthError h q mode message n =
     render_page h q n (if isHTMX q then ''auth_form_content'' else ''layout'')
       (no_data\<lparr>pd_title := if mode = ''register'' then ''Register'' else ''Login'', pd_mode := mode,
                pd_action := ''/'' @ mode, pd_error := message, pd_template := ''auth_form''\<rparr>)"

section \<open>Requirements on the actor\<close>

definition RequireAuth ::
  "user option \<Rightarrow> (http_request \<Rightarrow> (database, response) go) \<Rightarrow> http_request \<Rightarrow> (database, response) go" where
  "RequireAuth actor next q =
     (if actor = None
      then ret (if isHTMX q then renderAccessError 401 ''Please log in to continue.''
                else redirect_to 303 ''/login'')
      else next q)"

definition RequireRole ::
  "string list \<Rightarrow> user option \<Rightarrow> (http_request \<Rightarrow> (database, response) go) \<Rightarrow> http_request \<Rightarrow>
     (database, response) go" where
  "RequireRole roles actor next q =
     (if case actor of None \<Rightarrow> False | Some u \<Rightarrow> u_role u \<in> set roles then next q
      else ret (renderAccessError 403 ''You do not have access to this page.''))"

end
