(* ===== verification/Sign_In.thy ===== *)
theory Sign_In
  imports Responses
begin

text \<open>
  Signing up, in and out (internal/server/handlers.go, internal/auth/credentials.go): the
  bound on attempts by source address and by account, the rules on credentials, and the
  handlers of the forms. The bound keeps its counters between requests, so the handlers that
  use it take and return them. A handler also takes whether all four work slots are busy.
\<close>

section \<open>Credentials\<close>

definition MinPasswordBytes :: nat where "MinPasswordBytes = 8"
definition MaxPasswordBytes :: nat where "MaxPasswordBytes = 72"

definition NormalizeEmail :: "library \<Rightarrow> string \<Rightarrow> go_error + string" where
  "NormalizeEmail L v =
     (let email = lower L (trim_space v)
      in case parse_address L email of
           None \<Rightarrow> Inl (ErrMessage ''enter a valid email address'')
         | Some a \<Rightarrow> if a \<noteq> email then Inl (ErrMessage ''enter a valid email address'') else Inr email)"

definition ValidatePassword :: "string \<Rightarrow> go_error + unit" where
  "ValidatePassword password =
     (if length password < MinPasswordBytes \<or> length password > MaxPasswordBytes
      then Inl (ErrMessage ''password must be between 8 and 72 UTF-8 bytes'') else Inr ())"

definition validateCredentials :: "library \<Rightarrow> string \<Rightarrow> string \<Rightarrow> go_error + unit" where
  "validateCredentials L email password =
     (case NormalizeEmail L email of Inl e \<Rightarrow> Inl e | Inr _ \<Rightarrow> ValidatePassword password)"

definition readAuthForm :: "library \<Rightarrow> http_request \<Rightarrow> (string \<times> string \<times> string) option" where
  "readAuthForm L q =
     (case q_form q of
        None \<Rightarrow> None
      | Some form \<Rightarrow> Some (lower L (trim_space (get_field ''email'' form)), get_field ''password'' form,
                          trim_space (get_field ''name'' form)))"

section \<open>The bound on attempts\<close>

record auth_attempt =
  at_count :: nat
  at_start :: time

type_synonym limiter = "(string \<times> auth_attempt) list"

definition attempt_limit :: nat where "attempt_limit = 10"
definition attempt_buckets :: int where "attempt_buckets = 10000"

definition stale :: "time \<Rightarrow> auth_attempt \<Rightarrow> bool" where
  "stale at a \<longleftrightarrow> at - at_start a \<ge> minute_ns"

definition bucket :: "time \<Rightarrow> limiter \<Rightarrow> string \<Rightarrow> auth_attempt" where
  "bucket at lim key =
     (case map_of lim key of
        None \<Rightarrow> \<lparr>at_count = 0, at_start = at\<rparr>
      | Some a \<Rightarrow> if at_start a = zero_time \<or> stale at a then \<lparr>at_count = 0, at_start = at\<rparr> else a)"

definition count_attempt :: "time \<Rightarrow> string \<Rightarrow> limiter \<Rightarrow> limiter" where
  "count_attempt at key lim =
     (key, (bucket at lim key)\<lparr>at_count := Suc (at_count (bucket at lim key))\<rparr>) #
     filter (\<lambda>e. fst e \<noteq> key) lim"

definition attempt_keys :: "library \<Rightarrow> http_request \<Rightarrow> string \<Rightarrow> string list" where
  "attempt_keys L q email =
     (let host = (case split_host L (q_remote q) of None \<Rightarrow> q_remote q | Some h \<Rightarrow> h)
      in [''ip:'' @ host, ''email:'' @ lower L (trim_space email)])"

definition allowAuthAttempt :: "time \<Rightarrow> string list \<Rightarrow> limiter \<Rightarrow> bool \<times> limiter" where
  "allowAuthAttempt at keys lim =
     (let lim = filter (\<lambda>e. \<not> stale at (snd e)) lim
      in if int (length lim) > attempt_buckets then (False, lim)
         else if \<exists>key\<in>set keys. at_count (bucket at lim key) \<ge> attempt_limit then (False, lim)
         else (True, fold (count_attempt at) keys lim))"

section \<open>Handlers\<close>

definition session_cookies :: "handler \<Rightarrow> string \<Rightarrow> http_cookie" where
  "session_cookies h token =
     \<lparr>ck_name = session_cookie, ck_value = token, ck_max_age = week_seconds, ck_http_only = True,
      ck_secure = h_secure h\<rparr>"

definition please_wait :: string where "please_wait = ''Please wait before trying again.''"

text \<open>A response that does not touch the counters.\<close>

definition with_limiter :: "limiter \<Rightarrow> (database, response) go \<Rightarrow> (database, response \<times> limiter) go" where
  "with_limiter lim m = andThen m (\<lambda>r. ret (r, lim))"

text \<open>What both forms do first; the rest of the work is given the normalised form.\<close>

definition guarded_form ::
  "handler \<Rightarrow> string \<Rightarrow> bool \<Rightarrow> limiter \<Rightarrow> http_request \<Rightarrow>
     (string \<Rightarrow> string \<Rightarrow> string \<Rightarrow> (database, response) go) \<Rightarrow> (database, response \<times> limiter) go" where
  "guarded_form h mode busy lim q work =
     (if busy then with_limiter lim (renderAuthError h q mode please_wait 429)
      else case readAuthForm (h_library h) q of
             None \<Rightarrow> with_limiter lim (renderAuthError h q mode ''invalid form submission'' 400)
           | Some (email, password, name) \<Rightarrow>
               andThen now (\<lambda>at.
               case allowAuthAttempt at (attempt_keys (h_library h) q email) lim of
                 (ok, lim) \<Rightarrow>
                   with_limiter lim
                     (if \<not> ok then renderAuthError h q mode please_wait 429
                      else work email password name)))"

definition Register :: "handler \<Rightarrow> bool \<Rightarrow> limiter \<Rightarrow> http_request \<Rightarrow> (database, response \<times> limiter) go" where
  "Register h busy lim q =
     guarded_form h ''register'' busy lim q (\<lambda>email password name.
       case validateCredentials (h_library h) email password of
         Inl e \<Rightarrow> renderAuthError h q ''register'' (error_text e) 400
       | Inr _ \<Rightarrow>
           andThen (attempt (CreateUser (h_crypto h) email password name)) (\<lambda>created.
           case created of
             Inl e \<Rightarrow>
               if IsDuplicateError e then renderAuthError h q ''register'' ''This email is already taken'' 409
               else renderAuthError h q ''register'' ''Registration failed. Please try again.'' 500
           | Inr user \<Rightarrow>
               andThen (attempt (CreateSession (h_crypto h) (u_id user))) (\<lambda>session.
               case session of
                 Inl e \<Rightarrow> ret (hxRedirect q ''/login'')
               | Inr (_, token) \<Rightarrow> ret ((hxRedirect q ''/'')\<lparr>rs_cookies := [session_cookies h token]\<rparr>))))"

definition wrong_credentials :: string where "wrong_credentials = ''Invalid email or password''"

definition Login :: "handler \<Rightarrow> bool \<Rightarrow> limiter \<Rightarrow> http_request \<Rightarrow> (database, response \<times> limiter) go" where
  "Login h busy lim q =
     guarded_form h ''login'' busy lim q (\<lambda>email password name.
       case validateCredentials (h_library h) email password of
         Inl e \<Rightarrow> renderAuthError h q ''login'' wrong_credentials 400
       | Inr _ \<Rightarrow>
           andThen (attempt (GetUserByEmail email)) (\<lambda>found.
           case found of
             Inl e \<Rightarrow> renderAuthError h q ''login'' wrong_credentials 401
           | Inr user \<Rightarrow>
               if \<not> CheckPassword (h_crypto h) password (u_password_hash user)
               then renderAuthError h q ''login'' wrong_credentials 401
               else
                 andThen (attempt (CreateSession (h_crypto h) (u_id user))) (\<lambda>session.
                 case session of
                   Inl e \<Rightarrow> renderAuthError h q ''login'' ''Login failed. Please try again.'' 500
                 | Inr (_, token) \<Rightarrow> ret ((hxRedirect q ''/'')\<lparr>rs_cookies := [session_cookies h token]\<rparr>))))"

definition Logout :: "handler \<Rightarrow> http_request \<Rightarrow> (database, response) go" where
  "Logout h q =
     andThen (case cookie q session_cookie of
                None \<Rightarrow> ret ()
              | Some token \<Rightarrow>
                  andThen (attempt (GetSessionByToken (h_crypto h) token)) (\<lambda>found.
                  case found of
                    Inl e \<Rightarrow> ret ()
                  | Inr session \<Rightarrow> andThen (attempt (DeleteSession (ss_id session))) (\<lambda>_. ret ()))) (\<lambda>_.
     ret ((hxRedirect q ''/'')\<lparr>rs_cookies :=
            [\<lparr>ck_name = session_cookie, ck_value = [], ck_max_age = -1, ck_http_only = True,
              ck_secure = h_secure h\<rparr>]\<rparr>))"

section \<open>Plain pages\<close>

definition Health :: "(database, response) go" where
  "Health =
     andThen (attempt (query (\<lambda>_. ()))) (\<lambda>ping.
     ret (case ping of Inl e \<Rightarrow> respond 503 (Text ''not ready'') | Inr _ \<Rightarrow> respond 200 (Text ''ok'')))"

definition Home :: "handler \<Rightarrow> user option \<Rightarrow> http_request \<Rightarrow> (database, response) go" where
  "Home h actor q =
     render_page h q 200 ''layout'' (no_data\<lparr>pd_title := ''Home'', pd_user := actor, pd_template := ''home''\<rparr>)"

definition LoginPage :: "handler \<Rightarrow> http_request \<Rightarrow> (database, response) go" where
  "LoginPage h q =
     render_page h q 200 ''layout''
       (no_data\<lparr>pd_title := ''Login'', pd_mode := ''login'', pd_action := ''/login'', pd_template := ''auth_form''\<rparr>)"

definition RegisterPage :: "handler \<Rightarrow> http_request \<Rightarrow> (database, response) go" where
  "RegisterPage h q =
     render_page h q 200 ''layout''
       (no_data\<lparr>pd_title := ''Register'', pd_mode := ''register'', pd_action := ''/register'',
                pd_template := ''auth_form''\<rparr>)"

end
