(* ===== verification/Api_Json.thy ===== *)
theory Api_Json
  imports Responses
begin

text \<open>
  Decoding the bodies of the API into the structs of internal/server/api.go by the rules of
  \<^verbatim>\<open>encoding/json\<close> with unknown fields disallowed, and encoding the language lists. A member
  sets the field of its name, exact or up to letter case; the last of several wins; \<^verbatim>\<open>null\<close>
  clears a pointer or slice and leaves any other field alone; numbers must be integers in
  range. Texts of decoding errors are abbreviated.
\<close>

section \<open>Values\<close>

definition type_error :: go_error where
  "type_error = ErrMessage ''json: cannot unmarshal value''"

definition dec_string :: "json \<Rightarrow> string \<Rightarrow> go_error + string" where
  "dec_string j old = (case j of JNull \<Rightarrow> Inr old | JString s \<Rightarrow> Inr s | _ \<Rightarrow> Inl type_error)"

definition dec_bool :: "json \<Rightarrow> bool \<Rightarrow> go_error + bool" where
  "dec_bool j old = (case j of JNull \<Rightarrow> Inr old | JBool b \<Rightarrow> Inr b | _ \<Rightarrow> Inl type_error)"

definition or_error :: "'a option \<Rightarrow> go_error + 'a" where
  "or_error x = (case x of None \<Rightarrow> Inl type_error | Some a \<Rightarrow> Inr a)"

definition dec_int :: "json \<Rightarrow> int \<Rightarrow> go_error + int" where
  "dec_int j old =
     (case j of JNull \<Rightarrow> Inr old | JNumber t \<Rightarrow> or_error (parse_int64 t) | _ \<Rightarrow> Inl type_error)"

definition dec_uint :: "json \<Rightarrow> nat \<Rightarrow> go_error + nat" where
  "dec_uint j old =
     (case j of JNull \<Rightarrow> Inr old | JNumber t \<Rightarrow> or_error (parse_uint64 t) | _ \<Rightarrow> Inl type_error)"

definition dec_int_ptr :: "json \<Rightarrow> go_error + int option" where
  "dec_int_ptr j = (if j = JNull then Inr None else map_sum id Some (dec_int j 0))"

definition dec_time_ptr :: "library \<Rightarrow> json \<Rightarrow> go_error + time option" where
  "dec_time_ptr L j =
     (case j of
        JNull \<Rightarrow> Inr None
      | JString s \<Rightarrow> map_sum id Some (or_error (parse_rfc3339 L s))
      | _ \<Rightarrow> Inl type_error)"

fun dec_elements :: "(json \<Rightarrow> go_error + 'a) \<Rightarrow> json list \<Rightarrow> go_error + 'a list" where
  "dec_elements f [] = Inr []"
| "dec_elements f (j # js) =
     (case f j of
        Inl e \<Rightarrow> Inl e
      | Inr a \<Rightarrow> map_sum id ((#) a) (dec_elements f js))"

text \<open>A slice; \<^verbatim>\<open>None\<close> is the nil slice.\<close>

definition dec_slice :: "(json \<Rightarrow> go_error + 'a) \<Rightarrow> json \<Rightarrow> go_error + 'a list option" where
  "dec_slice f j =
     (case j of JNull \<Rightarrow> Inr None | JArray js \<Rightarrow> map_sum id Some (dec_elements f js) | _ \<Rightarrow> Inl type_error)"

section \<open>Structs\<close>

text \<open>A field is its name and how a value for it changes the struct.\<close>

type_synonym 'a field = "string \<times> (json \<Rightarrow> 'a \<Rightarrow> go_error + 'a)"

definition setter ::
  "('b \<Rightarrow> 'a \<Rightarrow> 'a) \<Rightarrow> (json \<Rightarrow> go_error + 'b) \<Rightarrow> json \<Rightarrow> 'a \<Rightarrow> go_error + 'a" where
  "setter upd dec j a = map_sum id (\<lambda>b. upd b a) (dec j)"

text \<open>A field whose old value stays when the member is \<^verbatim>\<open>null\<close>.\<close>

definition set_with ::
  "(json \<Rightarrow> 'b \<Rightarrow> go_error + 'b) \<Rightarrow> ('a \<Rightarrow> 'b) \<Rightarrow> ('b \<Rightarrow> 'a \<Rightarrow> 'a) \<Rightarrow> json \<Rightarrow> 'a \<Rightarrow> go_error + 'a" where
  "set_with dec old upd j a = map_sum id (\<lambda>b. upd b a) (dec j (old a))"

definition find_field :: "'a field list \<Rightarrow> string \<Rightarrow> (json \<Rightarrow> 'a \<Rightarrow> go_error + 'a) option" where
  "find_field fs name =
     (case map_of fs name of
        Some f \<Rightarrow> Some f
      | None \<Rightarrow> map_option snd (find (\<lambda>f. equal_fold (fst f) name) fs))"

fun dec_members :: "'a field list \<Rightarrow> (string \<times> json) list \<Rightarrow> 'a \<Rightarrow> go_error + 'a" where
  "dec_members fs [] a = Inr a"
| "dec_members fs ((name, j) # ms) a =
     (case find_field fs name of
        None \<Rightarrow> Inl (ErrMessage ''json: unknown field'')
      | Some f \<Rightarrow> (case f j a of Inl e \<Rightarrow> Inl e | Inr a' \<Rightarrow> dec_members fs ms a'))"

definition dec_struct :: "'a field list \<Rightarrow> 'a \<Rightarrow> json \<Rightarrow> go_error + 'a" where
  "dec_struct fs zero j =
     (case j of JNull \<Rightarrow> Inr zero | JObject ms \<Rightarrow> dec_members fs ms zero | _ \<Rightarrow> Inl type_error)"

section \<open>The inputs of the API\<close>

record contest_input =
  ci_title :: string
  ci_description :: string
  ci_visibility :: string
  ci_start_at :: "time option"
  ci_end_at :: "time option"

definition contest_input_fields :: "library \<Rightarrow> contest_input field list" where
  "contest_input_fields L =
     [(''title'', set_with dec_string ci_title (\<lambda>v a. a\<lparr>ci_title := v\<rparr>)),
      (''description'', set_with dec_string ci_description (\<lambda>v a. a\<lparr>ci_description := v\<rparr>)),
      (''visibility'', set_with dec_string ci_visibility (\<lambda>v a. a\<lparr>ci_visibility := v\<rparr>)),
      (''start_at'', setter (\<lambda>v a. a\<lparr>ci_start_at := v\<rparr>) (dec_time_ptr L)),
      (''end_at'', setter (\<lambda>v a. a\<lparr>ci_end_at := v\<rparr>) (dec_time_ptr L))]"

definition no_contest_input :: contest_input where
  "no_contest_input =
     \<lparr>ci_title = [], ci_description = [], ci_visibility = [], ci_start_at = None,
      ci_end_at = None\<rparr>"

record member_input =
  mi_user_id :: nat
  mi_role :: string

definition member_input_fields :: "member_input field list" where
  "member_input_fields =
     [(''user_id'', set_with dec_uint mi_user_id (\<lambda>v a. a\<lparr>mi_user_id := v\<rparr>)),
      (''role'', set_with dec_string mi_role (\<lambda>v a. a\<lparr>mi_role := v\<rparr>))]"

definition no_member_input :: member_input where
  "no_member_input =
     \<lparr>mi_user_id = 0, mi_role = []\<rparr>"

record series_input =
  si_title :: string
  si_position :: int
  si_start_at :: "time option"
  si_end_at :: "time option"
  si_release_at :: "time option"

definition series_input_fields :: "library \<Rightarrow> series_input field list" where
  "series_input_fields L =
     [(''title'', set_with dec_string si_title (\<lambda>v a. a\<lparr>si_title := v\<rparr>)),
      (''position'', set_with dec_int si_position (\<lambda>v a. a\<lparr>si_position := v\<rparr>)),
      (''start_at'', setter (\<lambda>v a. a\<lparr>si_start_at := v\<rparr>) (dec_time_ptr L)),
      (''end_at'', setter (\<lambda>v a. a\<lparr>si_end_at := v\<rparr>) (dec_time_ptr L)),
      (''release_at'', setter (\<lambda>v a. a\<lparr>si_release_at := v\<rparr>) (dec_time_ptr L))]"

definition no_series_input :: series_input where
  "no_series_input =
     \<lparr>si_title = [], si_position = 0, si_start_at = None, si_end_at = None,
      si_release_at = None\<rparr>"

record order_input =
  oi_ids :: "id list option"

definition order_input_fields :: "order_input field list" where
  "order_input_fields =
     [(''ids'', setter (\<lambda>v a. a\<lparr>oi_ids := v\<rparr>) (dec_slice (\<lambda>j. dec_uint j 0)))]"

definition no_order_input :: order_input where
  "no_order_input =
     \<lparr>oi_ids = None\<rparr>"

record assign_input =
  ai_revision_id :: nat
  ai_code :: string
  ai_position :: int

definition assign_input_fields :: "assign_input field list" where
  "assign_input_fields =
     [(''revision_id'', set_with dec_uint ai_revision_id (\<lambda>v a. a\<lparr>ai_revision_id := v\<rparr>)),
      (''code'', set_with dec_string ai_code (\<lambda>v a. a\<lparr>ai_code := v\<rparr>)),
      (''position'', set_with dec_int ai_position (\<lambda>v a. a\<lparr>ai_position := v\<rparr>))]"

definition no_assign_input :: assign_input where
  "no_assign_input =
     \<lparr>ai_revision_id = 0, ai_code = [], ai_position = 0\<rparr>"

record problem_input =
  pi_title :: string
  pi_code :: string
  pi_statement :: string
  pi_languages :: "string list option"
  pi_checker :: string

definition problem_input_fields :: "problem_input field list" where
  "problem_input_fields =
     [(''title'', set_with dec_string pi_title (\<lambda>v a. a\<lparr>pi_title := v\<rparr>)),
      (''code'', set_with dec_string pi_code (\<lambda>v a. a\<lparr>pi_code := v\<rparr>)),
      (''statement'', set_with dec_string pi_statement (\<lambda>v a. a\<lparr>pi_statement := v\<rparr>)),
      (''languages'', setter (\<lambda>v a. a\<lparr>pi_languages := v\<rparr>) (dec_slice (\<lambda>j. dec_string j []))),
      (''checker'', set_with dec_string pi_checker (\<lambda>v a. a\<lparr>pi_checker := v\<rparr>))]"

definition no_problem_input :: problem_input where
  "no_problem_input =
     \<lparr>pi_title = [], pi_code = [], pi_statement = [], pi_languages = None, pi_checker =
      []\<rparr>"

record problem_update =
  pu_title :: string
  pu_code :: string

definition problem_update_fields :: "problem_update field list" where
  "problem_update_fields =
     [(''title'', set_with dec_string pu_title (\<lambda>v a. a\<lparr>pu_title := v\<rparr>)),
      (''code'', set_with dec_string pu_code (\<lambda>v a. a\<lparr>pu_code := v\<rparr>))]"

definition no_problem_update :: problem_update where
  "no_problem_update =
     \<lparr>pu_title = [], pu_code = []\<rparr>"

record revision_input =
  ri_statement :: string
  ri_languages :: "string list option"
  ri_checker :: string
  ri_time_limit_millis :: "int option"
  ri_memory_limit_kib :: "int option"

definition revision_input_fields :: "revision_input field list" where
  "revision_input_fields =
     [(''statement'', set_with dec_string ri_statement (\<lambda>v a. a\<lparr>ri_statement := v\<rparr>)),
      (''languages'', setter (\<lambda>v a. a\<lparr>ri_languages := v\<rparr>) (dec_slice (\<lambda>j. dec_string j []))),
      (''checker'', set_with dec_string ri_checker (\<lambda>v a. a\<lparr>ri_checker := v\<rparr>)),
      (''time_limit_millis'', setter (\<lambda>v a. a\<lparr>ri_time_limit_millis := v\<rparr>) dec_int_ptr),
      (''memory_limit_kib'', setter (\<lambda>v a. a\<lparr>ri_memory_limit_kib := v\<rparr>) dec_int_ptr)]"

definition no_revision_input :: revision_input where
  "no_revision_input =
     \<lparr>ri_statement = [], ri_languages = None, ri_checker = [], ri_time_limit_millis =
      None, ri_memory_limit_kib = None\<rparr>"

definition test_input_fields :: "test_input field list" where
  "test_input_fields =
     [(''position'', set_with dec_int ti_position (\<lambda>v a. a\<lparr>ti_position := v\<rparr>)),
      (''is_sample'', set_with dec_bool ti_is_sample (\<lambda>v a. a\<lparr>ti_is_sample := v\<rparr>)),
      (''points'', setter (\<lambda>v a. a\<lparr>ti_points := v\<rparr>) dec_int_ptr),
      (''time_limit_override_millis'', setter (\<lambda>v a. a\<lparr>ti_time_limit_override_millis := v\<rparr>) dec_int_ptr),
      (''input'', set_with dec_string ti_input (\<lambda>v a. a\<lparr>ti_input := v\<rparr>)),
      (''output'', set_with dec_string ti_output (\<lambda>v a. a\<lparr>ti_output := v\<rparr>))]"

definition no_test_input :: test_input where
  "no_test_input =
     \<lparr>ti_position = 0, ti_is_sample = False, ti_points = None,
      ti_time_limit_override_millis = None, ti_input = [], ti_output = []\<rparr>"

section \<open>Request bodies\<close>

definition invalid_json :: "string \<Rightarrow> go_error" where
  "invalid_json m = ValidationError (''Invalid JSON body: '' @ m)"

definition decodeJSON :: "(json \<Rightarrow> go_error + 'a) \<Rightarrow> http_request \<Rightarrow> go_error + 'a" where
  "decodeJSON dec q =
     (if q_media q \<noteq> Some ''application/json''
      then Inl (ValidationError ''Content-Type must be application/json'')
      else case q_body q of
             TooLong \<Rightarrow> Inl ErrMaxBytes
           | BadJson m at \<Rightarrow> Inl (invalid_json m)
           | JsonBody j at only \<Rightarrow>
               (case dec j of
                  Inl e \<Rightarrow> Inl (invalid_json (error_text e))
                | Inr v \<Rightarrow> if \<not> only then Inl (ValidationError ''Expected one JSON value'') else Inr v)
           | _ \<Rightarrow> Inl (invalid_json ''EOF''))"

section \<open>Encoding a list of strings\<close>

text \<open>
  \<^verbatim>\<open>json.Marshal\<close> of a string: quotes, backslashes and control characters are escaped, and so
  are the characters HTML cares about and U+2028 and U+2029; a byte that starts no valid
  encoding is written as U+FFFD.
\<close>

definition unicode_text :: "char \<Rightarrow> char \<Rightarrow> char \<Rightarrow> char \<Rightarrow> string" where
  "unicode_text a b c d = [CHR 0x5C, CHR ''u'', a, b, c, d]"

definition quote_byte :: "char \<Rightarrow> string" where
  "quote_byte c =
     (if c = CHR 0x22 \<or> c = CHR 0x5C then [CHR 0x5C, c]
      else if c = CHR 0x08 then [CHR 0x5C, CHR ''b'']
      else if c = CHR 0x0C then [CHR 0x5C, CHR ''f'']
      else if c = CHR 0x0A then [CHR 0x5C, CHR ''n'']
      else if c = CHR 0x0D then [CHR 0x5C, CHR ''r'']
      else if c = CHR 0x09 then [CHR 0x5C, CHR ''t'']
      else if code c < (32::nat) \<or> c = CHR ''<'' \<or> c = CHR ''>'' \<or> c = CHR ''&''
      then unicode_text CHR ''0'' CHR ''0'' (hex_digit (code c div 16)) (hex_digit (code c mod 16))
      else [c])"

function quote_chars :: "string \<Rightarrow> string" where
  "quote_chars [] = []"
| "quote_chars (c # r) =
     (if code c < (128::nat) then quote_byte c @ quote_chars r
      else if rune_width (c # r) = 0
      then unicode_text CHR ''f'' CHR ''f'' CHR ''f'' CHR ''d'' @ quote_chars r
      else if take 3 (c # r) = [CHR 0xE2, CHR 0x80, CHR 0xA8]
      then unicode_text CHR ''2'' CHR ''0'' CHR ''2'' CHR ''8'' @ quote_chars (drop 3 (c # r))
      else if take 3 (c # r) = [CHR 0xE2, CHR 0x80, CHR 0xA9]
      then unicode_text CHR ''2'' CHR ''0'' CHR ''2'' CHR ''9'' @ quote_chars (drop 3 (c # r))
      else take (rune_width (c # r)) (c # r) @ quote_chars (drop (rune_width (c # r)) (c # r)))"
  by pat_completeness auto
termination by (relation "measure length") auto

definition quote_string :: "string \<Rightarrow> string" where
  "quote_string s = CHR 0x22 # quote_chars s @ [CHR 0x22]"

fun join_comma :: "string list \<Rightarrow> string" where
  "join_comma [] = []"
| "join_comma [s] = s"
| "join_comma (s # t # ts) = s @ CHR '','' # join_comma (t # ts)"

definition marshal_strings :: "string list \<Rightarrow> string" where
  "marshal_strings ls = CHR ''['' # join_comma (map quote_string ls) @ [CHR '']'']"

end
