(* ===== verification/Api.thy ===== *)
theory Api
  imports Api_Json
begin

text \<open>
  The JSON interface (internal/server/api.go): identifiers from the route, the answer to an
  error, pagination, and one operation per route. An operation is given the handler, the
  actor and the request; it returns nothing for an empty answer, or the value to encode.
\<close>

type_synonym operation = "(database, api_value option) go"

section \<open>Identifiers, answers and errors\<close>

definition parseID :: "string \<Rightarrow> go_error + id" where
  "parseID raw =
     (case parse_uint64 raw of
        None \<Rightarrow> Inl ErrRecordNotFound
      | Some n \<Rightarrow> if n = 0 then Inl ErrRecordNotFound else Inr n)"

definition routeID :: "http_request \<Rightarrow> string \<Rightarrow> go_error + id" where
  "routeID q key = parseID (get_field key (q_params q))"

definition jsonResponse :: "nat \<Rightarrow> content \<Rightarrow> response" where
  "jsonResponse n c =
     (respond n (if n = 204 then Empty else c))\<lparr>rs_headers :=
        [(''Content-Type'', ''application/json; charset=utf-8''), (''Cache-Control'', ''no-store'')]\<rparr>"

text \<open>The status, the code and the message an error is answered with.\<close>

definition error_answer :: "go_error \<Rightarrow> nat \<times> string \<times> string" where
  "error_answer e =
     (if errors_is e ErrUnauthorized then (401, ''unauthorized'', error_text e)
      else if errors_is e ErrForbidden then (403, ''forbidden'', ''Access denied'')
      else if errors_is e ErrRecordNotFound then (404, ''not_found'', ''Resource not found'')
      else if errors_is e ErrConflict \<or> errors_is e ErrNotDraft \<or> errors_is e ErrQuota \<or> IsDuplicateError e
      then (409, ''conflict'', ''Request conflicts with current state'')
      else case as_validation e of
             Some m \<Rightarrow> (400, ''validation'', m)
           | None \<Rightarrow>
               if errors_is e ErrMaxBytes \<or> errors_is e ErrTooLarge
               then (413, ''too_large'', ''Request exceeds size limit'')
               else (500, ''internal'', ''Internal server error''))"

definition apiError :: "go_error \<Rightarrow> response" where
  "apiError e =
     (case error_answer e of (n, kind, message) \<Rightarrow> jsonResponse n (JsonError kind message))"

definition endpoint :: "operation \<Rightarrow> (database, response) go" where
  "endpoint operation =
     andThen (attempt operation) (\<lambda>r.
     ret (case r of
            Inl e \<Rightarrow> apiError e
          | Inr None \<Rightarrow> respond 204 Empty
          | Inr (Some v) \<Rightarrow> jsonResponse 200 (Json v)))"

section \<open>Lists\<close>

text \<open>A page parameter; both are read before either bound is checked.\<close>

definition page_parameter :: "http_request \<Rightarrow> string \<Rightarrow> int \<Rightarrow> go_error + int" where
  "page_parameter q key fallback =
     (let raw = get_field key (q_query q)
      in if raw = [] then Inr fallback
         else case parse_int64 raw of
                None \<Rightarrow> Inl (ValidationError ''Invalid pagination'')
              | Some n \<Rightarrow> if n < 0 then Inl (ValidationError ''Invalid pagination'') else Inr n)"

definition pagination :: "http_request \<Rightarrow> go_error + nat \<times> nat" where
  "pagination q =
     (case page_parameter q ''limit'' 50 of
        Inl e \<Rightarrow> Inl e
      | Inr limit \<Rightarrow>
          (case page_parameter q ''offset'' 0 of
             Inl e \<Rightarrow> Inl e
           | Inr offset \<Rightarrow>
               if limit < 1 \<or> limit > 100
               then Inl (ValidationError ''limit must be between 1 and 100'')
               else Inr (nat limit, nat offset)))"

definition apiList ::
  "http_request \<Rightarrow> (database \<Rightarrow> 'r list) \<Rightarrow> ('r \<Rightarrow> int) \<Rightarrow> ('r list \<Rightarrow> api_value) \<Rightarrow> operation" where
  "apiList q rows order wrap =
     andThen (of_sum (pagination q)) (\<lambda>page.
     andThen (query (\<lambda>d. take (fst page) (drop (snd page) (sort_key order (rows d))))) (\<lambda>items.
     ret (Some (wrap items))))"

section \<open>Shared steps\<close>

definition done_with :: "(database, unit) go \<Rightarrow> operation" where
  "done_with m = andThen m (\<lambda>_. ret None)"

definition item_of :: "('a \<Rightarrow> api_value) \<Rightarrow> (database, 'a) go \<Rightarrow> operation" where
  "item_of wrap m = andThen m (\<lambda>a. ret (Some (wrap a)))"

definition api_manager :: "user option \<Rightarrow> http_request \<Rightarrow> (database, id) go" where
  "api_manager actor q =
     andThen (of_sum (routeID q ''id'')) (\<lambda>k.
     andThen (ManageContest actor k) (\<lambda>_.
     ret k))"

definition apiAdmin :: "user option \<Rightarrow> (database, unit) go" where
  "apiAdmin actor =
     (case actor of
        None \<Rightarrow> fail ErrUnauthorized
      | Some u \<Rightarrow> reject (u_role u \<noteq> RoleAdmin) ErrForbidden)"

definition api_csrf :: "handler \<Rightarrow> http_request \<Rightarrow> (database, response) go" where
  "api_csrf h q =
     andThen (withCSRFToken (h_crypto h) (h_key h) (h_secure h) q) (\<lambda>t.
     andThen (endpoint (ret (Some (VToken (fst t))))) (\<lambda>r.
     ret (r\<lparr>rs_cookies := snd t\<rparr>)))"

end
