(* ===== verification/Api_Contests.thy ===== *)
theory Api_Contests
  imports Api
begin

text \<open>
  The operations of the JSON interface on contests, members, series and assignments
  (internal/server/api.go, from contestInput to unassign).
\<close>

section \<open>Contests\<close>

definition contest_model :: "contest_input \<Rightarrow> contest" where
  "contest_model i =
     \<lparr>c_id = 0, c_title = ci_title i, c_description = ci_description i,
      c_visibility = ci_visibility i, c_start_at = ci_start_at i, c_end_at = ci_end_at i,
      c_created_at = zero_time, c_updated_at = zero_time\<rparr>"

definition read_contest :: "handler \<Rightarrow> http_request \<Rightarrow> (database, contest_input) go" where
  "read_contest h q =
     of_sum (decodeJSON (dec_struct (contest_input_fields (h_library h)) no_contest_input) q)"

text \<open>The contests a listing shows: all to administrators, to others the published ones and those they organise.\<close>

definition listed :: "user option \<Rightarrow> database \<Rightarrow> contest \<Rightarrow> bool" where
  "listed actor d c =
     (case actor of
        None \<Rightarrow> c_visibility c = ContestPublished
      | Some u \<Rightarrow>
          u_role u = RoleAdmin \<or> c_visibility c = ContestPublished \<or>
          c_id c \<in> set (map m_contest_id
                     (filter (\<lambda>m. m_user_id m = u_id u \<and> m_role m = ''organizer'') (memberships d))))"

definition api_contests :: "user option \<Rightarrow> http_request \<Rightarrow> operation" where
  "api_contests actor q =
     apiList q (\<lambda>d. filter (listed actor d) (contests d)) (\<lambda>c. - int (c_id c)) VContests"

definition api_createContest :: "handler \<Rightarrow> user option \<Rightarrow> http_request \<Rightarrow> operation" where
  "api_createContest h actor q =
     andThen (apiAdmin actor) (\<lambda>_.
     andThen (read_contest h q) (\<lambda>input.
     item_of VContest (CreateContest (contest_model input))))"

definition loadContest :: "user option \<Rightarrow> http_request \<Rightarrow> (database, contest) go" where
  "loadContest actor q =
     andThen (of_sum (routeID q ''id'')) (\<lambda>k.
     andThen (GetContest k) (\<lambda>item.
     andThen (if c_visibility item \<noteq> ContestPublished then ManageContest actor k else ret ()) (\<lambda>_.
     ret item)))"

definition api_contest :: "user option \<Rightarrow> http_request \<Rightarrow> operation" where
  "api_contest actor q = item_of VContest (loadContest actor q)"

definition api_updateContest :: "handler \<Rightarrow> user option \<Rightarrow> http_request \<Rightarrow> operation" where
  "api_updateContest h actor q =
     andThen (api_manager actor q) (\<lambda>k.
     andThen (read_contest h q) (\<lambda>input.
     item_of VContest (UpdateContest ((contest_model input)\<lparr>c_id := k\<rparr>))))"

definition api_deleteContest :: "user option \<Rightarrow> http_request \<Rightarrow> operation" where
  "api_deleteContest actor q =
     andThen (apiAdmin actor) (\<lambda>_.
     andThen (of_sum (routeID q ''id'')) (\<lambda>k.
     done_with (DeleteContest k)))"

section \<open>Members\<close>

definition api_members :: "user option \<Rightarrow> http_request \<Rightarrow> operation" where
  "api_members actor q =
     andThen (api_manager actor q) (\<lambda>k.
     apiList q (\<lambda>d. filter (\<lambda>m. m_contest_id m = k) (memberships d)) (\<lambda>m. int (m_id m)) VMembers)"

definition api_setMember :: "user option \<Rightarrow> http_request \<Rightarrow> operation" where
  "api_setMember actor q =
     andThen (of_sum (routeID q ''id'')) (\<lambda>k.
     andThen (of_sum (decodeJSON (dec_struct member_input_fields no_member_input) q)) (\<lambda>input.
     done_with (SetMember actor k (mi_user_id input) (mi_role input))))"

definition api_deleteMember :: "user option \<Rightarrow> http_request \<Rightarrow> operation" where
  "api_deleteMember actor q =
     andThen (of_sum (routeID q ''id'')) (\<lambda>k.
     andThen (of_sum (routeID q ''userID'')) (\<lambda>uid.
     done_with (RemoveMember actor k uid)))"

section \<open>Series\<close>

definition api_listSeries :: "user option \<Rightarrow> http_request \<Rightarrow> operation" where
  "api_listSeries actor q =
     andThen (loadContest actor q) (\<lambda>contest.
     apiList q (\<lambda>d. filter (\<lambda>s. s_contest_id s = c_id contest) (series_rows d)) s_position VSeriesList)"

definition new_series :: "id \<Rightarrow> series" where
  "new_series k =
     \<lparr>s_id = 0, s_contest_id = k, s_title = [], s_position = 0, s_created_at = zero_time,
      s_updated_at = zero_time, s_start_at = None, s_end_at = None, s_release_at = None\<rparr>"

definition series_with :: "series_input \<Rightarrow> series \<Rightarrow> series" where
  "series_with i s =
     s\<lparr>s_title := si_title i, s_position := si_position i, s_start_at := si_start_at i,
       s_end_at := si_end_at i, s_release_at := si_release_at i\<rparr>"

definition api_saveSeries :: "handler \<Rightarrow> user option \<Rightarrow> http_request \<Rightarrow> operation" where
  "api_saveSeries h actor q =
     andThen (of_sum (routeID q ''id'')) (\<lambda>k.
     andThen (if q_method q = ''PUT'' then Series actor k else ret (new_series k)) (\<lambda>item.
     andThen (of_sum (decodeJSON (dec_struct (series_input_fields (h_library h)) no_series_input) q)) (\<lambda>input.
     item_of VSeries (SaveSeries actor (series_with input item)))))"

definition api_deleteSeries :: "user option \<Rightarrow> http_request \<Rightarrow> operation" where
  "api_deleteSeries actor q =
     andThen (of_sum (routeID q ''id'')) (\<lambda>k.
     andThen (Series actor k) (\<lambda>_.
     done_with (DeleteSeries k)))"

text \<open>A missing or null list of ids is the empty order.\<close>

definition readOrder :: "http_request \<Rightarrow> (database, id \<times> id list) go" where
  "readOrder q =
     andThen (of_sum (routeID q ''id'')) (\<lambda>k.
     andThen (of_sum (decodeJSON (dec_struct order_input_fields no_order_input) q)) (\<lambda>input.
     ret (k, case oi_ids input of None \<Rightarrow> [] | Some ids \<Rightarrow> ids)))"

definition api_orderSeries :: "user option \<Rightarrow> http_request \<Rightarrow> operation" where
  "api_orderSeries actor q =
     andThen (readOrder q) (\<lambda>r. done_with (ReorderSeries actor (fst r) (snd r)))"

definition api_orderProblems :: "user option \<Rightarrow> http_request \<Rightarrow> operation" where
  "api_orderProblems actor q =
     andThen (readOrder q) (\<lambda>r. done_with (ReorderProblems actor (fst r) (snd r)))"

section \<open>Assignments\<close>

definition api_assignments :: "user option \<Rightarrow> http_request \<Rightarrow> operation" where
  "api_assignments actor q =
     andThen (of_sum (routeID q ''id'')) (\<lambda>k.
     andThen (GetSeries k) (\<lambda>s.
     andThen (CanReadSeries actor s) (\<lambda>_.
     apiList q (\<lambda>d. filter (\<lambda>a. sp_series_id a = k) (series_problems d)) sp_position VAssignments)))"

definition new_assignment :: "id \<Rightarrow> assign_input \<Rightarrow> series_problem" where
  "new_assignment k i =
     \<lparr>sp_id = 0, sp_series_id = k, sp_problem_id = 0, sp_published_revision_id = ai_revision_id i,
      sp_code = ai_code i, sp_position = ai_position i, sp_created_at = zero_time,
      sp_updated_at = zero_time\<rparr>"

definition api_assign :: "user option \<Rightarrow> http_request \<Rightarrow> operation" where
  "api_assign actor q =
     andThen (of_sum (routeID q ''id'')) (\<lambda>k.
     andThen (of_sum (decodeJSON (dec_struct assign_input_fields no_assign_input) q)) (\<lambda>input.
     item_of VAssignment (Assign actor (new_assignment k input))))"

definition api_unassign :: "user option \<Rightarrow> http_request \<Rightarrow> operation" where
  "api_unassign actor q =
     andThen (of_sum (routeID q ''id'')) (\<lambda>k.
     andThen (Series actor k) (\<lambda>_.
     andThen (of_sum (routeID q ''assignmentID'')) (\<lambda>aid.
     andThen (exec (\<lambda>t i. delete_series_problems (\<lambda>a. sp_id a = aid \<and> sp_series_id a = k))) (\<lambda>n.
     andThen (reject (n = 0) ErrRecordNotFound) (\<lambda>_.
     ret None)))))"

definition api_statement :: "user option \<Rightarrow> http_request \<Rightarrow> operation" where
  "api_statement actor q =
     andThen (of_sum (routeID q ''id'')) (\<lambda>k. item_of VStatement (Statement actor k))"

end
