(* ===== verification/Admin_Pages.thy ===== *)
theory Admin_Pages
  imports Api
begin

text \<open>
  The pages of the site: the public contest pages (internal/server/public.go), the
  administration of contests and series (admin.go) and of problems (server/problems.go).
  Forms are read from the parsed form of the request. The handlers of the administration run
  behind the checks of the router. Where a handler logs an error and answers with a fixed
  text, the text is kept and the log left out.
\<close>

section \<open>Shared steps\<close>

text \<open>A step whose error is answered by a page instead of being returned.\<close>

definition or_answer ::
  "('d, 'a) go \<Rightarrow> (go_error \<Rightarrow> ('d, 'r) go) \<Rightarrow> ('a \<Rightarrow> ('d, 'r) go) \<Rightarrow> ('d, 'r) go" where
  "or_answer m refuse work =
     andThen (attempt m) (\<lambda>r. case r of Inl e \<Rightarrow> refuse e | Inr a \<Rightarrow> work a)"

text \<open>A record that is not there is answered by 404, any other failure by a fixed text.\<close>

definition missing_or :: "string \<Rightarrow> go_error \<Rightarrow> ('d, response) go" where
  "missing_or message e =
     ret (if errors_is e ErrRecordNotFound then not_found else server_error message)"

definition bad_request :: "http_request \<Rightarrow> go_error \<Rightarrow> ('d, response) go" where
  "bad_request q e = ret (renderAdminError q 400 (error_text e))"

definition form_of :: "string \<Rightarrow> http_request \<Rightarrow> go_error + fields" where
  "form_of message q = (case q_form q of None \<Rightarrow> Inl (ErrMessage message) | Some form \<Rightarrow> Inr form)"

definition contest_path :: "id \<Rightarrow> string" where
  "contest_path k = ''/admin/contests/'' @ decimal k"

definition problem_path :: "id \<Rightarrow> string" where
  "problem_path k = ''/admin/problems/'' @ decimal k"

section \<open>Public pages\<close>

definition PublicContests :: "handler \<Rightarrow> bool \<Rightarrow> user option \<Rightarrow> http_request \<Rightarrow> (database, response) go" where
  "PublicContests h nulls_first actor q =
     or_answer (ListPublicContests nulls_first) (\<lambda>e. ret (server_error ''Could not load contests.'')) (\<lambda>cs.
     render_page h q 200 ''layout''
       (no_data\<lparr>pd_title := ''Contests'', pd_user := actor, pd_template := ''public_contests'',
                pd_contests := cs\<rparr>))"

definition PublicContest :: "handler \<Rightarrow> user option \<Rightarrow> http_request \<Rightarrow> (database, response) go" where
  "PublicContest h actor q =
     or_answer (of_sum (routeID q ''contestID'')) (\<lambda>e. ret not_found) (\<lambda>k.
     or_answer (GetPublicContest k) (missing_or ''Could not load contest.'') (\<lambda>contest.
     or_answer (ListSeries (c_id contest)) (\<lambda>e. ret (server_error ''Could not load series.'')) (\<lambda>ss.
     render_page h q 200 ''layout''
       (no_data\<lparr>pd_title := c_title contest, pd_user := actor, pd_template := ''public_contest'',
                pd_contest := Some contest, pd_series := ss\<rparr>))))"

section \<open>Contests\<close>

definition blank_contest :: contest where
  "blank_contest =
     \<lparr>c_id = 0, c_title = [], c_description = [], c_visibility = ContestDraft, c_start_at = None,
      c_end_at = None, c_created_at = zero_time, c_updated_at = zero_time\<rparr>"

definition AdminDashboard :: "handler \<Rightarrow> user option \<Rightarrow> http_request \<Rightarrow> (database, response) go" where
  "AdminDashboard h actor q =
     or_answer ListContests (\<lambda>e. ret (server_error ''Could not load contests.'')) (\<lambda>cs.
     render_page h q 200 ''layout''
       (no_data\<lparr>pd_title := ''Contests'', pd_user := actor, pd_template := ''admin'',
                pd_contest := Some blank_contest, pd_contests := cs\<rparr>))"

definition AdminRedirect :: "('d, response) go" where
  "AdminRedirect = ret (redirect_to 301 ''/admin/contests'')"

definition adminContest ::
  "http_request \<Rightarrow> (contest \<Rightarrow> (database, response) go) \<Rightarrow> (database, response) go" where
  "adminContest q work =
     or_answer (of_sum (routeID q ''contestID'')) (\<lambda>e. ret not_found) (\<lambda>k.
     or_answer (GetContest k) (missing_or ''Could not load contest.'') work)"

definition adminSeries ::
  "http_request \<Rightarrow> (series \<Rightarrow> (database, response) go) \<Rightarrow> (database, response) go" where
  "adminSeries q work =
     or_answer (of_sum (routeID q ''contestID'')) (\<lambda>e. ret not_found) (\<lambda>contestID.
     or_answer (of_sum (routeID q ''seriesID'')) (\<lambda>e. ret not_found) (\<lambda>seriesID.
     or_answer (GetSeries seriesID) (missing_or ''Could not load series.'') (\<lambda>s.
     if s_contest_id s \<noteq> contestID then ret not_found else work s)))"

definition parseDateTime :: "library \<Rightarrow> string \<Rightarrow> go_error \<Rightarrow> go_error + time option" where
  "parseDateTime L v e =
     (let v = trim_space v
      in if v = [] then Inr None
         else case parse_form_time L v of None \<Rightarrow> Inl e | Some t \<Rightarrow> Inr (Some t))"

definition readContestForm :: "library \<Rightarrow> http_request \<Rightarrow> (database, contest) go" where
  "readContestForm L q =
     andThen (of_sum (form_of ''invalid form submission'' q)) (\<lambda>form.
     andThen (of_sum (parseDateTime L (get_field ''start_at'' form) (ErrMessage ''invalid start time''))) (\<lambda>startAt.
     andThen (of_sum (parseDateTime L (get_field ''end_at'' form) (ErrMessage ''invalid end time''))) (\<lambda>endAt.
     ret \<lparr>c_id = 0, c_title = get_field ''title'' form, c_description = get_field ''description'' form,
          c_visibility = get_field ''visibility'' form, c_start_at = startAt, c_end_at = endAt,
          c_created_at = zero_time, c_updated_at = zero_time\<rparr>)))"

definition readSeriesForm :: "http_request \<Rightarrow> (database, series) go" where
  "readSeriesForm q =
     andThen (of_sum (form_of ''invalid form submission'' q)) (\<lambda>form.
     case parse_int64 (get_field ''position'' form) of
       None \<Rightarrow> fail (ErrMessage ''position must be a whole number'')
     | Some position \<Rightarrow>
         ret \<lparr>s_id = 0, s_contest_id = 0, s_title = get_field ''title'' form, s_position = position,
              s_created_at = zero_time, s_updated_at = zero_time, s_start_at = None,
              s_end_at = None, s_release_at = None\<rparr>)"

definition AdminContest :: "handler \<Rightarrow> user option \<Rightarrow> http_request \<Rightarrow> (database, response) go" where
  "AdminContest h actor q =
     adminContest q (\<lambda>contest.
     or_answer (ListSeries (c_id contest)) (\<lambda>e. ret (server_error ''Could not load series.'')) (\<lambda>ss.
     render_page h q 200 ''layout''
       (no_data\<lparr>pd_title := c_title contest, pd_user := actor, pd_template := ''contest_detail'',
                pd_contest := Some contest, pd_series := ss\<rparr>)))"

definition contest_list_page :: "contest list \<Rightarrow> response" where
  "contest_list_page cs =
     (respond 200 (ContestList cs))\<lparr>rs_headers :=
        [(''HX-Retarget'', ''#contest-list''), (''HX-Reswap'', ''innerHTML'')]\<rparr>"

definition page_CreateContest :: "handler \<Rightarrow> http_request \<Rightarrow> (database, response) go" where
  "page_CreateContest h q =
     or_answer (readContestForm (h_library h) q) (bad_request q) (\<lambda>input.
     or_answer (CreateContest input) (bad_request q) (\<lambda>contest.
     if isHTMX q
     then or_answer ListContests (\<lambda>e. ret (hxRedirect q ''/admin/contests'')) (\<lambda>cs.
          ret (contest_list_page cs))
     else ret (hxRedirect q (contest_path (c_id contest)))))"

definition page_UpdateContest :: "handler \<Rightarrow> http_request \<Rightarrow> (database, response) go" where
  "page_UpdateContest h q =
     adminContest q (\<lambda>contest.
     or_answer (readContestForm (h_library h) q) (bad_request q) (\<lambda>input.
     or_answer (UpdateContest (input\<lparr>c_id := c_id contest\<rparr>)) (bad_request q) (\<lambda>_.
     ret (hxRedirect q (contest_path (c_id contest))))))"

definition page_DeleteContest :: "http_request \<Rightarrow> (database, response) go" where
  "page_DeleteContest q =
     adminContest q (\<lambda>contest.
     or_answer (DeleteContest (c_id contest)) (\<lambda>e. ret (server_error ''Could not delete contest.'')) (\<lambda>_.
     ret (hxRedirect q ''/admin/contests'')))"

section \<open>Series\<close>

definition page_CreateSeries :: "user option \<Rightarrow> http_request \<Rightarrow> (database, response) go" where
  "page_CreateSeries actor q =
     adminContest q (\<lambda>contest.
     or_answer (readSeriesForm q) (bad_request q) (\<lambda>s.
     or_answer (SaveSeries actor (s\<lparr>s_contest_id := c_id contest\<rparr>)) (bad_request q) (\<lambda>_.
     ret (hxRedirect q (contest_path (c_id contest))))))"

text \<open>The form holds the title and the position only; the schedule stays.\<close>

definition keep_schedule :: "series \<Rightarrow> series \<Rightarrow> series" where
  "keep_schedule s input =
     input\<lparr>s_id := s_id s, s_contest_id := s_contest_id s, s_start_at := s_start_at s,
           s_end_at := s_end_at s, s_release_at := s_release_at s\<rparr>"

definition page_UpdateSeries :: "user option \<Rightarrow> http_request \<Rightarrow> (database, response) go" where
  "page_UpdateSeries actor q =
     adminSeries q (\<lambda>s.
     or_answer (readSeriesForm q) (bad_request q) (\<lambda>input.
     or_answer (SaveSeries actor (keep_schedule s input)) (bad_request q) (\<lambda>_.
     ret (hxRedirect q (contest_path (s_contest_id s))))))"

definition page_DeleteSeries :: "http_request \<Rightarrow> (database, response) go" where
  "page_DeleteSeries q =
     adminSeries q (\<lambda>s.
     or_answer (DeleteSeries (s_id s)) (\<lambda>e. ret (server_error ''Could not delete series.'')) (\<lambda>_.
     ret (if isHTMX q then respond 200 Empty
          else hxRedirect q (contest_path (s_contest_id s)))))"

end
