(* ===== verification/Api_Problems.thy ===== *)
theory Api_Problems
  imports Api
begin

text \<open>
  The operations of the JSON interface on problems, revisions, tests and files
  (internal/server/api.go, from problems to download).
\<close>

section \<open>Problems\<close>

definition api_problems :: "user option \<Rightarrow> http_request \<Rightarrow> operation" where
  "api_problems actor q =
     andThen (CanAuthor actor) (\<lambda>_.
     apiList q (\<lambda>d. filter (\<lambda>p. admin actor \<or> p_owner_id p = actor_id actor) (problems d))
       (\<lambda>p. - int (p_id p)) VProblems)"

text \<open>The languages of an input as the text the revision stores.\<close>

definition languages_text :: "string list option \<Rightarrow> string" where
  "languages_text ls = (case ls of None \<Rightarrow> ''[]'' | Some l \<Rightarrow> marshal_strings l)"

definition new_problem :: "id \<Rightarrow> string \<Rightarrow> string \<Rightarrow> problem" where
  "new_problem owner title label =
     \<lparr>p_id = 0, p_owner_id = owner, p_title = title, p_code = label, p_kind = [],
      p_created_at = zero_time, p_updated_at = zero_time\<rparr>"

definition new_revision :: "string \<Rightarrow> string \<Rightarrow> string \<Rightarrow> revision" where
  "new_revision text languages checker =
     \<lparr>r_id = 0, r_problem_id = 0, r_number = 0, r_state = [], r_statement = text,
      r_pdf_artifact_id = None, r_time_limit_millis = None, r_memory_limit_kib = None,
      r_language_metadata = languages, r_checker_metadata = checker, r_published_at = None,
      r_created_at = zero_time, r_updated_at = zero_time\<rparr>"

definition api_createProblem :: "user option \<Rightarrow> http_request \<Rightarrow> operation" where
  "api_createProblem actor q =
     andThen (CanAuthor actor) (\<lambda>_.
     andThen (of_sum (decodeJSON (dec_struct problem_input_fields no_problem_input) q)) (\<lambda>input.
     item_of (\<lambda>pr. VCreated (fst pr) (snd pr))
       (CreateProblem (new_problem (actor_id actor) (pi_title input) (pi_code input))
          (new_revision (pi_statement input) (languages_text (pi_languages input)) (pi_checker input)))))"

definition loadProblem :: "user option \<Rightarrow> http_request \<Rightarrow> (database, problem) go" where
  "loadProblem actor q =
     andThen (of_sum (routeID q ''id'')) (\<lambda>k. ManageProblem actor k)"

definition api_problem :: "user option \<Rightarrow> http_request \<Rightarrow> operation" where
  "api_problem actor q = item_of VProblem (loadProblem actor q)"

text \<open>The update stamps the row, and the struct it is given, with the engine's time.\<close>

definition set_problem_names :: "string \<Rightarrow> string \<Rightarrow> time \<Rightarrow> problem \<Rightarrow> problem" where
  "set_problem_names title label t p = p\<lparr>p_title := title, p_code := label, p_updated_at := t\<rparr>"

definition rename_problem :: "string \<Rightarrow> string \<Rightarrow> problem \<Rightarrow> (database, problem) go" where
  "rename_problem title label item =
     exec (\<lambda>t i d.
       case update_problems (\<lambda>p. p_id p = p_id item) (set_problem_names title label t) d of
         Inl e \<Rightarrow> Inl e
       | Inr (n, d') \<Rightarrow> Inr (set_problem_names title label t item, d'))"

definition api_updateProblem :: "user option \<Rightarrow> http_request \<Rightarrow> operation" where
  "api_updateProblem actor q =
     andThen (loadProblem actor q) (\<lambda>item.
     andThen (of_sum (decodeJSON (dec_struct problem_update_fields no_problem_update) q)) (\<lambda>input.
     let title = trim_space (pu_title input); label = trim_space (pu_code input) in
     andThen (reject (title = [] \<or> label = [] \<or> length title > 300 \<or> length label > 64)
                (ValidationError ''Invalid title or code'')) (\<lambda>_.
     item_of VProblem (rename_problem title label item))))"

section \<open>Revisions\<close>

definition api_revisions :: "user option \<Rightarrow> http_request \<Rightarrow> operation" where
  "api_revisions actor q =
     andThen (loadProblem actor q) (\<lambda>problem.
     apiList q (\<lambda>d. filter (\<lambda>r. r_problem_id r = p_id problem) (revisions d))
       (\<lambda>r. - r_number r) VRevisions)"

definition api_newRevision :: "user option \<Rightarrow> http_request \<Rightarrow> operation" where
  "api_newRevision actor q =
     andThen (loadProblem actor q) (\<lambda>problem.
     item_of VRevision (CreateDraftRevision (p_id problem)))"

definition loadRevision :: "user option \<Rightarrow> http_request \<Rightarrow> (database, revision) go" where
  "loadRevision actor q =
     andThen (of_sum (routeID q ''id'')) (\<lambda>k. Revision actor k)"

definition api_revision :: "user option \<Rightarrow> http_request \<Rightarrow> operation" where
  "api_revision actor q = item_of VRevision (loadRevision actor q)"

definition revision_with :: "revision_input \<Rightarrow> revision \<Rightarrow> revision" where
  "revision_with i r =
     r\<lparr>r_statement := ri_statement i, r_language_metadata := languages_text (ri_languages i),
       r_checker_metadata := ri_checker i, r_time_limit_millis := ri_time_limit_millis i,
       r_memory_limit_kib := ri_memory_limit_kib i\<rparr>"

definition api_updateRevision :: "user option \<Rightarrow> http_request \<Rightarrow> operation" where
  "api_updateRevision actor q =
     andThen (loadRevision actor q) (\<lambda>item.
     andThen (reject (r_state item \<noteq> RevisionDraft) ErrConflict) (\<lambda>_.
     andThen (of_sum (decodeJSON (dec_struct revision_input_fields no_revision_input) q)) (\<lambda>input.
     item_of VRevision (UpdateDraftRevision (revision_with input item)))))"

definition api_publish :: "user option \<Rightarrow> http_request \<Rightarrow> operation" where
  "api_publish actor q =
     andThen (loadRevision actor q) (\<lambda>item.
     andThen (reject (r_state item \<noteq> RevisionDraft) ErrConflict) (\<lambda>_.
     andThen now (\<lambda>at.
     done_with (PublishRevision (r_id item) at))))"

section \<open>Tests\<close>

definition api_tests :: "user option \<Rightarrow> http_request \<Rightarrow> operation" where
  "api_tests actor q =
     andThen (loadRevision actor q) (\<lambda>revision.
     apiList q (\<lambda>d. filter (\<lambda>t. t_problem_revision_id t = r_id revision) (test_cases d))
       t_position VTests)"

definition api_saveTest :: "handler \<Rightarrow> user option \<Rightarrow> http_request \<Rightarrow> operation" where
  "api_saveTest h actor q =
     andThen (of_sum (routeID q ''id'')) (\<lambda>k.
     andThen (if q_method q = ''PUT'' then of_sum (routeID q ''testID'') else ret 0) (\<lambda>tid.
     andThen (of_sum (decodeJSON (dec_struct test_input_fields no_test_input) q)) (\<lambda>input.
     item_of VTest (SaveTest (h_service h) actor k tid input))))"

definition api_deleteTest :: "user option \<Rightarrow> http_request \<Rightarrow> operation" where
  "api_deleteTest actor q =
     andThen (of_sum (routeID q ''id'')) (\<lambda>k.
     andThen (of_sum (routeID q ''testID'')) (\<lambda>tid.
     done_with (DeleteTest actor k tid)))"

section \<open>Uploads\<close>

text \<open>
  The whole envelope is read before the work starts: the first part into a temporary file
  outside the store, then the end of the message. The work reads the file back. The reader
  given to it delivers what was written.
\<close>

definition upload_content :: "upload_part \<Rightarrow> (database, bytes) go" where
  "upload_content p =
     of_sum (case r_error (up_content p) of None \<Rightarrow> Inr (r_bytes (up_content p)) | Some e \<Rightarrow> Inl e)"

definition only_part :: "upload_part \<Rightarrow> (database, unit) go" where
  "only_part p =
     (case up_after p of
        NoMorePart \<Rightarrow> ret ()
      | AnotherPart \<Rightarrow> fail (ValidationError ''Only one file is allowed'')
      | BrokenPart e \<Rightarrow> fail e)"

definition upload :: "http_request \<Rightarrow> (reader \<Rightarrow> operation) \<Rightarrow> operation" where
  "upload q work =
     (case q_body q of
        Multipart None \<Rightarrow> fail (ValidationError ''Expected file field'')
      | Multipart (Some p) \<Rightarrow>
          andThen (reject (up_name p \<noteq> ''file'') (ValidationError ''Expected file field'')) (\<lambda>_.
          andThen os_call (\<lambda>_.
          andThen os_call (\<lambda>_.
          andThen (upload_content p) (\<lambda>content.
          andThen (only_part p) (\<lambda>_.
          andThen os_call (\<lambda>_.
          work (bytes_reader content)))))))
      | _ \<Rightarrow> fail (ValidationError ''Expected multipart upload''))"

definition api_uploadPDF :: "handler \<Rightarrow> user option \<Rightarrow> http_request \<Rightarrow> operation" where
  "api_uploadPDF h actor q =
     andThen (of_sum (routeID q ''id'')) (\<lambda>k.
     andThen (Revision actor k) (\<lambda>_.
     upload q (\<lambda>source. item_of VArtifact (UploadPDF (h_service h) actor k source))))"

definition api_previewZIP :: "handler \<Rightarrow> user option \<Rightarrow> http_request \<Rightarrow> operation" where
  "api_previewZIP h actor q =
     andThen (of_sum (routeID q ''id'')) (\<lambda>k.
     andThen (Revision actor k) (\<lambda>_.
     upload q (\<lambda>source. item_of VPreview (PreviewZIP (h_service h) actor k source))))"

definition api_commitZIP :: "handler \<Rightarrow> user option \<Rightarrow> http_request \<Rightarrow> operation" where
  "api_commitZIP h actor q =
     andThen (of_sum (routeID q ''id'')) (\<lambda>k.
     andThen (of_sum (routeID q ''previewID'')) (\<lambda>pid.
     done_with (CommitZIP (h_service h) actor k pid)))"

section \<open>Files\<close>

definition stored_file :: "user option \<Rightarrow> http_request \<Rightarrow> (database, artifact \<times> bytes) go" where
  "stored_file actor q =
     andThen (of_sum (routeID q ''id'')) (\<lambda>k.
     andThen (Artifact actor k) (\<lambda>item.
     andThen (Open item) (\<lambda>file.
     ret (item, file))))"

text \<open>The answer to a request for the whole file; ranges and conditions are left to \<^verbatim>\<open>net/http\<close>.\<close>

definition serve_file :: "handler \<Rightarrow> artifact \<Rightarrow> bytes \<Rightarrow> response" where
  "serve_file h item file =
     (respond 200 (Download item file))\<lparr>rs_headers :=
        [(''Content-Type'', a_content_type item),
         (''Content-Disposition'', format_attachment (h_library h) (a_filename item)),
         (''X-Content-Type-Options'', ''nosniff''),
         (''Cache-Control'', ''private, no-store'')]\<rparr>"

definition api_download :: "handler \<Rightarrow> user option \<Rightarrow> http_request \<Rightarrow> (database, response) go" where
  "api_download h actor q =
     andThen (attempt (stored_file actor q)) (\<lambda>r.
     ret (case r of Inl e \<Rightarrow> apiError e | Inr (item, file) \<Rightarrow> serve_file h item file))"

definition api_collect :: "user option \<Rightarrow> operation" where
  "api_collect actor = item_of VRemoved (Collect actor)"

end
