(* ===== verification/Problem_Pages.thy ===== *)
theory Problem_Pages
  imports Admin_Pages Api_Problems
begin

text \<open>The administration of problems, revisions and tests (internal/server/problems.go).\<close>

definition renderProblemLoadError :: "go_error \<Rightarrow> ('d, response) go" where
  "renderProblemLoadError e = missing_or ''Could not load problem.'' e"

text \<open>
  The revision a page is about: the one of the route or of the query, or else the latest;
  always one of the problem in the route.
\<close>

definition revision_choice :: "http_request \<Rightarrow> string" where
  "revision_choice q =
     (let raw = get_field ''revisionID'' (q_params q)
      in if raw = [] then get_field ''revision'' (q_query q) else raw)"

definition loadProblemRevision :: "http_request \<Rightarrow> (database, revision) go" where
  "loadProblemRevision q =
     andThen (of_sum (routeID q ''problemID'')) (\<lambda>problemID.
     let raw = revision_choice q in
     andThen (if raw = [] then ret None
              else andThen (of_sum (parseID raw)) (\<lambda>k. ret (Some k))) (\<lambda>chosen.
     first revisions (\<lambda>r. - r_number r)
       (\<lambda>r. r_problem_id r = problemID \<and>
            (case chosen of None \<Rightarrow> True | Some k \<Rightarrow> r_id r = k))))"

definition loadProblemPage :: "user option \<Rightarrow> http_request \<Rightarrow> (database, page_data) go" where
  "loadProblemPage actor q =
     andThen (loadProblemRevision q) (\<lambda>revision.
     andThen (GetProblem (r_problem_id revision)) (\<lambda>problem.
     andThen (ListProblemRevisions (p_id problem)) (\<lambda>rs.
     andThen (ListTestCases (r_id revision)) (\<lambda>ts.
     ret (no_data\<lparr>pd_title := p_title problem, pd_user := actor, pd_template := ''problem_detail'',
                  pd_problem := Some problem, pd_revision := Some revision, pd_tests := ts,
                  pd_revisions := rs\<rparr>)))))"

definition AdminProblems :: "handler \<Rightarrow> user option \<Rightarrow> http_request \<Rightarrow> (database, response) go" where
  "AdminProblems h actor q =
     or_answer ListProblems (\<lambda>e. ret (server_error ''Could not load problems.'')) (\<lambda>ps.
     render_page h q 200 ''layout''
       (no_data\<lparr>pd_title := ''Problems'', pd_user := actor, pd_template := ''problems'',
                pd_problems := ps\<rparr>))"

definition page_CreateProblem :: "user option \<Rightarrow> http_request \<Rightarrow> (database, response) go" where
  "page_CreateProblem actor q =
     or_answer (of_sum (form_of ''Invalid form submission.'' q)) (bad_request q) (\<lambda>form.
     or_answer (CreateProblem
                  (new_problem (actor_id actor) (get_field ''title'' form) (get_field ''code'' form))
                  (new_revision (get_field ''statement'' form) (get_field ''language_metadata'' form)
                     (get_field ''checker_metadata'' form))) (bad_request q) (\<lambda>created.
     ret (hxRedirect q (problem_path (p_id (fst created))))))"

definition AdminProblem :: "handler \<Rightarrow> user option \<Rightarrow> http_request \<Rightarrow> (database, response) go" where
  "AdminProblem h actor q =
     or_answer (loadProblemPage actor q) renderProblemLoadError (\<lambda>data.
     render_page h q 200 ''layout'' data)"

definition CreateProblemRevision :: "http_request \<Rightarrow> (database, response) go" where
  "CreateProblemRevision q =
     or_answer (of_sum (routeID q ''problemID'')) renderProblemLoadError (\<lambda>problemID.
     or_answer (CreateDraftRevision problemID)
       (\<lambda>e. if errors_is e ErrRecordNotFound then ret not_found else bad_request q e) (\<lambda>_.
     ret (hxRedirect q (problem_path problemID))))"

definition revision_path :: "revision \<Rightarrow> string" where
  "revision_path r = problem_path (r_problem_id r) @ ''?revision='' @ decimal (r_id r)"

definition form_revision :: "fields \<Rightarrow> revision \<Rightarrow> revision" where
  "form_revision form r =
     r\<lparr>r_statement := get_field ''statement'' form,
       r_language_metadata := get_field ''language_metadata'' form,
       r_checker_metadata := get_field ''checker_metadata'' form\<rparr>"

definition UpdateProblemRevision :: "http_request \<Rightarrow> (database, response) go" where
  "UpdateProblemRevision q =
     or_answer (loadProblemRevision q) renderProblemLoadError (\<lambda>revision.
     or_answer (of_sum (form_of ''Invalid form submission.'' q)) (bad_request q) (\<lambda>form.
     or_answer (UpdateDraftRevision (form_revision form revision)) (bad_request q) (\<lambda>_.
     ret (hxRedirect q (revision_path revision)))))"

definition PublishProblemRevision :: "http_request \<Rightarrow> (database, response) go" where
  "PublishProblemRevision q =
     or_answer (loadProblemRevision q) renderProblemLoadError (\<lambda>revision.
     andThen now (\<lambda>at.
     or_answer (PublishRevision (r_id revision) at) (bad_request q) (\<lambda>_.
     ret (hxRedirect q (revision_path revision)))))"

definition form_test :: "fields \<Rightarrow> int \<Rightarrow> test_input" where
  "form_test form position =
     \<lparr>ti_position = position, ti_is_sample = (get_field ''is_sample'' form = ''on''), ti_points = None,
      ti_time_limit_override_millis = None, ti_input = get_field ''input'' form,
      ti_output = get_field ''output'' form\<rparr>"

definition CreateProblemTest :: "handler \<Rightarrow> user option \<Rightarrow> http_request \<Rightarrow> (database, response) go" where
  "CreateProblemTest h actor q =
     or_answer (loadProblemRevision q) renderProblemLoadError (\<lambda>revision.
     or_answer (of_sum (form_of ''Invalid form submission.'' q)) (bad_request q) (\<lambda>form.
     case parse_int64 (get_field ''position'' form) of
       None \<Rightarrow> bad_request q (ErrMessage ''Test position must be a non-negative whole number.'')
     | Some position \<Rightarrow>
         if position < 0
         then bad_request q (ErrMessage ''Test position must be a non-negative whole number.'')
         else or_answer (SaveTest (h_service h) actor (r_id revision) 0 (form_test form position))
                (bad_request q) (\<lambda>_.
              ret (hxRedirect q (revision_path revision)))))"

end
