(* ===== verification/Server.thy ===== *)
theory Server
  imports Sign_In Api_Contests Problem_Pages
begin

text \<open>
  The router (internal/server/router.go): the defaults of its configuration, the route
  tables, the handler behind each route, and the middleware in front of them. Matching a
  path against the patterns is the router library's work: which route a request matches, with
  the parameters of the path, is a parameter of the site, and so are the static files.
\<close>

section \<open>Routes\<close>

datatype api_route =
    R_csrf | R_contests | R_createContest | R_contest | R_updateContest | R_deleteContest
  | R_members | R_setMember | R_deleteMember | R_listSeries | R_saveSeries | R_orderSeries
  | R_deleteSeries | R_assignments | R_assign | R_orderProblems | R_unassign | R_problems
  | R_createProblem | R_problem | R_updateProblem | R_revisions | R_newRevision | R_revision
  | R_updateRevision | R_publish | R_tests | R_saveTest | R_deleteTest | R_uploadPDF
  | R_previewZIP | R_commitZIP | R_statement | R_download | R_collect

datatype admin_route =
    R_AdminRedirect | R_AdminDashboard | R_CreateContest | R_AdminContest | R_UpdateContest
  | R_DeleteContest | R_CreateSeries | R_UpdateSeries | R_DeleteSeries | R_AdminProblems
  | R_CreateProblem | R_AdminProblem | R_CreateProblemRevision | R_UpdateProblemRevision
  | R_PublishProblemRevision | R_CreateProblemTest

datatype route =
    R_static | R_live | R_api api_route | R_Health | R_Home | R_PublicContests | R_PublicContest
  | R_LoginPage | R_RegisterPage | R_Register | R_Login | R_Logout | R_admin admin_route

definition api_routes :: "(string \<times> string \<times> api_route) list" where
  "api_routes =
     [(''GET'', ''/csrf'', R_csrf),
      (''GET'', ''/contests'', R_contests),
      (''POST'', ''/contests'', R_createContest),
      (''GET'', ''/contests/{id}'', R_contest),
      (''PUT'', ''/contests/{id}'', R_updateContest),
      (''DELETE'', ''/contests/{id}'', R_deleteContest),
      (''GET'', ''/contests/{id}/members'', R_members),
      (''PUT'', ''/contests/{id}/members'', R_setMember),
      (''DELETE'', ''/contests/{id}/members/{userID}'', R_deleteMember),
      (''GET'', ''/contests/{id}/series'', R_listSeries),
      (''POST'', ''/contests/{id}/series'', R_saveSeries),
      (''PUT'', ''/contests/{id}/series/order'', R_orderSeries),
      (''PUT'', ''/series/{id}'', R_saveSeries),
      (''DELETE'', ''/series/{id}'', R_deleteSeries),
      (''GET'', ''/series/{id}/problems'', R_assignments),
      (''POST'', ''/series/{id}/problems'', R_assign),
      (''PUT'', ''/series/{id}/problems/order'', R_orderProblems),
      (''DELETE'', ''/series/{id}/problems/{assignmentID}'', R_unassign),
      (''GET'', ''/problems'', R_problems),
      (''POST'', ''/problems'', R_createProblem),
      (''GET'', ''/problems/{id}'', R_problem),
      (''PUT'', ''/problems/{id}'', R_updateProblem),
      (''GET'', ''/problems/{id}/revisions'', R_revisions),
      (''POST'', ''/problems/{id}/revisions'', R_newRevision),
      (''GET'', ''/revisions/{id}'', R_revision),
      (''PUT'', ''/revisions/{id}'', R_updateRevision),
      (''POST'', ''/revisions/{id}/publish'', R_publish),
      (''GET'', ''/revisions/{id}/tests'', R_tests),
      (''POST'', ''/revisions/{id}/tests'', R_saveTest),
      (''PUT'', ''/revisions/{id}/tests/{testID}'', R_saveTest),
      (''DELETE'', ''/revisions/{id}/tests/{testID}'', R_deleteTest),
      (''POST'', ''/revisions/{id}/pdf'', R_uploadPDF),
      (''POST'', ''/revisions/{id}/imports'', R_previewZIP),
      (''POST'', ''/revisions/{id}/imports/{previewID}/commit'', R_commitZIP),
      (''GET'', ''/assignments/{id}'', R_statement),
      (''GET'', ''/artifacts/{id}'', R_download),
      (''POST'', ''/artifacts/gc'', R_collect)]"

definition admin_routes :: "(string \<times> string \<times> admin_route) list" where
  "admin_routes =
     [(''GET'', ''/admin'', R_AdminRedirect),
      (''GET'', ''/admin/contests'', R_AdminDashboard),
      (''POST'', ''/admin/contests'', R_CreateContest),
      (''GET'', ''/admin/contests/{contestID}'', R_AdminContest),
      (''POST'', ''/admin/contests/{contestID}'', R_UpdateContest),
      (''POST'', ''/admin/contests/{contestID}/delete'', R_DeleteContest),
      (''POST'', ''/admin/contests/{contestID}/series'', R_CreateSeries),
      (''POST'', ''/admin/contests/{contestID}/series/{seriesID}'', R_UpdateSeries),
      (''POST'', ''/admin/contests/{contestID}/series/{seriesID}/delete'', R_DeleteSeries),
      (''GET'', ''/admin/problems'', R_AdminProblems),
      (''POST'', ''/admin/problems'', R_CreateProblem),
      (''GET'', ''/admin/problems/{problemID}'', R_AdminProblem),
      (''POST'', ''/admin/problems/{problemID}/revisions'', R_CreateProblemRevision),
      (''POST'', ''/admin/problems/{problemID}/revisions/{revisionID}'', R_UpdateProblemRevision),
      (''POST'', ''/admin/problems/{problemID}/revisions/{revisionID}/publish'', R_PublishProblemRevision),
      (''POST'', ''/admin/problems/{problemID}/revisions/{revisionID}/tests'', R_CreateProblemTest)]"

text \<open>The route for static files takes every method.\<close>

definition site_routes :: "(string \<times> string \<times> route) list" where
  "site_routes =
     (''GET'', ''/live'', R_live) #
     map (\<lambda>(m, p, r). (m, ''/api/v1'' @ p, R_api r)) api_routes @
     [(''GET'', ''/health'', R_Health),
      (''GET'', ''/'', R_Home),
      (''GET'', ''/contests'', R_PublicContests),
      (''GET'', ''/contests/{contestID}'', R_PublicContest),
      (''GET'', ''/login'', R_LoginPage),
      (''GET'', ''/register'', R_RegisterPage),
      (''POST'', ''/register'', R_Register),
      (''POST'', ''/login'', R_Login),
      (''POST'', ''/logout'', R_Logout)] @
     map (\<lambda>(m, p, r). (m, p, R_admin r)) admin_routes"

section \<open>The site\<close>

text \<open>Limits that are missing or not positive get their defaults.\<close>

definition positive_or :: "int \<Rightarrow> int \<Rightarrow> int" where
  "positive_or fallback n = (if n \<le> 0 then fallback else n)"

definition with_defaults :: "server_config \<Rightarrow> server_config" where
  "with_defaults cfg =
     cfg\<lparr>MaxArtifactBytes := positive_or (10 * 2 ^ 20) (MaxArtifactBytes cfg),
         MaxImportBytes := positive_or (50 * 2 ^ 20) (MaxImportBytes cfg),
         MaxImportFiles := positive_or 100 (MaxImportFiles cfg),
         MaxStorageBytes := positive_or (2 ^ 30) (MaxStorageBytes cfg)\<rparr>"

definition service_of :: "crypto \<Rightarrow> unzip \<Rightarrow> server_config \<Rightarrow> service" where
  "service_of K unzip cfg =
     \<lparr>svc_store = \<lparr>MaxBytes = MaxArtifactBytes cfg, MaxTotalBytes = MaxStorageBytes cfg\<rparr>,
      svc_limits = \<lparr>ImportMaxBytes = MaxImportBytes cfg, ImportMaxFiles = MaxImportFiles cfg\<rparr>,
      svc_sha256 = sha256 K, svc_unzip = unzip\<rparr>"

record site =
  site_handler :: handler
  site_config :: server_config
  site_nulls_first :: bool
  site_static :: "http_request \<Rightarrow> response"
  site_match :: "http_request \<Rightarrow> (route \<times> fields) option"
  site_unmatched :: "http_request \<Rightarrow> response"

text \<open>A failing random source stops the program before it serves anything.\<close>

definition NewRouter ::
  "library \<Rightarrow> crypto \<Rightarrow> unzip \<Rightarrow> bool \<Rightarrow> (http_request \<Rightarrow> response) \<Rightarrow>
     (http_request \<Rightarrow> (route \<times> fields) option) \<Rightarrow> (http_request \<Rightarrow> response) \<Rightarrow> server_config \<Rightarrow>
     (database, site) go" where
  "NewRouter L K unzip nulls_first static match unmatched config =
     (let cfg = with_defaults config in
      andThen (call (\<lambda>E n w. (Inr (random_bytes E n), w))) (\<lambda>key.
      ret \<lparr>site_handler = \<lparr>h_library = L, h_crypto = K, h_service = service_of K unzip cfg,
                           h_key = key, h_secure = SecureCookies cfg\<rparr>,
           site_config = cfg, site_nulls_first = nulls_first, site_static = static,
           site_match = match, site_unmatched = unmatched\<rparr>))"

section \<open>Handlers\<close>

fun run_api :: "handler \<Rightarrow> user option \<Rightarrow> http_request \<Rightarrow> api_route \<Rightarrow> (database, response) go" where
  "run_api h u q R_csrf = api_csrf h q"
| "run_api h u q R_contests = endpoint (api_contests u q)"
| "run_api h u q R_createContest = endpoint (api_createContest h u q)"
| "run_api h u q R_contest = endpoint (api_contest u q)"
| "run_api h u q R_updateContest = endpoint (api_updateContest h u q)"
| "run_api h u q R_deleteContest = endpoint (api_deleteContest u q)"
| "run_api h u q R_members = endpoint (api_members u q)"
| "run_api h u q R_setMember = endpoint (api_setMember u q)"
| "run_api h u q R_deleteMember = endpoint (api_deleteMember u q)"
| "run_api h u q R_listSeries = endpoint (api_listSeries u q)"
| "run_api h u q R_saveSeries = endpoint (api_saveSeries h u q)"
| "run_api h u q R_orderSeries = endpoint (api_orderSeries u q)"
| "run_api h u q R_deleteSeries = endpoint (api_deleteSeries u q)"
| "run_api h u q R_assignments = endpoint (api_assignments u q)"
| "run_api h u q R_assign = endpoint (api_assign u q)"
| "run_api h u q R_orderProblems = endpoint (api_orderProblems u q)"
| "run_api h u q R_unassign = endpoint (api_unassign u q)"
| "run_api h u q R_problems = endpoint (api_problems u q)"
| "run_api h u q R_createProblem = endpoint (api_createProblem u q)"
| "run_api h u q R_problem = endpoint (api_problem u q)"
| "run_api h u q R_updateProblem = endpoint (api_updateProblem u q)"
| "run_api h u q R_revisions = endpoint (api_revisions u q)"
| "run_api h u q R_newRevision = endpoint (api_newRevision u q)"
| "run_api h u q R_revision = endpoint (api_revision u q)"
| "run_api h u q R_updateRevision = endpoint (api_updateRevision u q)"
| "run_api h u q R_publish = endpoint (api_publish u q)"
| "run_api h u q R_tests = endpoint (api_tests u q)"
| "run_api h u q R_saveTest = endpoint (api_saveTest h u q)"
| "run_api h u q R_deleteTest = endpoint (api_deleteTest u q)"
| "run_api h u q R_uploadPDF = endpoint (api_uploadPDF h u q)"
| "run_api h u q R_previewZIP = endpoint (api_previewZIP h u q)"
| "run_api h u q R_commitZIP = endpoint (api_commitZIP h u q)"
| "run_api h u q R_statement = endpoint (api_statement u q)"
| "run_api h u q R_download = api_download h u q"
| "run_api h u q R_collect = endpoint (api_collect u)"

fun run_admin :: "handler \<Rightarrow> user option \<Rightarrow> http_request \<Rightarrow> admin_route \<Rightarrow> (database, response) go" where
  "run_admin h u q R_AdminRedirect = AdminRedirect"
| "run_admin h u q R_AdminDashboard = AdminDashboard h u q"
| "run_admin h u q R_CreateContest = page_CreateContest h q"
| "run_admin h u q R_AdminContest = AdminContest h u q"
| "run_admin h u q R_UpdateContest = page_UpdateContest h q"
| "run_admin h u q R_DeleteContest = page_DeleteContest q"
| "run_admin h u q R_CreateSeries = page_CreateSeries u q"
| "run_admin h u q R_UpdateSeries = page_UpdateSeries u q"
| "run_admin h u q R_DeleteSeries = page_DeleteSeries q"
| "run_admin h u q R_AdminProblems = AdminProblems h u q"
| "run_admin h u q R_CreateProblem = page_CreateProblem u q"
| "run_admin h u q R_AdminProblem = AdminProblem h u q"
| "run_admin h u q R_CreateProblemRevision = CreateProblemRevision q"
| "run_admin h u q R_UpdateProblemRevision = UpdateProblemRevision q"
| "run_admin h u q R_PublishProblemRevision = PublishProblemRevision q"
| "run_admin h u q R_CreateProblemTest = CreateProblemTest h u q"

definition static_files :: "site \<Rightarrow> http_request \<Rightarrow> response" where
  "static_files s q =
     (if \<not> (has_prefix (q_path q) ''/static/css/'' \<or> has_prefix (q_path q) ''/static/js/'') \<or>
         contains (q_path q) ''..'' \<or> has_suffix (q_path q) ''/''
      then not_found else site_static s q)"

text \<open>A route's handler; only the forms of signing in and up use the counters of attempts.\<close>

fun run_route ::
  "site \<Rightarrow> bool \<Rightarrow> limiter \<Rightarrow> user option \<Rightarrow> http_request \<Rightarrow> route \<Rightarrow> (database, response \<times> limiter) go" where
  "run_route s busy lim u q R_static = with_limiter lim (ret (static_files s q))"
| "run_route s busy lim u q R_live = with_limiter lim (ret (respond 200 (Text ''ok'')))"
| "run_route s busy lim u q (R_api r) = with_limiter lim (run_api (site_handler s) u q r)"
| "run_route s busy lim u q R_Health = with_limiter lim Health"
| "run_route s busy lim u q R_Home = with_limiter lim (Home (site_handler s) u q)"
| "run_route s busy lim u q R_PublicContests =
     with_limiter lim (PublicContests (site_handler s) (site_nulls_first s) u q)"
| "run_route s busy lim u q R_PublicContest = with_limiter lim (PublicContest (site_handler s) u q)"
| "run_route s busy lim u q R_LoginPage = with_limiter lim (LoginPage (site_handler s) q)"
| "run_route s busy lim u q R_RegisterPage = with_limiter lim (RegisterPage (site_handler s) q)"
| "run_route s busy lim u q R_Register = Register (site_handler s) busy lim q"
| "run_route s busy lim u q R_Login = Login (site_handler s) busy lim q"
| "run_route s busy lim u q R_Logout = with_limiter lim (Logout (site_handler s) q)"
| "run_route s busy lim u q (R_admin r) =
     with_limiter lim
       (RequireAuth u (RequireRole [RoleAdmin] u (\<lambda>q. run_admin (site_handler s) u q r)) q)"

definition dispatch ::
  "site \<Rightarrow> bool \<Rightarrow> limiter \<Rightarrow> user option \<Rightarrow> http_request \<Rightarrow> (database, response \<times> limiter) go" where
  "dispatch s busy lim u q =
     (case site_match s q of
        None \<Rightarrow> ret (site_unmatched s q, lim)
      | Some (r, params) \<Rightarrow> run_route s busy lim u (q\<lparr>q_params := params\<rparr>) r)"

section \<open>A request\<close>

definition refused :: "bool \<Rightarrow> response" where
  "refused api =
     (if api then apiError ErrForbidden
      else renderAccessError 403 ''Your form has expired. Please refresh and try again.'')"

definition handle :: "site \<Rightarrow> bool \<Rightarrow> limiter \<Rightarrow> http_request \<Rightarrow> (database, response \<times> limiter) go" where
  "handle s busy lim q =
     (let h = site_handler s in
      AuthMiddleware (h_crypto h)
        (\<lambda>u. RequestProtection (h_library h) (h_crypto h) (h_key h) (site_config s)
                (dispatch s busy lim u) (\<lambda>api. (refused api, lim))) q)"

end
