(* ===== verification/Requests.thy ===== *)
theory Requests
  imports Server System
begin

text \<open>
  What a request over HTTP amounts to: reads, and operations of the service on behalf of the
  actor. The function may says which operations those are; the locale acting collects what
  every one of them keeps, and shows that then the handler of every route keeps it. An
  instance of the locale turns a fact on the operations into one on the whole site.
\<close>

section \<open>Steps that only read\<close>

lemma keeps_let: "(\<And>x. keeps R (f x)) \<Longrightarrow> keeps R (Let v f)"
  by (simp add: Let_def)

lemma keeps_pair: "(\<And>x y. keeps R (f x y)) \<Longrightarrow> keeps R (case p of (x, y) \<Rightarrow> f x y)"
  by (simp add: split_def)

lemma reads_call_pure:
  "(\<And>E n w. db_same w (snd (f E n w))) \<Longrightarrow> keeps db_same (call f)"
  by (auto simp: keeps_def db_same_def call_def Let_def)

lemma token_reads [read_intros]:
  "keeps db_same generateCSRFToken" "keeps db_same (fresh_csrf K key secure q)"
  "keeps db_same (withCSRFToken K key secure q)" "keeps db_same (api_csrf h q)"
proof -
  show "keeps db_same generateCSRFToken"
    unfolding generateCSRFToken_def by (rule reads_call_pure) (simp add: db_same_def)
  then show "keeps db_same (fresh_csrf K key secure q)" for K key secure q
    unfolding fresh_csrf_def by (intro reads.keeps_rules)
  then show "keeps db_same (withCSRFToken K key secure q)" for K key secure q
    unfolding withCSRFToken_def by (intro reads.keeps_rules)
  then show "keeps db_same (api_csrf h q)"
    unfolding api_csrf_def endpoint_def by (intro reads.keeps_rules)
qed

lemma page_reads [read_intros]:
  "keeps db_same (render_page h q n name data)" "keeps db_same (renderAuthError h q mode message n)"
  "keeps db_same (missing_or message e)" "keeps db_same (bad_request q e)"
  "keeps db_same (renderProblemLoadError e)"
  unfolding renderAuthError_def render_page_def missing_or_def bad_request_def renderProblemLoadError_def
  by (intro read_intros)+

lemma Open_reads [read_intros]: "keeps db_same (Open item)"
  unfolding Open_def by (intro read_intros reads.keeps_on_dir) (auto simp: db_same_def split: option.splits if_splits)

lemma os_call_reads [read_intros]: "keeps db_same os_call"
  unfolding os_call_def by (rule reads_call_pure) (simp add: db_same_def)

lemma loading_reads [read_intros]:
  "keeps db_same (api_manager actor q)" "keeps db_same (loadContest actor q)"
  "keeps db_same (loadProblem actor q)" "keeps db_same (loadRevision actor q)"
  "keeps db_same (apiList q rows order wrap)" "keeps db_same (read_contest h q)"
  "keeps db_same (readOrder q)" "keeps db_same (stored_file actor q)" "keeps db_same (apiAdmin actor)"
  "keeps db_same (upload_content p)"
  unfolding api_manager_def loadContest_def loadProblem_def loadRevision_def apiList_def read_contest_def
    readOrder_def stored_file_def apiAdmin_def upload_content_def
  by (intro read_intros content_reads reading_requests)+

lemma only_part_reads [read_intros]: "keeps db_same (only_part p)"
  by (cases "up_after p") (simp_all add: only_part_def reads.keeps_rules)

lemma form_reads [read_intros]:
  "keeps db_same (readContestForm L q)" "keeps db_same (readSeriesForm q)"
  "keeps db_same (loadProblemRevision q)" "keeps db_same (loadProblemPage actor q)"
proof -
  show "keeps db_same (readContestForm L q)" "keeps db_same (readSeriesForm q)"
    unfolding readContestForm_def readSeriesForm_def by (intro read_intros)+
  show *: "keeps db_same (loadProblemRevision q)"
    unfolding loadProblemRevision_def by (intro read_intros keeps_let)
  then show "keeps db_same (loadProblemPage actor q)"
    unfolding loadProblemPage_def by (intro read_intros)
qed

section \<open>What a route may ask for\<close>

fun may :: "user option \<Rightarrow> request \<Rightarrow> bool" where
  "may u (DoCreateContest c) = admin u"
| "may u (DoDeleteContest k) = admin u"
| "may u (DoCreateAdmin email password name) = False"
| "may u (DoCreateTestCase t) = False"
| "may u (DoSetMember actor k j role) = (actor = u)"
| "may u (DoRemoveMember actor k j) = (actor = u)"
| "may u (DoSaveSeries actor e) = (actor = u)"
| "may u (DoAssign actor a) = (actor = u)"
| "may u (DoReorderSeries actor k ids) = (actor = u)"
| "may u (DoReorderProblems actor k ids) = (actor = u)"
| "may u (DoSaveTest actor k j i) = (actor = u)"
| "may u (DoDeleteTest actor k j) = (actor = u)"
| "may u (DoUploadPDF actor k source) = (actor = u)"
| "may u (DoPreviewZIP actor k source) = (actor = u)"
| "may u (DoCommitZIP actor k j) = (actor = u)"
| "may u (DoCollect actor) = (actor = u)"
| "may u q = True"

lemma keeps_forget: "keeps R (forget m) \<longleftrightarrow> keeps R m"
proof -
  have "snd (forget m E w) = snd (m E w)" for E w
    by (simp add: forget_def andThen_def ret_def split: prod.split sum.split)
  then show ?thesis by (simp add: keeps_def)
qed

locale acting = world_order R
  for R :: "database world \<Rightarrow> database world \<Rightarrow> bool" +
  fixes h :: handler and u :: "user option"
  assumes same: "db_same w w' \<Longrightarrow> R w w'"
    and performed: "may u q \<Longrightarrow> keeps R (perform (h_service h) (h_crypto h) q)"
    and unassigned: "keeps R (exec (\<lambda>t i. delete_series_problems P))"
    and renamed: "keeps R (rename_problem title label item)"
begin

lemma reading: "keeps db_same m \<Longrightarrow> keeps R m"
  by (simp add: keeps_def same)

lemma operations:
  "admin u \<Longrightarrow> keeps R (CreateContest c)" "keeps R (UpdateContest c)"
  "admin u \<Longrightarrow> keeps R (DeleteContest k)" "keeps R (DeleteSeries k)"
  "keeps R (CreateUser (h_crypto h) e p n)" "keeps R (CreateSession (h_crypto h) k)"
  "keeps R (DeleteSession k)" "keeps R (CreateProblem pb rv)" "keeps R (UpdateDraftRevision rv)"
  "keeps R (PublishRevision k at)" "keeps R (CreateDraftRevision k)"
  "keeps R (SetMember u k j role)" "keeps R (RemoveMember u k j)"
  "keeps R (SaveSeries u sr)" "keeps R (Assign u a)" "keeps R (ReorderSeries u k ids)"
  "keeps R (ReorderProblems u k ids)" "keeps R (SaveTest (h_service h) u k j ti)"
  "keeps R (DeleteTest u k j)" "keeps R (UploadPDF (h_service h) u k source)"
  "keeps R (PreviewZIP (h_service h) u k source)" "keeps R (CommitZIP (h_service h) u k j)"
  "keeps R (Collect u)"
  using performed [of "DoCreateContest c"] performed [of "DoUpdateContest c"]
    performed [of "DoDeleteContest k"] performed [of "DoDeleteSeries k"]
    performed [of "DoCreateUser e p n"] performed [of "DoCreateSession k"]
    performed [of "DoDeleteSession k"] performed [of "DoCreateProblem pb rv"]
    performed [of "DoUpdateDraft rv"] performed [of "DoPublish k at"] performed [of "DoCreateDraft k"]
    performed [of "DoSetMember u k j role"] performed [of "DoRemoveMember u k j"]
    performed [of "DoSaveSeries u sr"] performed [of "DoAssign u a"]
    performed [of "DoReorderSeries u k ids"] performed [of "DoReorderProblems u k ids"]
    performed [of "DoSaveTest u k j ti"] performed [of "DoDeleteTest u k j"]
    performed [of "DoUploadPDF u k source"] performed [of "DoPreviewZIP u k source"]
    performed [of "DoCommitZIP u k j"] performed [of "DoCollect u"]
  by (simp_all add: keeps_forget)

text \<open>Behind a check that the actor is an administrator, operations reserved to them count.\<close>

lemma behind_admin: "(admin u \<Longrightarrow> keeps R (f ())) \<Longrightarrow> keeps R (andThen (apiAdmin u) f)"
  by (cases u) (auto simp: apiAdmin_def admin_def keeps_def andThen_def fail_def reject_def ret_def R_refl)

lemma behind_role:
  "(admin u \<Longrightarrow> keeps R (next q)) \<Longrightarrow> keeps R (RequireAuth u (RequireRole [RoleAdmin] u next) q)"
  by (cases u) (auto simp: RequireAuth_def RequireRole_def admin_def keeps_ret)

lemma keeps_or_answer:
  "keeps R m \<Longrightarrow> (\<And>e. keeps R (refuse e)) \<Longrightarrow> (\<And>a. keeps R (work a)) \<Longrightarrow> keeps R (or_answer m refuse work)"
  unfolding or_answer_def by (intro keeps_rules)

lemmas steps = keeps_or_answer keeps_let keeps_pair keeps_rules

text \<open>Every read of a handler, and every operation, is a step.\<close>

lemmas read_steps = read_intros [THEN reading] content_reads [THEN reading] reading_requests [THEN reading]

lemma answered:
  "keeps R m \<Longrightarrow> keeps R (endpoint m)" "keeps R n \<Longrightarrow> keeps R (done_with n)"
  "keeps R i \<Longrightarrow> keeps R (item_of wrap i)" "keeps R p \<Longrightarrow> keeps R (with_limiter lim p)"
  unfolding endpoint_def done_with_def item_of_def with_limiter_def by (intro steps; assumption)+

lemma upload_kept: "(\<And>source. keeps R (work source)) \<Longrightarrow> keeps R (upload q work)"
  unfolding upload_def
  by (simp split: body.split option.split, intro conjI allI impI; intro steps read_steps)

section \<open>The JSON interface\<close>

lemma api_contests_kept:
  "keeps R (api_contests u q)" "keeps R (api_createContest h u q)" "keeps R (api_contest u q)"
  "keeps R (api_updateContest h u q)" "keeps R (api_deleteContest u q)" "keeps R (api_members u q)"
  "keeps R (api_setMember u q)" "keeps R (api_deleteMember u q)" "keeps R (api_listSeries u q)"
  "keeps R (api_saveSeries h u q)" "keeps R (api_deleteSeries u q)" "keeps R (api_orderSeries u q)"
  "keeps R (api_orderProblems u q)" "keeps R (api_assignments u q)" "keeps R (api_assign u q)"
  "keeps R (api_unassign u q)" "keeps R (api_statement u q)"
  unfolding api_contests_def api_createContest_def api_contest_def api_updateContest_def
    api_deleteContest_def api_members_def api_setMember_def api_deleteMember_def api_listSeries_def
    api_saveSeries_def api_deleteSeries_def api_orderSeries_def api_orderProblems_def
    api_assignments_def api_assign_def api_unassign_def api_statement_def
  by (intro behind_admin steps answered operations unassigned read_steps; assumption?)+

lemma api_problems_kept:
  "keeps R (api_problems u q)" "keeps R (api_createProblem u q)" "keeps R (api_problem u q)"
  "keeps R (api_updateProblem u q)" "keeps R (api_revisions u q)" "keeps R (api_newRevision u q)"
  "keeps R (api_revision u q)" "keeps R (api_updateRevision u q)" "keeps R (api_publish u q)"
  "keeps R (api_tests u q)" "keeps R (api_saveTest h u q)" "keeps R (api_deleteTest u q)"
  "keeps R (api_uploadPDF h u q)" "keeps R (api_previewZIP h u q)" "keeps R (api_commitZIP h u q)"
  "keeps R (api_download h u q)" "keeps R (api_collect u)"
  unfolding api_problems_def api_createProblem_def api_problem_def api_updateProblem_def
    api_revisions_def api_newRevision_def api_revision_def api_updateRevision_def api_publish_def
    api_tests_def api_saveTest_def api_deleteTest_def api_uploadPDF_def api_previewZIP_def
    api_commitZIP_def api_download_def api_collect_def
  by (intro upload_kept steps answered operations renamed read_steps; assumption?)+

lemma run_api_kept: "keeps R (run_api h u q r)"
  by (cases r) (simp_all add: answered api_contests_kept api_problems_kept read_steps)

section \<open>Pages and forms\<close>

lemma loaded:
  "(\<And>c. keeps R (work c)) \<Longrightarrow> keeps R (adminContest q work)"
  "(\<And>s. keeps R (work' s)) \<Longrightarrow> keeps R (adminSeries q work')"
  unfolding adminContest_def adminSeries_def by (intro steps read_steps; assumption?)+

lemma run_admin_kept: "admin u \<Longrightarrow> keeps R (run_admin h u q r)"
  by (cases r; simp only: run_admin.simps AdminRedirect_def AdminDashboard_def page_CreateContest_def
      AdminContest_def page_UpdateContest_def page_DeleteContest_def page_CreateSeries_def
      page_UpdateSeries_def page_DeleteSeries_def AdminProblems_def page_CreateProblem_def
      AdminProblem_def CreateProblemRevision_def UpdateProblemRevision_def PublishProblemRevision_def
      CreateProblemTest_def; intro loaded steps operations read_steps; assumption?)

lemma guarded_form_kept:
  "(\<And>email password name. keeps R (work email password name)) \<Longrightarrow>
   keeps R (guarded_form h mode busy lim q work)"
  unfolding guarded_form_def
  by (intro steps answered read_steps; assumption?)

lemma sign_in_kept:
  "keeps R (Register h busy lim q)" "keeps R (Login h busy lim q)" "keeps R (Logout h q)"
  unfolding Register_def Login_def Logout_def
  by (intro guarded_form_kept steps operations read_steps)+

lemma pages_kept:
  "keeps R Health" "keeps R (Home h u q)" "keeps R (LoginPage h q)" "keeps R (RegisterPage h q)"
  "keeps R (PublicContests h b u q)" "keeps R (PublicContest h u q)"
  unfolding Health_def Home_def LoginPage_def RegisterPage_def PublicContests_def PublicContest_def
  by (intro steps read_steps)+

lemma run_route_kept:
  assumes "site_handler s = h"
  shows "keeps R (run_route s busy lim u q r)"
  by (cases r; simp only: run_route.simps assms;
      intro answered run_api_kept sign_in_kept pages_kept behind_role run_admin_kept keeps_ret; assumption?)

lemma dispatch_kept: "site_handler s = h \<Longrightarrow> keeps R (dispatch s busy lim u q)"
  unfolding dispatch_def by (intro steps run_route_kept)

lemma GetUser_kept: "keeps R (GetUser (h_crypto h) q)"
  unfolding GetUser_def by (intro steps operations read_steps)

lemma protected_kept:
  assumes "site_handler s = h"
  shows "keeps R (RequestProtection L K key cfg (dispatch s busy lim u) refuse q)"
  unfolding RequestProtection_def using assms by (intro steps dispatch_kept)

end

text \<open>What is kept for every actor is kept by every request.\<close>

lemma handle_kept:
  assumes "\<And>u. acting R (site_handler s) u"
  shows "keeps R (handle s busy lim q)"
proof -
  have order: "world_order R" using assms acting.axioms(1) by blast
  have next_kept: "keeps R (RequestProtection L K key cfg (dispatch s busy lim u) refuse q)"
    for L K key cfg u and refuse :: "bool \<Rightarrow> response \<times> limiter"
    using assms by (rule acting.protected_kept) simp
  show ?thesis
    unfolding handle_def Let_def AuthMiddleware_def
    by (intro world_order.keeps_if [OF order] world_order.keeps_andThen [OF order] next_kept
        acting.GetUser_kept [OF assms])
qed

end
