(* ===== verification/Governance.thy ===== *)
theory Governance
  imports Membership Requests
begin

text \<open>
  Who governs what: the accounts, the memberships and the set of contests. All requests but
  six leave the three alone whatever happens; this theory shows it operation by operation,
  and instantiates the locale acting with what follows for a whole request over HTTP.
\<close>

section \<open>The governing tables\<close>

definition governance :: "database \<Rightarrow> user list \<times> membership list \<times> id list" where
  "governance d = (users d, memberships d, map c_id (contests d))"

definition governed :: "database world \<Rightarrow> database world \<Rightarrow> bool" where
  "governed w w' \<longleftrightarrow> governance (db w') = governance (db w)"

interpretation governed: world_order governed
  by unfold_locales (auto simp: governed_def)

named_theorems governed_intros

lemmas [governed_intros] = governed.keeps_rules keeps_let

lemma governed_reads: "keeps db_same m \<Longrightarrow> keeps governed m"
  by (simp add: keeps_def db_same_def governed_def)

lemma governed_on_dir [governed_intros]: "keeps governed (on_dir f)"
  by (rule governed.keeps_on_dir) (simp add: governed_def)

lemma governed_call: "(\<And>E n w. db (snd (f E n w)) = db w) \<Longrightarrow> keeps governed (call f)"
  by (auto simp: keeps_def governed_def call_def Let_def)

lemma governed_exec:
  "(\<And>t i d a d'. f t i d = Inr (a, d') \<Longrightarrow> governance d' = governance d) \<Longrightarrow> keeps governed (exec f)"
  by (rule governed.keeps_exec) (auto simp: governed_def)

lemma governing_statements:
  "insert_session s t i d = Inr (a2, d') \<Longrightarrow> governance d' = governance d"
  "insert_series e t i d = Inr (a4, d') \<Longrightarrow> governance d' = governance d"
  "insert_preview p t i d = Inr (a5, d') \<Longrightarrow> governance d' = governance d"
  "insert_artifact b t i d = Inr (a6, d') \<Longrightarrow> governance d' = governance d"
  "insert_problem q t i d = Inr (a7, d') \<Longrightarrow> governance d' = governance d"
  "insert_revision r t i d = Inr (a9, d') \<Longrightarrow> governance d' = governance d"
  "insert_series_problem ap t i d = Inr (a10, d') \<Longrightarrow> governance d' = governance d"
  "insert_test tc t i d = Inr (a11, d') \<Longrightarrow> governance d' = governance d"
  "update_series_rows sel2 upd2 d = Inr (n, d') \<Longrightarrow> governance d' = governance d"
  "update_previews sel3 upd3 d = Inr (n, d') \<Longrightarrow> governance d' = governance d"
  "update_problems sel4 upd4 d = Inr (n, d') \<Longrightarrow> governance d' = governance d"
  "update_revisions sel5 upd5 d = Inr (n, d') \<Longrightarrow> governance d' = governance d"
  "update_series_problems sel6 upd6 d = Inr (n, d') \<Longrightarrow> governance d' = governance d"
  "update_test_cases sel7 upd7 d = Inr (n, d') \<Longrightarrow> governance d' = governance d"
  "delete_sessions sel8 d = Inr (n, d') \<Longrightarrow> governance d' = governance d"
  "delete_previews sel9 d = Inr (n, d') \<Longrightarrow> governance d' = governance d"
  "delete_test_cases sel10 d = Inr (n, d') \<Longrightarrow> governance d' = governance d"
  "delete_series_problems sel11 d = Inr (n, d') \<Longrightarrow> governance d' = governance d"
  "delete_series sel12 d = Inr (n, d') \<Longrightarrow> governance d' = governance d"
  "delete_artifacts sel13 d = Inr (n, d') \<Longrightarrow> governance d' = governance d"
  by (auto simp: insert_session_def insert_series_def insert_preview_def insert_artifact_def
      insert_problem_def insert_revision_def insert_series_problem_def insert_test_def
      update_series_rows_def update_previews_def update_problems_def update_revisions_def
      update_series_problems_def update_test_cases_def delete_sessions_def delete_previews_def
      delete_test_cases_def delete_series_problems_def delete_series_def delete_artifacts_def
      governance_def Let_def elim!: with_rows_InrE split: if_splits)

lemma governing_contests:
  assumes "update_contests sel upd d = Inr (n, d')" and "\<And>c. sel c \<Longrightarrow> c_id (upd c) = c_id c"
  shows "governance d' = governance d"
proof -
  from assms(1) have "d' = d\<lparr>contests := modify sel upd (contests d)\<rparr>"
    by (auto simp: update_contests_def elim!: with_rows_InrE update_rows_InrE)
  moreover have "map c_id (modify sel upd (contests d)) = map c_id (contests d)"
    using assms(2) by (intro map_modify)
  ultimately show ?thesis by (simp add: governance_def)
qed

section \<open>The operations\<close>

lemma governed_contests [governed_intros]:
  "keeps governed (UpdateContest c)" "keeps governed (CreateSeries s)"
  "keeps governed (UpdateSeries s)" "keeps governed (DeleteSeries k)" "keeps governed (lock_contest k)"
  unfolding UpdateContest_def CreateSeries_def UpdateSeries_def DeleteSeries_def lock_contest_def
  by (intro governed_intros governed_exec;
      auto dest: governing_statements elim!: governing_contests)+

lemma governed_sessions [governed_intros]:
  "keeps governed (DeleteSession k)" "keeps governed (CreateSession K k)" "keeps governed (HashPassword K p)"
  unfolding DeleteSession_def CreateSession_def DeleteExpiredSessions_def GenerateToken_def HashPassword_def
  by (intro governed_intros governed_exec governed_call;
      auto dest: governing_statements split: sum.split)+

lemma governed_problems [governed_intros]:
  "keeps governed (CreateProblem p r)" "keeps governed (UpdateDraftRevision r)"
  "keeps governed (PublishRevision k at)" "keeps governed (CreateDraftRevision k)"
  "keeps governed (CreateTestCase t)"
  unfolding CreateProblem_def UpdateDraftRevision_def PublishRevision_def CreateDraftRevision_def
    CreateTestCase_def
  by (intro governed_intros governed_exec governed_reads [OF LockDraft_reads]
      governed_reads [OF problems_go_reads(3)]; auto dest: governing_statements)+

lemma governed_service [governed_intros]:
  "keeps governed (SaveSeries actor s)" "keeps governed (Assign actor a)"
  "keeps governed (ReorderSeries actor k ids)" "keeps governed (ReorderProblems actor k ids)"
  unfolding SaveSeries_def Assign_def ReorderSeries_def ReorderProblems_def reorder_def
    set_series_position_def set_assignment_position_def
  by (intro governed_intros governed_exec content_reads [THEN governed_reads];
      auto dest: governing_statements)+

lemma governed_files [governed_intros]:
  "keeps governed os_call" "keeps governed (Save sha st k name kind source)"
  "keeps governed (save s st k name kind source)" "keeps governed (remove_files keys)"
  "keeps governed (Open item)"
proof -
  show 1: "keeps governed os_call"
    unfolding os_call_def by (intro governed_call) simp
  show 2: "keeps governed (Save sha st k name kind source)" for sha st k name kind source
    unfolding Save_def store_staged_def Ensure_def randomKey_def os_create_temp_def os_write_def
      os_rename_def os_remove_def used_bytes_def os_read_dir_def
    by (intro governed_intros 1 governed_exec governed_call; auto dest: governing_statements)
  show "keeps governed (save s st k name kind source)"
    unfolding save_def by (intro governed_intros 2)
  show "keeps governed (remove_files keys)"
    unfolding remove_files_def Remove_def os_remove_def by (intro governed_intros)
  show "keeps governed (Open item)"
    unfolding Open_def by (intro governed_intros)
qed

lemma governed_fileTransaction:
  assumes "keeps governed body"
  shows "keeps governed (fileTransaction body)"
proof -
  have "keeps governed (transaction body)" using assms by (rule governed.keeps_transaction)
  then have body: "governed w (snd (transaction body E (w\<lparr>saved := []\<rparr>)))" for E w
    by (simp add: keeps_def governed_def)
  have files: "governed w' (snd (remove_files ks E w'))" for ks E w'
    using governed_files(4) by (simp add: keeps_def)
  have "governed w (snd (fileTransaction body E w))" for E w
  proof (cases "transaction body E (w\<lparr>saved := []\<rparr>)")
    case (Pair r w')
    with body [of w E] files [of w' "saved w'" E] show ?thesis
      by (cases r) (auto simp: fileTransaction_def governed_def)
  qed
  then show ?thesis by (simp add: keeps_def)
qed

lemma governed_tests [governed_intros]:
  "keeps governed (SaveTest s actor k j i)" "keeps governed (DeleteTest actor k j)"
  "keeps governed (UploadPDF s actor k source)" "keeps governed (PreviewZIP s actor k source)"
  "keeps governed (CommitZIP s actor k j)"
  unfolding SaveTest_def DeleteTest_def UploadPDF_def PreviewZIP_def CommitZIP_def commit_preview_def
    import_pair_def
  by (intro governed_intros governed_fileTransaction governed_exec content_reads [THEN governed_reads]
      lock_draft_reads [THEN governed_reads]; auto dest: governing_statements)+

lemma governed_Collect [governed_intros]: "keeps governed (Collect actor)"
  unfolding Collect_def collect_rows_def remove_existing_def CollectTemporary_def collect_orphan_def
    Remove_def os_remove_def os_read_dir_def
  by (intro governed_intros governed_exec; auto dest: governing_statements)

text \<open>The requests that do govern.\<close>

fun governing :: "request \<Rightarrow> bool" where
  "governing (DoCreateContest c) = True"
| "governing (DoDeleteContest k) = True"
| "governing (DoCreateUser email password name) = True"
| "governing (DoCreateAdmin email password name) = True"
| "governing (DoSetMember actor k j role) = True"
| "governing (DoRemoveMember actor k j) = True"
| "governing q = False"

lemma perform_governed: "\<not> governing q \<Longrightarrow> keeps governed (perform s K q)"
  by (cases q)
    (simp_all add: keeps_forget governed_intros reading_requests [THEN governed_reads])

section \<open>Accounts\<close>

text \<open>Accounts are only added, and only ordinary ones.\<close>

definition accounts_grow :: "database world \<Rightarrow> database world \<Rightarrow> bool" where
  "accounts_grow w w' \<longleftrightarrow>
     set (users (db w)) \<subseteq> set (users (db w')) \<and>
     (\<forall>x\<in>set (users (db w')). x \<in> set (users (db w)) \<or> u_role x = RoleUser)"

interpretation accounts: world_order accounts_grow
  by unfold_locales (auto simp: accounts_grow_def)

lemma accounts_exec:
  "(\<And>t i d a d'. f t i d = Inr (a, d') \<Longrightarrow> users d' = users d) \<Longrightarrow> keeps accounts_grow (exec f)"
  by (rule accounts.keeps_exec) (auto simp: accounts_grow_def)

lemma accounts_governed: "keeps governed m \<Longrightarrow> keeps accounts_grow m"
  by (simp add: keeps_def governed_def governance_def accounts_grow_def)

lemma accounts_reads: "keeps db_same m \<Longrightarrow> keeps accounts_grow m"
  by (intro accounts_governed governed_reads)

lemma governance_users: "governance d' = governance d \<Longrightarrow> users d' = users d"
  by (simp add: governance_def)

lemma accounts_CreateUser: "keeps accounts_grow (CreateUser K email password name)"
  unfolding CreateUser_def createUser_def
  by (intro accounts.keeps_andThen accounts_governed [OF governed_sessions(3)] accounts.keeps_exec)
    (auto simp: accounts_grow_def insert_user_def elim!: with_rows_InrE insert_row_InrE)

lemma accounts_contests:
  "keeps accounts_grow (CreateContest c)" "keeps accounts_grow (DeleteContest k)"
  "keeps accounts_grow (setMember actor k j role rm)"
  unfolding CreateContest_def DeleteContest_def setMember_def change_member_def
  by (intro accounts.keeps_rules accounts_exec accounts_reads [OF content_reads(3)]
      accounts_reads [OF lock_contest_reads];
      auto simp: insert_contest_def delete_contests_def delete_memberships_def upsert_membership_def Let_def
        elim!: with_rows_InrE split: if_splits)+

lemma perform_accounts: "may u q \<Longrightarrow> keeps accounts_grow (perform s K q)"
proof (cases "governing q")
  case True
  moreover assume "may u q"
  ultimately show ?thesis
    by (cases q)
      (simp_all add: keeps_forget accounts_CreateUser accounts_contests SetMember_def RemoveMember_def)
qed (intro accounts_governed perform_governed)

lemma server_statements:
  "keeps governed (exec (\<lambda>t i. delete_series_problems P))" "keeps governed (rename_problem title label item)"
  unfolding rename_problem_def
  by (intro governed_exec; auto dest: governing_statements split: sum.splits prod.splits)+

interpretation accounts: acting accounts_grow h u for h u
  by unfold_locales
    (auto simp: accounts_grow_def db_same_def perform_accounts server_statements [THEN accounts_governed])

section \<open>Organizers and contests\<close>

text \<open>In an intact database, the organizers and the set of contests stay.\<close>

definition ordinary :: "database world \<Rightarrow> database world \<Rightarrow> bool" where
  "ordinary w w' \<longleftrightarrow>
     (db_ok (db w) \<longrightarrow>
        db_ok (db w') \<and> organizers (db w') = organizers (db w) \<and>
        map c_id (contests (db w')) = map c_id (contests (db w)))"

interpretation ordinary: world_order ordinary
  by unfold_locales (auto simp: ordinary_def)

lemma ordinary_governed: "keeps governed m \<Longrightarrow> keeps (evolving always) m \<Longrightarrow> keeps ordinary m"
  unfolding keeps_def governed_def governance_def ordinary_def evolving_def always_def organizers_def
  using evolves_ok by fastforce

lemma upsert_contests: "upsert_membership m t i d = Inr (x, d') \<Longrightarrow> contests d' = contests d"
  by (auto simp: upsert_membership_def elim!: with_rows_InrE split: if_splits)

lemma ordinary_setMember:
  assumes "\<not> admin actor"
  shows "keeps ordinary (setMember actor k j role rm)"
  unfolding keeps_def
proof (intro allI)
  fix E and w :: "database world"
  obtain r w' where run: "setMember actor k j role rm E w = (r, w')" by (cases "setMember actor k j role rm E w")
  have "map c_id (contests (db w')) = map c_id (contests (db w))"
  proof (cases r)
    case (Inr x)
    with run show ?thesis
      by (auto elim!: setMember_InrE dest!: upsert_contests split: if_splits)
  qed (use run in \<open>auto dest: setMember_Inl\<close>)
  then show "ordinary w (snd (setMember actor k j role rm E w))"
    using setMember_organizers [OF run _ assms] setMember_ok [OF run] by (simp add: run ordinary_def)
qed

lemma ordinary_CreateUser: "keeps ordinary (CreateUser K email password name)"
proof -
  have same: "memberships d' = memberships d \<and> contests d' = contests d"
    if "insert_user x t i d = Inr (a, d')" for x t i d a d'
    using that by (auto simp: insert_user_def elim!: with_rows_InrE)
  have "keeps ordinary (exec (insert_user x))" for x
    by (rule ordinary.keeps_exec) (auto simp: ordinary_def organizers_def dest: same elim: insert_oks)
  moreover have "keeps ordinary (HashPassword K p)" for p
    by (intro ordinary_governed governed_sessions)
      (unfold HashPassword_def, intro evolving_call_pure, simp split: sum.split)
  ultimately show ?thesis
    unfolding CreateUser_def createUser_def by (intro ordinary.keeps_andThen)
qed

lemma perform_ordinary: "may u q \<Longrightarrow> \<not> admin u \<Longrightarrow> keeps ordinary (perform s K q)"
proof (cases "governing q")
  case True
  moreover assume "may u q" "\<not> admin u"
  ultimately show ?thesis
    by (cases q)
      (simp_all add: keeps_forget ordinary_CreateUser ordinary_setMember SetMember_def RemoveMember_def)
qed (intro ordinary_governed perform_governed perform_evolves)

end
