(* ===== verification/Site.thy ===== *)
theory Site
  imports Governance
begin

text \<open>
  The whole site: any traffic of requests over HTTP, each with its own failures and clock,
  and what holds along it.
\<close>

section \<open>Traffic\<close>

type_synonym server_state = "database world \<times> limiter"

inductive serves :: "site \<Rightarrow> server_state \<Rightarrow> server_state \<Rightarrow> bool" for s :: site where
  started: "serves s st st"
| served: "serves s st (w1, lim1) \<Longrightarrow> handle s busy lim1 q E w1 = (Inr (resp, lim2), w2) \<Longrightarrow>
           serves s st (w2, lim2)"

lemma serves_kept:
  assumes "serves s st st'" and "world_order R" and "\<And>busy lim q. keeps R (handle s busy lim q)"
  shows "R (fst st) (fst st')"
  using assms(1)
proof (induction rule: serves.induct)
  case started
  show ?case by (rule world_order.R_refl [OF assms(2)])
next
  case (served st w1 lim1 busy q E resp lim2 w2)
  have "R w1 w2" using world_order.keepsD [OF assms(2,3) served.hyps(2)] .
  with served.IH show ?case by (auto intro: world_order.R_trans [OF assms(2)])
qed

section \<open>Evolution of the database\<close>

lemma unassign_evolves: "keeps (evolving always) (exec (\<lambda>t i. delete_series_problems P))"
proof (intro plain_exec about_always)
  fix t i d n d'
  assume run: "delete_series_problems P d = Inr (n, d')"
  then show "same_core d d'"
    by (auto simp: same_core_def delete_series_problems_def intro: same_pin_there)
  from run show "db_ok d'" if "db_ok d" using that by (rule delete_oks)
qed

lemma rename_evolves: "keeps (evolving always) (rename_problem title label item)"
  unfolding rename_problem_def
proof (intro plain_exec about_always)
  fix t i d a d'
  assume "(case update_problems (\<lambda>p. p_id p = p_id item) (set_problem_names title label t) d of
       Inl e \<Rightarrow> Inl e
     | Inr (n, d') \<Rightarrow> Inr (set_problem_names title label t item, d')) = Inr (a, d')"
  then obtain n where run:
    "update_problems (\<lambda>p. p_id p = p_id item) (set_problem_names title label t) d = Inr (n, d')"
    by (auto split: sum.splits prod.splits)
  then show "same_core d d'" by (rule same_cores)
  from run show "db_ok d'" if "db_ok d"
    by (rule update_problems_ok) (use that in \<open>auto simp: set_problem_names_def\<close>)
qed

interpretation evolving: acting "evolving always" h u for h u
  by unfold_locales
    (auto simp: evolving_def db_same_def evolves_refl perform_evolves unassign_evolves rename_evolves)

lemma ordinary_acting: "\<not> admin u \<Longrightarrow> acting ordinary h u"
  by unfold_locales
    (auto simp: ordinary_def db_same_def perform_ordinary
      intro!: ordinary_governed server_statements unassign_evolves rename_evolves)

lemma site_keeps:
  "keeps (evolving always) (handle s busy lim q)" "keeps accounts_grow (handle s busy lim q)"
  by (rule handle_kept, rule evolving.acting_axioms, rule handle_kept, rule accounts.acting_axioms)

section \<open>Every request is answered\<close>

definition responds :: "('d, 'a) go \<Rightarrow> bool" where
  "responds m \<longleftrightarrow> (\<forall>E w. \<exists>a w'. m E w = (Inr a, w'))"

named_theorems responds_intros

lemma responds_basic [responds_intros]:
  "responds (ret a)" "responds (attempt m)" "responds now"
  by (auto simp: responds_def ret_def attempt_def now_def split: prod.splits)

lemma responds_chain [responds_intros]:
  "responds m \<Longrightarrow> (\<And>a. responds (f a)) \<Longrightarrow> responds (andThen m f)"
  unfolding responds_def by (metis andThen_Inr)

lemma responds_cases [responds_intros]:
  "responds m \<Longrightarrow> responds n \<Longrightarrow> responds (if b then m else n)"
  "responds m \<Longrightarrow> (\<And>a. responds (f a)) \<Longrightarrow> responds (case x of None \<Rightarrow> m | Some a \<Rightarrow> f a)"
  "(\<And>e. responds (g e)) \<Longrightarrow> (\<And>b. responds (k b)) \<Longrightarrow> responds (case y of Inl e \<Rightarrow> g e | Inr b \<Rightarrow> k b)"
  "(\<And>c d. responds (p c d)) \<Longrightarrow> responds (case z of (c, d) \<Rightarrow> p c d)"
  by (simp_all split: option.split sum.split prod.split)

lemma responds_or_answer [responds_intros]:
  "(\<And>e. responds (g e)) \<Longrightarrow> (\<And>a. responds (f a)) \<Longrightarrow> responds (or_answer m g f)"
  unfolding or_answer_def by (intro responds_intros)

lemma responds_pages [responds_intros]:
  "responds (withCSRFToken K key secure q)" "responds (render_page h q n name data)"
  "responds (renderAuthError h q mode message n)" "responds (missing_or message e)"
  "responds (bad_request q e)" "responds (renderProblemLoadError e)" "responds (endpoint m)"
proof -
  show "responds (withCSRFToken K key secure q)" for K key secure q
    unfolding withCSRFToken_def fresh_csrf_def by (intro responds_intros)
  then show "responds (render_page h q n name data)" for h q n name data
    unfolding render_page_def by (intro responds_intros)
  then show "responds (renderAuthError h q mode message n)"
    unfolding renderAuthError_def by blast
  show "responds (missing_or message e)" for message e
    unfolding missing_or_def by (intro responds_intros)
  then show "responds (renderProblemLoadError e)" unfolding renderProblemLoadError_def by blast
  show "responds (bad_request q e)" "responds (endpoint m)"
    unfolding bad_request_def endpoint_def by (intro responds_intros)+
qed

lemma responds_limiter [responds_intros]: "responds m \<Longrightarrow> responds (with_limiter lim m)"
  unfolding with_limiter_def by (intro responds_intros)

lemma responds_loaded [responds_intros]:
  "(\<And>c. responds (f c)) \<Longrightarrow> responds (adminContest q f)" "(\<And>c. responds (g c)) \<Longrightarrow> responds (adminSeries q g)"
  unfolding adminContest_def adminSeries_def by (intro responds_intros; assumption)+

lemma responds_admin: "responds (run_admin h u q r)"
  by (cases r; simp only: run_admin.simps AdminRedirect_def AdminDashboard_def page_CreateContest_def
      AdminContest_def page_UpdateContest_def page_DeleteContest_def page_CreateSeries_def
      page_UpdateSeries_def page_DeleteSeries_def AdminProblems_def page_CreateProblem_def
      AdminProblem_def CreateProblemRevision_def UpdateProblemRevision_def PublishProblemRevision_def
      CreateProblemTest_def; intro responds_intros)

lemma responds_api: "responds (run_api h u q r)"
  by (cases r; simp only: run_api.simps api_csrf_def api_download_def; intro responds_intros)

lemma responds_route: "responds (run_route s busy lim u q r)"
  by (cases r; simp only: run_route.simps Register_def Login_def Logout_def guarded_form_def Health_def
      Home_def LoginPage_def RegisterPage_def PublicContests_def PublicContest_def RequireAuth_def
      RequireRole_def; intro responds_intros responds_api responds_admin)

lemma responds_handle: "responds (handle s busy lim q)"
  unfolding handle_def AuthMiddleware_def RequestProtection_def dispatch_def GetUser_def Let_def
  by (intro responds_intros responds_route)

section \<open>Who a request comes from\<close>

definition presents :: "crypto \<Rightarrow> http_request \<Rightarrow> session \<Rightarrow> bool" where
  "presents K q s \<longleftrightarrow>
     (case cookie q session_cookie of
        None \<Rightarrow> False
      | Some token \<Rightarrow> token \<noteq> [] \<and> ss_token_hash s = hashToken K token)"

text \<open>The only change identification can make: the expired session presented is deleted.\<close>

definition expires :: "crypto \<Rightarrow> http_request \<Rightarrow> env \<Rightarrow> database \<Rightarrow> database \<Rightarrow> bool" where
  "expires K q E d d' \<longleftrightarrow>
     d' = d \<or>
     (\<exists>s n. s \<in> set (sessions d) \<and> presents K q s \<and> ss_expires_at s < clock E n \<and>
        d' = d\<lparr>sessions := filter (\<lambda>x. ss_id x \<noteq> ss_id s) (sessions d)\<rparr>)"

lemma GetSessionByToken_InrE:
  assumes "GetSessionByToken K token E w = (Inr s, w')"
  obtains "s \<in> set (sessions (db w))" and "ss_token_hash s = hashToken K token" and "db w' = db w"
    and "ticks w' = Suc (ticks w)"
  using assms unfolding GetSessionByToken_def by (auto elim!: first_InrE dest!: first_row_Some)

lemma DeleteSession_db:
  "db (snd (DeleteSession k E w)) = db w \<or>
   db (snd (DeleteSession k E w)) = db w\<lparr>sessions := filter (\<lambda>x. ss_id x \<noteq> k) (sessions (db w))\<rparr>"
  by (auto simp: DeleteSession_def andThen_def exec_def call_def Let_def ret_def delete_sessions_def)

lemma GetUser_run:
  assumes "GetUser K q E w = (r, w')"
  obtains "r = Inr None" and "expires K q E (db w) (db w')"
  | x s where "r = Inr (Some x)" and "db w' = db w" and "s \<in> set (sessions (db w))"
      and "presents K q s" and "x \<in> set (users (db w))" and "u_id x = ss_user_id s"
      and "clock E (Suc (ticks w)) \<le> ss_expires_at s"
proof (cases "cookie q session_cookie = None \<or> cookie q session_cookie = Some []")
  case True
  with assms have "r = Inr None" "w' = w"
    by (auto simp: GetUser_def ret_def split: option.splits)
  then show thesis by (intro that(1)) (auto simp: expires_def)
next
  case False
  then obtain token where t: "cookie q session_cookie = Some token" "token \<noteq> []" by auto
  obtain f w1 where g: "GetSessionByToken K token E w = (f, w1)" by (cases "GetSessionByToken K token E w")
  have same: "db w1 = db w" using db_sameD [OF accounts_go_reads(2) g] by simp
  show thesis
  proof (cases f)
    case (Inl e)
    with assms t g have "r = Inr None" "w' = w1"
      by (auto simp: GetUser_def ret_def andThen_def attempt_def)
    with same show thesis by (intro that(1)) (auto simp: expires_def)
  next
    case (Inr s)
    with g have s: "s \<in> set (sessions (db w))" "ss_token_hash s = hashToken K token"
      and tick: "ticks w1 = Suc (ticks w)" by (auto elim: GetSessionByToken_InrE)
    with t have p: "presents K q s" by (simp add: presents_def)
    let ?w = "w1\<lparr>ticks := Suc (ticks w1)\<rparr>"
    show thesis
    proof (cases "clock E (Suc (ticks w)) > ss_expires_at s")
      case True
      with assms t g Inr tick have "r = Inr None" "w' = snd (DeleteSession (ss_id s) E ?w)"
        by (auto simp: GetUser_def ret_def andThen_def attempt_def now_def split: prod.splits)
      with True s p show thesis
        using DeleteSession_db [of "ss_id s" E ?w]
        by (intro that(1)) (auto simp: expires_def same)
    next
      case live: False
      obtain g2 w2 where u: "first users u_id (\<lambda>u. u_id u = ss_user_id s) E ?w = (g2, w2)"
        by (cases "first users u_id (\<lambda>u. u_id u = ss_user_id s) E ?w")
      have same2: "db w2 = db w" using db_sameD [OF reads.keeps_first u] same by simp
      from live assms t g Inr tick u have r: "w' = w2" "r = Inr (case g2 of Inl e \<Rightarrow> None | Inr x \<Rightarrow> Some x)"
        by (auto simp: GetUser_def ret_def andThen_def attempt_def now_def split: prod.splits)
      show thesis
      proof (cases g2)
        case (Inl e)
        with r same2 show thesis by (intro that(1)) (auto simp: expires_def)
      next
        case x: (Inr x)
        with u same have "x \<in> set (users (db w)) \<and> u_id x = ss_user_id s"
          by (auto elim!: first_InrE dest!: first_row_Some)
        with r x same2 s p live show thesis by (intro that(2)) auto
      qed
    qed
  qed
qed

text \<open>A handled request: identification, then the rest on behalf of whoever was found.\<close>

lemma handle_InrE:
  assumes "handle s busy lim q E w = (r, w')"
  obtains u w1 where "expires (h_crypto (site_handler s)) q E (db w) (db w1)"
    and "u = None \<or> GetUser (h_crypto (site_handler s)) q E w = (Inr u, w1)"
    and "RequestProtection (h_library (site_handler s)) (h_crypto (site_handler s)) (h_key (site_handler s))
           (site_config s) (dispatch s busy lim u) (\<lambda>api. (refused api, lim)) q E w1 = (r, w')"
proof (cases "open_path q")
  case True
  with assms show thesis
    by (intro that [of w None]) (auto simp: handle_def AuthMiddleware_def Let_def expires_def)
next
  case False
  obtain g w1 where g: "GetUser (h_crypto (site_handler s)) q E w = (g, w1)"
    by (cases "GetUser (h_crypto (site_handler s)) q E w")
  then obtain u where u: "g = Inr u" and "expires (h_crypto (site_handler s)) q E (db w) (db w1)"
    by (elim GetUser_run) (auto simp: expires_def)
  with False assms g show thesis
    by (intro that [of w1 u]) (auto simp: handle_def AuthMiddleware_def Let_def andThen_def)
qed

end
