(* ===== verification/Traffic.thy ===== *)
theory Traffic
  imports Site Samples
begin

text \<open>
  What holds of the site for any traffic and any schedule of failures: every request is
  answered, identity comes from live sessions only, and which requests may change what.
\<close>

section \<open>Concrete inputs\<close>

definition sample_library :: library where
  "sample_library =
     \<lparr>parse_url = \<lambda>s. None, parse_address = Some, lower = to_lower_ascii, split_host = \<lambda>s. None,
      parse_rfc3339 = \<lambda>s. None, parse_form_time = \<lambda>s. None, format_attachment = \<lambda>s. s\<rparr>"

definition sample_handler :: handler where
  "sample_handler =
     \<lparr>h_library = sample_library, h_crypto = sample_crypto, h_service = sample_service, h_key = [],
      h_secure = True\<rparr>"

definition sample_config :: server_config where
  "sample_config =
     \<lparr>SecureCookies = True, PublicURL = None, MaxArtifactBytes = 50, MaxStorageBytes = 1000,
      MaxImportBytes = 100, MaxImportFiles = 10\<rparr>"

text \<open>A matcher for paths written as the patterns themselves; every parameter is 1.\<close>

definition sample_match :: "http_request \<Rightarrow> (route \<times> fields) option" where
  "sample_match q =
     map_option (\<lambda>(m, p, r). (r, [(''id'', ''1''), (''contestID'', ''1'')]))
       (find (\<lambda>(m, p, r). m = q_method q \<and> p = q_path q) site_routes)"

definition sample_site :: site where
  "sample_site =
     \<lparr>site_handler = sample_handler, site_config = sample_config, site_nulls_first = True,
      site_static = \<lambda>q. not_found, site_match = sample_match, site_unmatched = \<lambda>q. not_found\<rparr>"

definition sample_token :: string where
  "sample_token = replicate 64 CHR ''a'' @ dot # hex_encode (replicate 32 CHR 0x00)"

definition sample_request :: "string \<Rightarrow> string \<Rightarrow> http_request" where
  "sample_request m p =
     \<lparr>q_method = m, q_path = p, q_params = [], q_query = [], q_host = ''contest'', q_tls = True,
      q_remote = ''1.2.3.4'', q_headers = [(''X-CSRF-Token'', sample_token)],
      q_cookies = [(session_cookie, ''secret''), (csrf_cookie, sample_token)], q_length = 0,
      q_form = Some [], q_media = None, q_body = NoBody\<rparr>"

definition sample_session :: "id \<Rightarrow> session" where
  "sample_session k =
     \<lparr>ss_id = 1, ss_user_id = k, ss_token_hash = hashToken sample_crypto ''secret'',
      ss_expires_at = 1000, ss_created_at = 1\<rparr>"

text \<open>The sample world with one session, of the given user.\<close>

definition session_world :: "id \<Rightarrow> database world" where
  "session_world k = sample_world\<lparr>db := sample_db\<lparr>sessions := [sample_session k]\<rparr>\<rparr>"

lemma session_world_ok [simp]: "db_ok (db (session_world 1))" "db_ok (db (session_world 2))"
  by code_simp+

section \<open>Routes that read\<close>











text \<open>Requests that come without an administrator's session are made for no administrator.\<close>

lemma no_admin_found:
  assumes "u = None \<or> GetUser K q E w = (Inr u, w1)"
    and "\<And>s x. s \<in> set (sessions (db w)) \<Longrightarrow> x \<in> set (users (db w)) \<Longrightarrow> presents K q s \<Longrightarrow>
           u_id x = ss_user_id s \<Longrightarrow> u_role x \<noteq> RoleAdmin"
  shows "\<not> admin u"
  using assms by (cases u) (auto simp: admin_def elim: GetUser_run)

lemma expires_governance: "expires K q E d d' \<Longrightarrow> governance d' = governance d"
  by (auto simp: expires_def governance_def)

lemma expires_ok:
  assumes "expires K q E d d'" and "db_ok d"
  shows "db_ok d'"
proof -
  have "delete_sessions (\<lambda>x. ss_id x = k) d =
      Inr (length (filter (\<lambda>x. ss_id x = k) (sessions d)), d\<lparr>sessions := filter (\<lambda>x. ss_id x \<noteq> k) (sessions d)\<rparr>)" for k
    by (simp add: delete_sessions_def)
  then have "db_ok (d\<lparr>sessions := filter (\<lambda>x. ss_id x \<noteq> k) (sessions d)\<rparr>)" for k
    using assms(2) by (rule delete_oks)
  with assms show ?thesis by (auto simp: expires_def)
qed

lemma limited_same:
  "cookie (limit_request n q) = cookie q" "header (limit_request n q) = header q"
  "q_host (limit_request n q) = q_host q" "q_tls (limit_request n q) = q_tls q"
  by (simp_all add: limit_request_def cookie_def header_def fun_eq_iff)

lemma limited_tokens:
  "sameOrigin L (limit_request n q) url = sameOrigin L q url"
  "validSignedCSRF K key (limit_request n q) token = validSignedCSRF K key q token"
  by (simp_all only: sameOrigin_def validSignedCSRF_def signCSRF_def session_value_def limited_same)

lemma limited_repetition: "validRequestCSRF (limit_request n q) \<Longrightarrow> validRequestCSRF q"
proof -
  have "q_form (limit_request n q) = q_form q \<or> q_form (limit_request n q) = None"
    by (simp add: limit_request_def)
  then show "validRequestCSRF (limit_request n q) \<Longrightarrow> validRequestCSRF q"
    by (cases "cookie q csrf_cookie") (auto simp: validRequestCSRF_def limited_same split: if_splits)
qed

lemma forged_limited: "forged L K key url q \<Longrightarrow> forged L K key url (limit_request n q)"
  unfolding forged_def limited_tokens limited_same using limited_repetition [of n q] by blast

section \<open>Properties\<close>

text \<open>
  Every request is answered: whatever the request, the state of the server and the
  failures, the handler returns a response: an error of any operation below becomes one.
\<close>

theorem every_request_answered:
  "\<exists>resp lim' w'. handle s busy lim q E w = (Inr (resp, lim'), w')"
  using responds_handle [of s busy lim q] unfolding responds_def by (metis surj_pair)

text \<open>
  C3: A request counts as a user's only when its session cookie is the token of a session
  of that user which has not expired; finding out changes nothing.
\<close>

theorem identity_needs_live_session:
  assumes "GetUser K q E w = (Inr (Some x), w')"
  shows "\<exists>ss\<in>set (sessions (db w)).
           presents K q ss \<and> x \<in> set (users (db w)) \<and> u_id x = ss_user_id ss \<and>
           clock E (Suc (ticks w)) \<le> ss_expires_at ss \<and> db w' = db w"
  using assms by (elim GetUser_run) auto

theorem identity_needs_live_session_witness:
  "GetUser sample_crypto (sample_request ''GET'' ''/'') (sample_env 150) (session_world 2) =
     (Inr (Some author), snd (GetUser sample_crypto (sample_request ''GET'' ''/'') (sample_env 150) (session_world 2))) \<and>
   list_ex (\<lambda>ss. 150 \<le> ss_expires_at ss) (sessions (db (session_world 2)))"
proof -
  let ?m = "GetUser sample_crypto (sample_request ''GET'' ''/'') (sample_env 150) (session_world 2)"
  have "fst ?m = Inr (Some author)" by code_simp
  then have run: "?m = (Inr (Some author), snd ?m)" by (rule run_result)
  have "clock (sample_env 150) n = 150" for n by (simp add: sample_env_def)
  with identity_needs_live_session [OF run] run show ?thesis by (auto simp: list_ex_iff)
qed

text \<open>
  C6: Over any traffic the contents evolve as they may: the schema stays intact, published
  revisions with their tests and files stay as they are, assignments stay pinned.
\<close>

theorem traffic_evolves:
  assumes "serves s st st'" and "db_ok (db (fst st))"
  shows "evolves (db (fst st)) (db (fst st'))"
  using serves_kept [OF assms(1) evolving.world_order_axioms site_keeps(1)] assms(2)
  by (simp add: evolving_def always_def)

theorem traffic_evolves_witness:
  "evolves (db (session_world 1)) (db (snd (handle sample_site False []
      (sample_request ''DELETE'' ''/api/v1/contests/{id}'') (sample_env 150) (session_world 1))))"
proof -
  let ?m = "handle sample_site False [] (sample_request ''DELETE'' ''/api/v1/contests/{id}'')
      (sample_env 150) (session_world 1)"
  obtain resp lim w where run: "?m = (Inr (resp, lim), w)"
    using responds_handle unfolding responds_def by (metis surj_pair)
  have "serves sample_site (session_world 1, []) (w, lim)"
    using serves.started run by (rule serves.served)
  from traffic_evolves [OF this] run show ?thesis by (simp del: One_nat_def)
qed

text \<open>
  C21: No traffic makes an administrator: accounts are never changed or removed, and the
  ones added are ordinary, so administrators come from the operator's command alone.
\<close>

theorem traffic_makes_no_admins:
  assumes "serves s st st'"
  shows "set (users (db (fst st))) \<subseteq> set (users (db (fst st'))) \<and>
         {x \<in> set (users (db (fst st'))). u_role x \<noteq> RoleUser} = {x \<in> set (users (db (fst st))). u_role x \<noteq> RoleUser}"
  using serves_kept [OF assms accounts.world_order_axioms site_keeps(2)]
  by (auto simp: accounts_grow_def)

theorem traffic_makes_no_admins_witness:
  "{x \<in> set (users (db (snd (handle sample_site False []
      (sample_request ''POST'' ''/register'') (sample_env 150) (session_world 2))))). u_role x \<noteq> RoleUser} = {root_user}"
proof -
  let ?m = "handle sample_site False [] (sample_request ''POST'' ''/register'') (sample_env 150) (session_world 2)"
  obtain resp lim w where run: "?m = (Inr (resp, lim), w)"
    using responds_handle unfolding responds_def by (metis surj_pair)
  have "serves sample_site (session_world 2, []) (w, lim)"
    using serves.started run by (rule serves.served)
  from traffic_makes_no_admins [OF this] run
  have "{x \<in> set (users (db (snd ?m))). u_role x \<noteq> RoleUser} = {x \<in> set (users sample_db). u_role x \<noteq> RoleUser}"
    by (simp add: session_world_def)
  also have "\<dots> = {root_user}"
    by (auto simp: sample_db_def root_user_def author_def participant_def outsider_def sample_user_def db_constants)
  finally show ?thesis .
qed

text \<open>
  C5: Without the session of an administrator a request changes neither who organizes a
  contest nor which contests there are, whatever route it takes and whatever fails.
\<close>

theorem governing_needs_admin_session:
  assumes "handle s busy lim q E w = (r, w')" and "db_ok (db w)"
    and "\<forall>ss\<in>set (sessions (db w)). \<forall>x\<in>set (users (db w)).
           presents (h_crypto (site_handler s)) q ss \<longrightarrow> u_id x = ss_user_id ss \<longrightarrow> u_role x \<noteq> RoleAdmin"
  shows "organizers (db w') = organizers (db w) \<and>
         map c_id (contests (db w')) = map c_id (contests (db w))"
proof -
  from assms(1) obtain u w1 where e: "expires (h_crypto (site_handler s)) q E (db w) (db w1)"
    and u: "u = None \<or> GetUser (h_crypto (site_handler s)) q E w = (Inr u, w1)"
    and rest: "RequestProtection (h_library (site_handler s)) (h_crypto (site_handler s)) (h_key (site_handler s))
           (site_config s) (dispatch s busy lim u) (\<lambda>api. (refused api, lim)) q E w1 = (r, w')"
    by (rule handle_InrE)
  have "\<not> admin u" using u by (rule no_admin_found) (use assms(3) in blast)
  then have "keeps ordinary (RequestProtection (h_library (site_handler s)) (h_crypto (site_handler s))
      (h_key (site_handler s)) (site_config s) (dispatch s busy lim u) (\<lambda>api. (refused api, lim)) q)"
    by (rule acting.protected_kept [OF ordinary_acting refl])
  then have "ordinary w1 w'" using rest by (rule ordinary.keepsD)
  with expires_ok [OF e assms(2)] expires_governance [OF e] show ?thesis
    by (simp add: ordinary_def governance_def organizers_def)
qed

theorem governing_needs_admin_session_witness:
  "map c_id (contests (db (snd (handle sample_site False []
      (sample_request ''DELETE'' ''/api/v1/contests/{id}'') (sample_env 150) (session_world 2))))) = [1]"
proof -
  have "\<forall>ss\<in>set (sessions (db (session_world 2))). \<forall>x\<in>set (users (db (session_world 2))).
      u_id x = ss_user_id ss \<longrightarrow> u_role x \<noteq> RoleAdmin" by code_simp
  moreover have "map c_id (contests (db (session_world 2))) = [1]" by code_simp
  ultimately show ?thesis
    using governing_needs_admin_session [OF prod.collapse [symmetric], of "session_world 2" sample_site] by auto
qed

text \<open>
  C4: A forged request to change something is refused before any handler runs: without a
  matching origin, a token signed for the session, or its repetition in the header or form,
  the answer is the refusal, and at most the expired session presented is gone.
\<close>

theorem forged_requests_refused:
  assumes "handle s busy lim q E w = (Inr (resp, lim'), w')" and "\<not> safe_method q"
    and "forged (h_library (site_handler s)) (h_crypto (site_handler s)) (h_key (site_handler s))
           (PublicURL (site_config s)) q"
  shows "resp = refused (has_prefix (q_path q) ''/api/'') \<and> lim' = lim \<and>
         expires (h_crypto (site_handler s)) q E (db w) (db w')"
  using assms(1)
proof (rule handle_InrE)
  fix u w1
  assume "expires (h_crypto (site_handler s)) q E (db w) (db w1)"
    and "RequestProtection (h_library (site_handler s)) (h_crypto (site_handler s)) (h_key (site_handler s))
      (site_config s) (dispatch s busy lim u) (\<lambda>api. (refused api, lim)) q E w1 = (Inr (resp, lim'), w')"
  moreover have "q_path (limit_request n q) = q_path q" for n
    by (simp add: limit_request_def)
  ultimately show ?thesis
    using assms(2) forged_limited [OF assms(3)]
    by (simp add: RequestProtection_def Let_def ret_def)
qed

theorem forged_requests_refused_witness:
  "\<exists>lim' w'. handle sample_site False [] ((sample_request ''DELETE'' ''/api/v1/contests/{id}'')\<lparr>q_headers := []\<rparr>)
       (sample_env 150) (session_world 1) = (Inr (apiError ErrForbidden, lim'), w')"
proof -
  let ?q = "(sample_request ''DELETE'' ''/api/v1/contests/{id}'')\<lparr>q_headers := []\<rparr>"
  obtain resp lim w where run: "handle sample_site False [] ?q (sample_env 150) (session_world 1) = (Inr (resp, lim), w)"
    using responds_handle unfolding responds_def by (metis surj_pair)
  have "\<not> safe_method ?q" "forged (h_library (site_handler sample_site)) (h_crypto (site_handler sample_site))
      (h_key (site_handler sample_site)) (PublicURL (site_config sample_site)) ?q" "has_prefix (q_path ?q) ''/api/''"
    by code_simp+
  with forged_requests_refused [OF run] run show ?thesis by (simp add: refused_def)
qed



end
