(* ===== verification/Sign_In_Facts.thy ===== *)
theory Sign_In_Facts
  imports Traffic
begin

text \<open>
  Signing in: a session cookie handed out identifies its user until it expires, the bound on
  attempts is kept in every minute and never locks an account for good, and the tokens
  against forged requests are exactly the signed ones.
\<close>

section \<open>Sessions\<close>

lemma HashPassword_db: "keeps db_same (HashPassword K p)"
  unfolding HashPassword_def by (rule reads_call_pure) (simp add: db_same_def split: sum.split)








section \<open>The bound on attempts\<close>

text \<open>The attempts let through, of a sequence of attempts at the given times with the given keys.\<close>

fun admitted :: "limiter \<Rightarrow> (time \<times> string list) list \<Rightarrow> (time \<times> string list) list" where
  "admitted lim [] = []"
| "admitted lim ((at, keys) # rest) =
     (case allowAuthAttempt at keys lim of
        (ok, lim') \<Rightarrow> (if ok then [(at, keys)] else []) @ admitted lim' rest)"

definition hits :: "string \<Rightarrow> (time \<Rightarrow> bool) \<Rightarrow> (time \<times> string list) list \<Rightarrow> nat" where
  "hits key P calls = length (filter (\<lambda>c. key \<in> set (snd c) \<and> P (fst c)) calls)"

lemma hits_append [simp]: "hits key P (a @ b) = hits key P a + hits key P b"
  by (simp add: hits_def)

lemma hits_Cons [simp]:
  "hits key P (c # cs) = (if key \<in> set (snd c) \<and> P (fst c) then Suc (hits key P cs) else hits key P cs)"
  by (simp add: hits_def)

lemma hits_Nil [simp]: "hits key P [] = 0"
  by (simp add: hits_def)

lemma hits_mono: "(\<And>t. P t \<Longrightarrow> Q t) \<Longrightarrow> hits key P cs \<le> hits key Q cs"
  by (induction cs) auto

lemma hits_split: "(\<And>t. P t \<Longrightarrow> Q t \<or> R t) \<Longrightarrow> hits key P cs \<le> hits key Q cs + hits key R cs"
  by (induction cs) auto

text \<open>
  What the counters know of the past attempts of a key: the last bucket started at s and
  counts those since; in the minute before s there were at most the limit; and the bucket is
  in the table unless its minute is over.
\<close>

definition last_bucket :: "string \<Rightarrow> (time \<times> string list) list \<Rightarrow> time \<Rightarrow> nat \<Rightarrow> bool" where
  "last_bucket key past s c \<longleftrightarrow>
     zero_time < s \<and> c \<le> attempt_limit \<and> hits key (\<lambda>t. s \<le> t) past = c \<and>
     hits key (\<lambda>t. s - minute_ns \<le> t \<and> t < s) past \<le> attempt_limit \<and>
     hits key (\<lambda>t. s + minute_ns \<le> t) past = 0"

definition tracked :: "string \<Rightarrow> limiter \<Rightarrow> time \<Rightarrow> (time \<times> string list) list \<Rightarrow> bool" where
  "tracked key lim at past \<longleftrightarrow>
     (\<exists>s c. last_bucket key past s c \<and> s \<le> at \<and>
        (map_of lim key = Some \<lparr>at_count = c, at_start = s\<rparr> \<or>
         map_of lim key = None \<and> s + minute_ns \<le> at)) \<or>
     hits key (\<lambda>t. True) past = 0 \<and> map_of lim key = None"

lemma last_bucket_window:
  assumes "last_bucket key past s c" and "s < t + minute_ns"
  shows "hits key (\<lambda>u. t \<le> u \<and> u < t + minute_ns) past \<le> 2 * attempt_limit"
proof -
  have "hits key (\<lambda>u. t \<le> u \<and> u < t + minute_ns) past \<le>
      hits key (\<lambda>u. s \<le> u) past + hits key (\<lambda>u. s - minute_ns \<le> u \<and> u < s) past"
    by (rule hits_split) (use assms(2) in auto)
  with assms(1) show ?thesis by (simp add: last_bucket_def)
qed

lemma map_of_filter_value:
  "distinct (map fst xs) \<Longrightarrow>
   map_of (filter (\<lambda>e. P (snd e)) xs) k = (case map_of xs k of None \<Rightarrow> None | Some v \<Rightarrow> if P v then Some v else None)"
proof (induction xs)
  case (Cons x xs)
  then have "fst x = k \<Longrightarrow> map_of xs k = None" by (auto simp: map_of_eq_None_iff)
  with Cons show ?case by (cases x) (auto split: option.splits)
qed simp

lemma map_of_other: "j \<noteq> k \<Longrightarrow> map_of (filter (\<lambda>e. fst e \<noteq> j) xs) k = map_of xs k"
  by (induction xs) auto

lemma count_attempt_map:
  "map_of (count_attempt at j lim) k =
     (if k = j then Some ((bucket at lim j)\<lparr>at_count := Suc (at_count (bucket at lim j))\<rparr>) else map_of lim k)"
  by (simp add: count_attempt_def map_of_other)

lemma bucket_cong: "map_of lim' k = map_of lim k \<Longrightarrow> bucket at lim' k = bucket at lim k"
  by (simp add: bucket_def)

lemma count_attempts_map:
  "distinct keys \<Longrightarrow> map_of (fold (count_attempt at) keys lim) k =
     (if k \<in> set keys then Some ((bucket at lim k)\<lparr>at_count := Suc (at_count (bucket at lim k))\<rparr>) else map_of lim k)"
proof (induction keys arbitrary: lim)
  case (Cons j js)
  show ?case
  proof (cases "k = j")
    case True
    with Cons show ?thesis by (simp add: count_attempt_map)
  next
    case False
    then have "bucket at (count_attempt at j lim) k = bucket at lim k"
      by (intro bucket_cong) (simp add: count_attempt_map)
    with Cons False show ?thesis by (simp add: count_attempt_map)
  qed
qed simp

lemma distinct_filter: "distinct (map fst lim) \<Longrightarrow> distinct (map fst (filter P lim))"
  by (rule distinct_map_filter)

lemma distinct_count_attempts:
  "distinct (map fst lim) \<Longrightarrow> distinct (map fst (fold (count_attempt at) keys lim))"
proof (induction keys arbitrary: lim)
  case (Cons j js)
  have "distinct (map fst (count_attempt at j lim))"
    using distinct_filter [OF Cons.prems] by (auto simp: count_attempt_def)
  with Cons.IH show ?case by simp
qed simp

lemma allowAuthAttempt_cases:
  assumes "allowAuthAttempt at keys lim = (ok, lim')"
  obtains "\<not> ok" and "lim' = filter (\<lambda>e. \<not> stale at (snd e)) lim"
  | "ok" and "lim' = fold (count_attempt at) keys (filter (\<lambda>e. \<not> stale at (snd e)) lim)"
    and "\<And>key. key \<in> set keys \<Longrightarrow>
           at_count (bucket at (filter (\<lambda>e. \<not> stale at (snd e)) lim) key) < attempt_limit"
  using assms by (auto simp: allowAuthAttempt_def Let_def not_le [symmetric] split: if_splits)

lemma distinct_allowed:
  "distinct (map fst lim) \<Longrightarrow> allowAuthAttempt at keys lim = (ok, lim') \<Longrightarrow> distinct (map fst lim')"
  by (elim allowAuthAttempt_cases) (auto intro: distinct_count_attempts distinct_filter)

text \<open>One attempt let through: what its bucket was, and what is counted afterwards.\<close>

lemma last_bucket_hit:
  assumes "last_bucket key past s c" and "s \<le> at" and "at < s + minute_ns" and "c < attempt_limit"
    and "key \<in> set keys"
  shows "last_bucket key (past @ [(at, keys)]) s (Suc c)"
  using assms by (auto simp: last_bucket_def)

lemma last_bucket_new:
  assumes "hits key (\<lambda>t. at \<le> t) past = 0" and "hits key (\<lambda>t. at - minute_ns \<le> t \<and> t < at) past \<le> attempt_limit"
    and "key \<in> set keys" and "zero_time < at"
  shows "last_bucket key (past @ [(at, keys)]) at 1"
proof -
  have "hits key (\<lambda>t. at + minute_ns \<le> t) past \<le> hits key (\<lambda>t. at \<le> t) past"
    by (rule hits_mono) (use minute_ns_pos in linarith)
  with assms minute_ns_pos show ?thesis by (simp add: last_bucket_def attempt_limit_def not_le)
qed

lemma last_bucket_over:
  assumes "last_bucket key past s c" and "s + minute_ns \<le> at"
  shows "hits key (\<lambda>t. at \<le> t) past = 0"
    and "hits key (\<lambda>t. at - minute_ns \<le> t \<and> t < at) past \<le> attempt_limit"
proof -
  have "hits key (\<lambda>t. at \<le> t) past \<le> hits key (\<lambda>t. s + minute_ns \<le> t) past"
    by (rule hits_mono) (use assms(2) in linarith)
  with assms(1) show "hits key (\<lambda>t. at \<le> t) past = 0" by (simp add: last_bucket_def)
  have "hits key (\<lambda>t. at - minute_ns \<le> t \<and> t < at) past \<le> hits key (\<lambda>t. s \<le> t) past"
    by (rule hits_mono) (use assms(2) in linarith)
  with assms(1) show "hits key (\<lambda>t. at - minute_ns \<le> t \<and> t < at) past \<le> attempt_limit"
    by (simp add: last_bucket_def)
qed

text \<open>After the stale buckets are dropped, either the last one is there or its minute is over.\<close>

lemma tracked_purged:
  assumes "tracked key lim before past" and "distinct (map fst lim)" and "before \<le> at"
  shows "tracked key (filter (\<lambda>e. \<not> stale at (snd e)) lim) at past"
proof -
  note purged = map_of_filter_value [OF assms(2), of "\<lambda>a. \<not> stale at a" key]
  show ?thesis
    using assms(1) unfolding tracked_def purged
  proof (elim disjE exE conjE)
    fix s c
    assume "last_bucket key past s c" "s \<le> before" and e: "map_of lim key = Some \<lparr>at_count = c, at_start = s\<rparr>"
    with assms(3) show "(\<exists>s c. last_bucket key past s c \<and> s \<le> at \<and>
        ((case map_of lim key of None \<Rightarrow> None | Some a \<Rightarrow> if \<not> stale at a then Some a else None) =
           Some \<lparr>at_count = c, at_start = s\<rparr> \<or>
         (case map_of lim key of None \<Rightarrow> None | Some a \<Rightarrow> if \<not> stale at a then Some a else None) = None \<and>
           s + minute_ns \<le> at)) \<or>
        hits key (\<lambda>t. True) past = 0 \<and>
        (case map_of lim key of None \<Rightarrow> None | Some a \<Rightarrow> if \<not> stale at a then Some a else None) = None"
      by (intro disjI1 exI [of _ s] exI [of _ c]) (auto simp: stale_def)
  qed (use assms(3) in \<open>force+\<close>)
qed

lemma hits_none: "hits key (\<lambda>t. True) past = 0 \<Longrightarrow> hits key P past = 0"
  by (induction past) (auto split: if_splits)

lemma attempt_hit:
  assumes "tracked key lim at past" and "zero_time < at" and "at_count (bucket at lim key) < attempt_limit"
    and "key \<in> set keys" and "\<And>e. e \<in> set lim \<Longrightarrow> \<not> stale at (snd e)"
  shows "\<exists>s c. last_bucket key (past @ [(at, keys)]) s c \<and> s \<le> at \<and> at < s + minute_ns \<and>
     (bucket at lim key)\<lparr>at_count := Suc (at_count (bucket at lim key))\<rparr> = \<lparr>at_count = c, at_start = s\<rparr>"
  using assms(1) unfolding tracked_def
proof (elim disjE exE conjE)
  fix s c
  assume b: "last_bucket key past s c" "s \<le> at" and e: "map_of lim key = Some \<lparr>at_count = c, at_start = s\<rparr>"
  from e have "(key, \<lparr>at_count = c, at_start = s\<rparr>) \<in> set lim" by (rule map_of_SomeD)
  with assms(5) have live: "\<not> stale at \<lparr>at_count = c, at_start = s\<rparr>" by fastforce
  with b e have bucket: "bucket at lim key = \<lparr>at_count = c, at_start = s\<rparr>"
    by (auto simp: bucket_def last_bucket_def)
  from live have "at < s + minute_ns" by (simp add: stale_def)
  with b assms(3,4) bucket show ?thesis
    by (intro exI [of _ s] exI [of _ "Suc c"]) (auto intro: last_bucket_hit)
next
  fix s c
  assume b: "last_bucket key past s c" and over: "s + minute_ns \<le> at" and e: "map_of lim key = None"
  have "last_bucket key (past @ [(at, keys)]) at 1"
    using last_bucket_over [OF b over] assms(2,4) by (intro last_bucket_new)
  with e show ?thesis by (intro exI [of _ at] exI [of _ "1::nat"]) (simp add: bucket_def)
next
  assume "hits key (\<lambda>t. True) past = 0" and e: "map_of lim key = None"
  then have "last_bucket key (past @ [(at, keys)]) at 1"
    using assms(2,4) by (intro last_bucket_new) (simp_all add: hits_none)
  with e show ?thesis by (intro exI [of _ at] exI [of _ "1::nat"]) (simp add: bucket_def)
qed

definition bounded :: "string \<Rightarrow> (time \<times> string list) list \<Rightarrow> bool" where
  "bounded key past \<longleftrightarrow> (\<forall>t. hits key (\<lambda>u. t \<le> u \<and> u < t + minute_ns) past \<le> 2 * attempt_limit)"

lemma hits_unless: "key \<notin> set keys \<Longrightarrow> hits key P (past @ [(at, keys)]) = hits key P past"
  by simp

lemma attempt_step:
  assumes "tracked key lim before past" and "distinct (map fst lim)" and "before \<le> at" and "zero_time < at"
    and "distinct keys" and "allowAuthAttempt at keys lim = (ok, lim')" and "bounded key past"
  shows "tracked key lim' at (past @ (if ok then [(at, keys)] else [])) \<and>
         bounded key (past @ (if ok then [(at, keys)] else []))"
proof -
  let ?lim = "filter (\<lambda>e. \<not> stale at (snd e)) lim"
  have t: "tracked key ?lim at past" using assms(1-3) by (rule tracked_purged)
  from assms(6) show ?thesis
  proof (rule allowAuthAttempt_cases)
    assume "\<not> ok" "lim' = ?lim"
    with t assms(7) show ?thesis by simp
  next
    assume ok: "ok" and lim': "lim' = fold (count_attempt at) keys ?lim"
      and few: "\<And>key. key \<in> set keys \<Longrightarrow> at_count (bucket at ?lim key) < attempt_limit"
    note entry = count_attempts_map [OF assms(5), of at ?lim key]
    show ?thesis
    proof (cases "key \<in> set keys")
      case True
      from attempt_hit [OF t assms(4) few [OF True] True] obtain s c where
        b: "last_bucket key (past @ [(at, keys)]) s c" "s \<le> at" "at < s + minute_ns"
        and n: "(bucket at ?lim key)\<lparr>at_count := Suc (at_count (bucket at ?lim key))\<rparr> = \<lparr>at_count = c, at_start = s\<rparr>"
        by auto
      have "map_of lim' key = Some \<lparr>at_count = c, at_start = s\<rparr>"
        using entry True n by (simp add: lim')
      with b ok have "tracked key lim' at (past @ (if ok then [(at, keys)] else []))"
        by (auto simp: tracked_def)
      moreover have "hits key (\<lambda>u. t \<le> u \<and> u < t + minute_ns) (past @ [(at, keys)]) \<le> 2 * attempt_limit" for t
      proof (cases "t \<le> at \<and> at < t + minute_ns")
        case True
        with b show ?thesis by (intro last_bucket_window [OF b(1)]) linarith
      next
        case False
        with assms(7) show ?thesis by (auto simp: bounded_def)
      qed
      ultimately show ?thesis using ok by (simp add: bounded_def)
    next
      case False
      then have same: "hits key P (past @ [(at, keys)]) = hits key P past" for P by (rule hits_unless)
      have "map_of lim' key = map_of ?lim key" using entry False by (simp add: lim')
      with t ok have "tracked key lim' at (past @ (if ok then [(at, keys)] else []))"
        by (simp only: tracked_def last_bucket_def same if_True)
      with assms(7) ok show ?thesis by (simp only: bounded_def same if_True simp_thms)
    qed
  qed
qed

lemma admitted_bounded:
  assumes "tracked key lim before past" and "distinct (map fst lim)" and "bounded key past"
    and "sorted (before # map fst calls)" and "\<forall>c\<in>set calls. zero_time < fst c \<and> distinct (snd c)"
  shows "bounded key (past @ admitted lim calls)"
  using assms
proof (induction calls arbitrary: lim before past)
  case (Cons call calls)
  obtain at keys where call: "call = (at, keys)" by (cases call)
  obtain ok lim' where run: "allowAuthAttempt at keys lim = (ok, lim')" by (cases "allowAuthAttempt at keys lim")
  let ?past = "past @ (if ok then [(at, keys)] else [])"
  have "tracked key lim' at ?past \<and> bounded key ?past"
    using Cons.prems call by (intro attempt_step [OF _ _ _ _ _ run]) auto
  moreover have "distinct (map fst lim')" using Cons.prems(2) run by (rule distinct_allowed)
  ultimately have "bounded key (?past @ admitted lim' calls)"
    using Cons.prems call by (intro Cons.IH [of lim' at ?past]) auto
  with run call show ?case by simp
qed simp

section \<open>Properties\<close>





text \<open>
  C15: In any span of one minute, and for any key, at most twice the limit of attempts is let
  through: a key is an address or an account, and buckets may touch two minutes.
\<close>

theorem attempts_bounded:
  assumes "sorted (map fst calls)" and "\<forall>c\<in>set calls. zero_time < fst c \<and> distinct (snd c)"
  shows "hits key (\<lambda>u. t \<le> u \<and> u < t + minute_ns) (admitted [] calls) \<le> 2 * attempt_limit"
proof (cases calls)
  case (Cons call rest)
  have "bounded key ([] @ admitted [] calls)"
    by (rule admitted_bounded [where before = "fst call"])
      (use assms Cons in \<open>auto simp: tracked_def bounded_def\<close>)
  then show ?thesis by (simp add: bounded_def)
qed simp

theorem attempts_bounded_witness:
  "hits ''ip:1'' (\<lambda>u. 1 \<le> u \<and> u < 1 + minute_ns) (admitted [] (replicate 12 (5, [''ip:1'', ''email:a'']))) \<le> 20"
  using attempts_bounded [of "replicate 12 (5, [''ip:1'', ''email:a''])" "''ip:1''" 1]
  by (simp add: zero_time_def attempt_limit_def set_replicate_conv_if del: admitted.simps)

text \<open>
  No key is locked out for good: when the buckets of its keys are a minute old, the next
  attempt is let through, whatever happened before, unless too many others are active.
\<close>

theorem no_lasting_lockout:
  assumes "\<And>e. e \<in> set lim \<Longrightarrow> fst e \<in> set keys \<Longrightarrow> at_start (snd e) + minute_ns \<le> at"
    and "int (length (filter (\<lambda>e. \<not> stale at (snd e)) lim)) \<le> attempt_buckets"
  shows "fst (allowAuthAttempt at keys lim)"
proof -
  have "bucket at (filter (\<lambda>e. \<not> stale at (snd e)) lim) key = \<lparr>at_count = 0, at_start = at\<rparr>"
    if "key \<in> set keys" for key
  proof -
    have "map_of (filter (\<lambda>e. \<not> stale at (snd e)) lim) key = None"
      using that assms(1) by (force simp: map_of_eq_None_iff stale_def)
    then show ?thesis by (simp add: bucket_def)
  qed
  with assms(2) show ?thesis by (simp add: allowAuthAttempt_def Let_def attempt_limit_def)
qed

theorem no_lasting_lockout_witness:
  "fst (allowAuthAttempt (1 + minute_ns) [''ip:1''] [(''ip:1'', \<lparr>at_count = 10, at_start = 1\<rparr>)])"
proof (rule no_lasting_lockout)
  show "int (length (filter (\<lambda>e. \<not> stale (1 + minute_ns) (snd e)) [(''ip:1'', \<lparr>at_count = 10, at_start = 1\<rparr>)])) \<le> attempt_buckets"
    by code_simp
qed auto

text \<open>
  The token check accepts exactly the tokens the server signs: 64 characters without a
  dot, a dot, and the keyed hash of them and of the session presented.
\<close>

theorem signed_tokens_exact:
  "validSignedCSRF K key q token \<longleftrightarrow>
     (\<exists>nonce. length nonce = 64 \<and> dot \<notin> set nonce \<and>
        token = nonce @ dot # hex_encode (hmac_sha256 K key (nonce @ [CHR 0x00] @ session_value q)))"
proof
  assume "validSignedCSRF K key q token"
  then obtain nonce b where "cut token dot = Some (nonce, b)" and "length nonce = 64"
    and "token = signCSRF K key q nonce"
    by (auto simp: validSignedCSRF_def constantTimeEqual_def split: option.splits)
  then show "\<exists>nonce. length nonce = 64 \<and> dot \<notin> set nonce \<and>
        token = nonce @ dot # hex_encode (hmac_sha256 K key (nonce @ [CHR 0x00] @ session_value q))"
    by (auto simp: cut_Some signCSRF_def)
next
  assume "\<exists>nonce. length nonce = 64 \<and> dot \<notin> set nonce \<and>
        token = nonce @ dot # hex_encode (hmac_sha256 K key (nonce @ [CHR 0x00] @ session_value q))"
  then obtain nonce where n: "length nonce = 64" and token: "token = signCSRF K key q nonce"
    and "cut token dot = Some (nonce, hex_encode (hmac_sha256 K key (nonce @ [CHR 0x00] @ session_value q)))"
    by (auto simp: cut_Some signCSRF_def)
  then show "validSignedCSRF K key q token" by (simp add: validSignedCSRF_def constantTimeEqual_def)
qed

lemma dot_hex_encode: "dot \<notin> set (hex_encode s)"
proof (induction s)
  case (Cons c s)
  have "dot \<noteq> hex_digit n" if "n < 16" for n
  proof
    assume "dot = hex_digit n"
    then have "code dot = (code (hex_digit n) :: nat)" by simp
    with that show False by (simp add: code_hex_digit dot_def split: if_splits)
  qed
  with Cons code_nibbles [of c] show ?case by simp
qed simp

lemma generated_signed:
  assumes "generateCSRFToken E w = (Inr nonce, w')" and "length (random_bytes E (ticks w)) = 32"
    and "session_value q2 = session_value q"
  shows "validSignedCSRF K key q2 (signCSRF K key q nonce)"
proof -
  have "length nonce = 64 \<and> dot \<notin> set nonce"
    using assms(1,2) by (auto simp: generateCSRFToken_def call_def Let_def dot_hex_encode
        split: if_splits)
  moreover from this have "cut (signCSRF K key q nonce) dot =
      Some (nonce, hex_encode (hmac_sha256 K key (nonce @ [CHR 0x00] @ session_value q)))"
    by (simp add: cut_Some signCSRF_def)
  ultimately show ?thesis
    using assms(3) by (simp add: validSignedCSRF_def constantTimeEqual_def signCSRF_def)
qed

text \<open>
  C34: A token handed out works: repeated in the header by a request with the cookie and the
  same session, from the site's own origin, it passes the protection.
\<close>

theorem issued_tokens_pass:
  assumes "withCSRFToken K key secure q E w = (Inr (token, cookies), w')" and "token \<noteq> []"
    and "length (random_bytes E (ticks w)) = 32" and "session_value q2 = session_value q"
    and "cookie q2 csrf_cookie = Some token" and "header q2 ''X-CSRF-Token'' = token"
    and "sameOrigin L q2 url"
  shows "\<not> forged L K key url q2"
proof -
  have "validSignedCSRF K key q2 token"
  proof (cases "\<exists>v. cookie q csrf_cookie = Some v \<and> validSignedCSRF K key q v")
    case True
    with assms(1) have "validSignedCSRF K key q token"
      by (auto simp: withCSRFToken_def elim!: ret_InrE split: if_splits)
    then show ?thesis using assms(4) by (auto simp: validSignedCSRF_def signCSRF_def split: option.splits)
  next
    case False
    with assms(1) have "fresh_csrf K key secure q E w = (Inr (token, cookies), w')"
      by (auto simp: withCSRFToken_def split: option.splits if_splits)
    with assms(2) obtain nonce w1 where "generateCSRFToken E w = (Inr nonce, w1)" "token = signCSRF K key q nonce"
      by (auto simp: fresh_csrf_def elim!: andThen_InrE attempt_InrE ret_InrE split: sum.splits)
    then show ?thesis using assms(3,4) by (auto intro: generated_signed)
  qed
  then show ?thesis
    using assms(2,5-7) by (simp add: forged_def validRequestCSRF_def constantTimeEqual_def)
qed

theorem issued_tokens_pass_witness:
  "\<not> forged sample_library sample_crypto [] None (sample_request ''POST'' ''/logout'')"
proof (rule issued_tokens_pass)
  let ?m = "withCSRFToken sample_crypto [] True (sample_request ''GET'' ''/'') (sample_env 150) sample_world"
  show "?m = (Inr (sample_token, []), snd ?m)" by (rule run_result) code_simp
  show "sample_token \<noteq> []" by (simp add: sample_token_def)
  show "length (random_bytes (sample_env 150) (ticks sample_world)) = 32" by (simp add: sample_env_def)
  show "session_value (sample_request ''POST'' ''/logout'') = session_value (sample_request ''GET'' ''/'')"
    "cookie (sample_request ''POST'' ''/logout'') csrf_cookie = Some sample_token"
    "header (sample_request ''POST'' ''/logout'') ''X-CSRF-Token'' = sample_token"
    "sameOrigin sample_library (sample_request ''POST'' ''/logout'') None"
    by (simp_all add: session_value_def cookie_def header_def get_field_def sample_request_def
        csrf_cookie_def session_cookie_def sameOrigin_def)
qed

end
