(* ===== verification/Json_Roundtrip.thy ===== *)
theory Json_Roundtrip
  imports Api_Json
begin

text \<open>
  The language lists the API encodes are read back by the decoder that validates them: a
  list of strings survives, up to bytes that are not valid UTF-8, which become U+FFFD.
\<close>

section \<open>What an encoding keeps\<close>

function to_valid :: "string \<Rightarrow> string" where
  "to_valid [] = []"
| "to_valid (c # r) =
     (if rune_width (c # r) = 0 then replacement @ to_valid r
      else take (rune_width (c # r)) (c # r) @ to_valid (drop (rune_width (c # r)) (c # r)))"
  by pat_completeness auto
termination by (relation "measure length") auto

lemma rune_width_ascii: "code c < (128::nat) \<Longrightarrow> rune_width (c # r) = 1"
  by (simp add: rune_width_def)

text \<open>The width by the first byte: what must follow it.\<close>

definition three_bytes :: "char \<Rightarrow> char \<Rightarrow> char \<Rightarrow> bool" where
  "three_bytes a b c \<longleftrightarrow>
     (if code a = (224::nat) then in_range 160 191 b
      else if code a = (237::nat) then in_range 128 159 b else cont b) \<and> cont c"

definition four_bytes :: "char \<Rightarrow> char \<Rightarrow> char \<Rightarrow> char \<Rightarrow> bool" where
  "four_bytes a b c d \<longleftrightarrow>
     (if code a = (240::nat) then in_range 144 191 b
      else if in_range 241 243 a then cont b
      else code a = (244::nat) \<and> in_range 128 143 b) \<and> cont c \<and> cont d"

lemma rune_width_two:
  "\<not> code a < (128::nat) \<Longrightarrow> in_range 194 223 a \<Longrightarrow>
   rune_width (a # s) = (case s of [] \<Rightarrow> 0 | b # r \<Rightarrow> if cont b then 2 else 0)"
  by (cases s) (simp_all add: rune_width_def)

lemma rune_width_three:
  "\<not> code a < (128::nat) \<Longrightarrow> \<not> in_range 194 223 a \<Longrightarrow> in_range 224 239 a \<Longrightarrow>
   rune_width (a # s) = (case s of b # c # r \<Rightarrow> if three_bytes a b c then 3 else 0 | _ \<Rightarrow> 0)"
proof -
  assume h: "\<not> code a < (128::nat)" "\<not> in_range 194 223 a" and lead: "in_range 224 239 a"
  consider "code a = (224::nat)" | "code a \<noteq> (224::nat)" "code a \<noteq> (237::nat)" "in_range 225 236 a \<or> in_range 238 239 a"
    | "code a = (237::nat)" "\<not> in_range 225 236 a" "\<not> in_range 238 239 a"
    using lead by (fastforce simp: in_range_def)
  then show "rune_width (a # s) = (case s of b # c # r \<Rightarrow> if three_bytes a b c then 3 else 0 | _ \<Rightarrow> 0)"
    by cases (use h in \<open>simp_all add: rune_width_def three_bytes_def split: list.split\<close>)
qed

lemma rune_width_four:
  "\<not> code a < (128::nat) \<Longrightarrow> \<not> in_range 194 223 a \<Longrightarrow> \<not> in_range 224 239 a \<Longrightarrow>
   rune_width (a # s) = (case s of b # c # d # r \<Rightarrow> if four_bytes a b c d then 4 else 0 | _ \<Rightarrow> 0)"
proof -
  assume h: "\<not> code a < (128::nat)" "\<not> in_range 194 223 a" and lead: "\<not> in_range 224 239 a"
  then have no: "code a \<noteq> (224::nat)" "code a \<noteq> (237::nat)" "\<not> in_range 225 236 a" "\<not> in_range 238 239 a"
    by (auto simp: in_range_def)
  consider "code a = (240::nat)" | "code a \<noteq> (240::nat)" "in_range 241 243 a"
    | "code a \<noteq> (240::nat)" "\<not> in_range 241 243 a" "code a = (244::nat)"
    | "code a \<noteq> (240::nat)" "\<not> in_range 241 243 a" "code a \<noteq> (244::nat)" by blast
  then show "rune_width (a # s) = (case s of b # c # d # r \<Rightarrow> if four_bytes a b c d then 4 else 0 | _ \<Rightarrow> 0)"
    by cases (use h no in \<open>simp_all add: rune_width_def four_bytes_def split: list.split\<close>)
qed

lemma rune_width_cut:
  assumes "rune_width s \<noteq> 0"
  shows "rune_width (take (rune_width s) s @ t) = rune_width s"
proof (cases s)
  case (Cons a r)
  consider "code a < (128::nat)" | "\<not> code a < (128::nat)" "in_range 194 223 a"
    | "\<not> code a < (128::nat)" "\<not> in_range 194 223 a" "in_range 224 239 a"
    | "\<not> code a < (128::nat)" "\<not> in_range 194 223 a" "\<not> in_range 224 239 a" by blast
  then show ?thesis
  proof cases
    case 1
    then show ?thesis by (simp add: Cons rune_width_ascii)
  next
    case 2
    with assms Cons show ?thesis by (auto simp: rune_width_two split: list.splits if_splits)
  next
    case 3
    with assms Cons show ?thesis by (auto simp: rune_width_three numeral_eq_Suc split: list.splits if_splits)
  next
    case 4
    with assms Cons show ?thesis by (auto simp: rune_width_four numeral_eq_Suc split: list.splits if_splits)
  qed
qed (use assms in \<open>simp add: rune_width_def\<close>)

lemma rune_width_prefix:
  "rune_width s = k \<Longrightarrow> k \<noteq> 0 \<Longrightarrow> rune_width (take k s @ t) = k"
  using rune_width_cut by blast

lemma to_valid_ascii: "code c < (128::nat) \<Longrightarrow> to_valid (c # r) = c # to_valid r"
  by (simp add: rune_width_ascii)

section \<open>One character\<close>

definition reads_as :: "string \<Rightarrow> string \<Rightarrow> bool" where
  "reads_as enc v \<longleftrightarrow>
     (\<forall>t n. length enc + length t \<le> n \<longrightarrow>
        json_chars n (enc @ t) = map_option (\<lambda>(w, u). (v @ w, u)) (json_chars (length t) t))"

lemma json_chars_step:
  assumes "length t \<le> n" shows "json_chars n t = json_chars (length t) t"
  using assms by (intro json_chars_fuel) auto

lemma reads_as_plain:
  assumes "code c < (128::nat)" and "32 \<le> code c" and "c \<noteq> CHR 0x22" and "c \<noteq> CHR 0x5C"
  shows "reads_as [c] [c]"
  unfolding reads_as_def
proof (intro allI impI)
  fix t :: string and n
  assume "length [c] + length t \<le> n"
  then obtain m where "n = Suc m" "length t \<le> m" by (cases n) auto
  with assms show "json_chars n ([c] @ t) = map_option (\<lambda>(w, u). ([c] @ w, u)) (json_chars (length t) t)"
    by (simp add: rune_width_ascii json_chars_step [of t m])
qed

lemma reads_as_escape:
  assumes "simple_escape e = Some d" and "e \<noteq> CHR ''u''"
  shows "reads_as [CHR 0x5C, e] [d]"
  unfolding reads_as_def
proof (intro allI impI)
  fix t :: string and n
  assume "length [CHR 0x5C, e] + length t \<le> n"
  then obtain m where "n = Suc m" "length t \<le> m" by (cases n) auto
  with assms show "json_chars n ([CHR 0x5C, e] @ t) = map_option (\<lambda>(w, u). ([d] @ w, u)) (json_chars (length t) t)"
    by (simp add: json_chars_step [of t m] del: simple_escape.simps)
qed

lemma reads_as_unicode:
  assumes "hex4 [a, b, c, d] = Some (r, [])" and "r < 55296 \<or> 57343 < r"
  shows "reads_as (unicode_text a b c d) (encode_rune r)"
  unfolding reads_as_def
proof (intro allI impI)
  fix t :: string and n
  assume "length (unicode_text a b c d) + length t \<le> n"
  then obtain m where "n = Suc m" "length t \<le> m" by (cases n) (auto simp: unicode_text_def)
  moreover have "unicode_escape (a # b # c # d # t) = Some (encode_rune r, t)"
    using assms by (auto simp: unicode_escape_def split: if_splits)
  ultimately show "json_chars n (unicode_text a b c d @ t) =
      map_option (\<lambda>(w, u). (encode_rune r @ w, u)) (json_chars (length t) t)"
    by (simp add: unicode_text_def json_chars_step [of t m])
qed

lemma reads_as_wide:
  assumes "rune_width s = k" and "k \<noteq> 0" and "128 \<le> (code (hd s) :: nat)"
  shows "reads_as (take k s) (take k s)"
  unfolding reads_as_def
proof (intro allI impI)
  fix t :: string and n
  assume len: "length (take k s) + length t \<le> n"
  have k: "k \<le> length s" using assms(1) rune_width_le by blast
  then obtain c r where s: "s = c # r" using assms(2) by (cases s) auto
  with k len assms(2) obtain m where m: "n = Suc m" "length t \<le> m" by (cases n) auto
  have cons: "take k s @ t = c # (take (k - 1) r @ t)" using s assms(2) by (cases k) auto
  have "code c \<ge> (128::nat)" using assms(3) s by simp
  then have "c \<noteq> CHR 0x22" "c \<noteq> CHR 0x5C" "\<not> code c < (32::nat)" by auto
  moreover have "rune_width (c # (take (k - 1) r @ t)) = k"
    using rune_width_prefix [OF assms(1,2), of t] cons by simp
  moreover have "drop k (take k s @ t) = t" "take k (take k s @ t) = take k s" using k by auto
  ultimately show "json_chars n (take k s @ t) = map_option (\<lambda>(w, u). (take k s @ w, u)) (json_chars (length t) t)"
    using m assms(2) by (simp add: cons Let_def json_chars_step [of t m])
qed

section \<open>Strings\<close>

lemma hex4_zero_byte:
  "hex4 [CHR ''0'', CHR ''0'', hex_digit (code c div 16), hex_digit (code c mod 16)] = Some (code c, [])"
  using code_nibbles [of c] hex_digit_ok [of "code c div 16"] hex_digit_ok [of "code c mod 16"]
  by (simp add: is_hex_def is_digit_def hex_value_def)

lemma quote_byte_reads:
  assumes "code c < (128::nat)"
  shows "reads_as (quote_byte c) [c]"
proof -
  have escape: "reads_as (unicode_text CHR ''0'' CHR ''0'' (hex_digit (code c div 16)) (hex_digit (code c mod 16))) [c]"
    using reads_as_unicode [OF hex4_zero_byte [of c]] assms by (simp add: encode_rune_def)
  have plain: "reads_as [c] [c]"
    if "c \<noteq> CHR 0x22" "c \<noteq> CHR 0x5C" "\<not> code c < (32::nat)"
    using assms that by (intro reads_as_plain) auto
  have simple: "reads_as [CHR 0x5C, CHR 0x22] [CHR 0x22]" "reads_as [CHR 0x5C, CHR 0x5C] [CHR 0x5C]"
    "reads_as [CHR 0x5C, CHR ''b''] [CHR 0x08]" "reads_as [CHR 0x5C, CHR ''f''] [CHR 0x0C]"
    "reads_as [CHR 0x5C, CHR ''n''] [CHR 0x0A]" "reads_as [CHR 0x5C, CHR ''r''] [CHR 0x0D]"
    "reads_as [CHR 0x5C, CHR ''t''] [CHR 0x09]"
    by (rule reads_as_escape; code_simp)+
  consider "c = CHR 0x22" | "c = CHR 0x5C" | "c = CHR 0x08" | "c = CHR 0x0C" | "c = CHR 0x0A"
    | "c = CHR 0x0D" | "c = CHR 0x09"
    | "c \<noteq> CHR 0x22 \<and> c \<noteq> CHR 0x5C \<and> c \<noteq> CHR 0x08 \<and> c \<noteq> CHR 0x0C \<and> c \<noteq> CHR 0x0A \<and> c \<noteq> CHR 0x0D \<and> c \<noteq> CHR 0x09"
    by blast
  then show ?thesis
  proof cases
    case 8
    then have "quote_byte c = (if code c < (32::nat) \<or> c = CHR ''<'' \<or> c = CHR ''>'' \<or> c = CHR ''&''
      then unicode_text CHR ''0'' CHR ''0'' (hex_digit (code c div 16)) (hex_digit (code c mod 16)) else [c])"
      by (simp only: quote_byte_def simp_thms if_False)
    with 8 escape plain show ?thesis by (simp only: split: if_split) blast
  qed (simp_all only: quote_byte_def simp_thms if_True if_False simple char.inject)
qed

lemma reads_as_separators:
  "reads_as (unicode_text CHR ''2'' CHR ''0'' CHR ''2'' CHR ''8'') [CHR 0xE2, CHR 0x80, CHR 0xA8]"
  "reads_as (unicode_text CHR ''2'' CHR ''0'' CHR ''2'' CHR ''9'') [CHR 0xE2, CHR 0x80, CHR 0xA9]"
  "reads_as (unicode_text CHR ''f'' CHR ''f'' CHR ''f'' CHR ''d'') replacement"
proof -
  have "reads_as (unicode_text CHR ''2'' CHR ''0'' CHR ''2'' CHR ''8'') (encode_rune 8232)"
    "reads_as (unicode_text CHR ''2'' CHR ''0'' CHR ''2'' CHR ''9'') (encode_rune 8233)"
    "reads_as (unicode_text CHR ''f'' CHR ''f'' CHR ''f'' CHR ''d'') (encode_rune 65533)"
    by (rule reads_as_unicode; simp add: is_hex_def is_digit_def hex_value_def)+
  moreover have "encode_rune 8232 = [CHR 0xE2, CHR 0x80, CHR 0xA8]"
    "encode_rune 8233 = [CHR 0xE2, CHR 0x80, CHR 0xA9]" "encode_rune 65533 = replacement"
    by (simp_all add: encode_rune_def replacement_def char_of_def bit_0)
  ultimately show "reads_as (unicode_text CHR ''2'' CHR ''0'' CHR ''2'' CHR ''8'') [CHR 0xE2, CHR 0x80, CHR 0xA8]"
    "reads_as (unicode_text CHR ''2'' CHR ''0'' CHR ''2'' CHR ''9'') [CHR 0xE2, CHR 0x80, CHR 0xA9]"
    "reads_as (unicode_text CHR ''f'' CHR ''f'' CHR ''f'' CHR ''d'') replacement"
    by simp_all
qed

lemma reads_as_append:
  assumes "reads_as a v" and "reads_as b w"
  shows "reads_as (a @ b) (v @ w)"
  unfolding reads_as_def
proof (intro allI impI)
  fix t :: string and n
  assume len: "length (a @ b) + length t \<le> n"
  have "json_chars n (a @ b @ t) = map_option (\<lambda>(x, u). (v @ x, u)) (json_chars (length (b @ t)) (b @ t))"
    using assms(1) len by (simp add: reads_as_def)
  also have "json_chars (length (b @ t)) (b @ t) = map_option (\<lambda>(x, u). (w @ x, u)) (json_chars (length t) t)"
    using assms(2) by (simp add: reads_as_def)
  finally show "json_chars n ((a @ b) @ t) = map_option (\<lambda>(x, u). ((v @ w) @ x, u)) (json_chars (length t) t)"
    by (simp add: option.map_comp comp_def split_def)
qed

lemma reads_as_Nil: "reads_as [] []"
  unfolding reads_as_def
  by (auto simp: option.map_ident json_chars_fuel [of _ _ "length _"] split_def option.map_id [unfolded id_def])

lemma separator_width:
  assumes "take 3 s = [CHR 0xE2, CHR 0x80, x]" and "cont x"
  shows "rune_width s = 3" and "to_valid s = take 3 s @ to_valid (drop 3 s)"
proof -
  from assms have s: "s = [CHR 0xE2, CHR 0x80, x] @ drop 3 s" by (metis append_take_drop_id)
  have "rune_width ([CHR 0xE2, CHR 0x80, x] @ drop 3 s) = 3"
    using assms(2) by (simp add: rune_width_def in_range_def)
  with s show w: "rune_width s = 3" by simp
  from s obtain c r where "s = c # r" by (metis append_Cons)
  with w show "to_valid s = take 3 s @ to_valid (drop 3 s)" by simp
qed

lemma quote_chars_reads: "reads_as (quote_chars s) (to_valid s)"
proof (induction s rule: quote_chars.induct)
  case 1
  show ?case by (simp add: reads_as_Nil)
next
  case (2 c r)
  let ?s = "c # r"
  show ?case
  proof (cases "code c < (128::nat)")
    case True
    with 2 show ?thesis
      using reads_as_append [OF quote_byte_reads [OF True]] by (simp add: rune_width_ascii)
  next
    case wide: False
    show ?thesis
    proof (cases "rune_width ?s = 0")
      case True
      with 2 wide show ?thesis
        using reads_as_append [OF reads_as_separators(3)] by simp
    next
      case False
      have marks: "cont CHR 0xA8" "cont CHR 0xA9" by code_simp+
      consider "take 3 ?s = [CHR 0xE2, CHR 0x80, CHR 0xA8]" | "take 3 ?s = [CHR 0xE2, CHR 0x80, CHR 0xA9]"
        | "take 3 ?s \<noteq> [CHR 0xE2, CHR 0x80, CHR 0xA8]" "take 3 ?s \<noteq> [CHR 0xE2, CHR 0x80, CHR 0xA9]" by blast
      then show ?thesis
      proof cases
        case 1
        with 2(3) wide False have "reads_as (quote_chars (drop 3 ?s)) (to_valid (drop 3 ?s))" by blast
        from reads_as_append [OF reads_as_separators(1) this] show ?thesis
          using separator_width [OF 1 marks(1)] 1 wide by (simp del: to_valid.simps take_Suc_Cons drop_Suc_Cons)
      next
        case second: 2
        with 2(4) wide False have "reads_as (quote_chars (drop 3 ?s)) (to_valid (drop 3 ?s))" by auto
        from reads_as_append [OF reads_as_separators(2) this] show ?thesis
          using separator_width [OF second marks(2)] second wide by (simp del: to_valid.simps take_Suc_Cons drop_Suc_Cons)
      next
        case 3
        with 2(5) wide False have "reads_as (quote_chars (drop (rune_width ?s) ?s)) (to_valid (drop (rune_width ?s) ?s))"
          by blast
        moreover have "reads_as (take (rune_width ?s) ?s) (take (rune_width ?s) ?s)"
          using False wide by (intro reads_as_wide) auto
        moreover have "quote_chars ?s = take (rune_width ?s) ?s @ quote_chars (drop (rune_width ?s) ?s)"
          by (simp only: quote_chars.simps 3 wide False if_False)
        moreover have "to_valid ?s = take (rune_width ?s) ?s @ to_valid (drop (rune_width ?s) ?s)"
          by (simp only: to_valid.simps False if_False)
        ultimately show ?thesis using reads_as_append by simp
      qed
    qed
  qed
qed

section \<open>Lists\<close>

lemma skip_space_other: "\<not> json_space c \<Longrightarrow> skip_space (c # s) = c # s"
  by simp

lemma json_element_quote: "json_element (CHR 0x22 # r) = json_chars (length r) r"
  by (simp add: json_element_def)

lemma json_element_quoted: "json_element (quote_string s @ t) = Some (to_valid s, t)"
proof -
  let ?r = "quote_chars s @ CHR 0x22 # t"
  have "json_chars (length ?r) ?r =
      map_option (\<lambda>(w, u). (to_valid s @ w, u)) (json_chars (length (CHR 0x22 # t)) (CHR 0x22 # t))"
    by (rule quote_chars_reads [unfolded reads_as_def, rule_format]) simp
  also have "json_chars (length (CHR 0x22 # t)) (CHR 0x22 # t) = Some ([], t)" by simp
  finally have "json_chars (length ?r) ?r = Some (to_valid s, t)" by simp
  moreover have "quote_string s @ t = CHR 0x22 # ?r" by (simp add: quote_string_def)
  ultimately show ?thesis by (simp only: json_element_quote)
qed

lemma json_elements_joined:
  "ls \<noteq> [] \<Longrightarrow> length (join_comma (map quote_string ls) @ CHR '']'' # t) \<le> n \<Longrightarrow>
   json_elements n (join_comma (map quote_string ls) @ CHR '']'' # t) = Some (map to_valid ls, t)"
proof (induction ls arbitrary: n)
  case (Cons l ls)
  obtain m where n: "n = Suc m" using Cons.prems(2) by (cases n) auto
  have start: "skip_space (quote_string l @ u) = quote_string l @ u" for u
    by (simp add: quote_string_def json_space_def)
  show ?case
  proof (cases ls)
    case Nil
    then show ?thesis
      by (simp add: n start json_element_quoted json_space_def)
  next
    case (Cons k ks)
    have joined: "join_comma (map quote_string (l # ls)) = quote_string l @ CHR '','' # join_comma (map quote_string ls)"
      by (simp add: Cons)
    have "length (join_comma (map quote_string ls) @ CHR '']'' # t) \<le> m"
      using Cons.prems(2) [unfolded joined n] by simp
    with Cons.IH have "json_elements m (join_comma (map quote_string ls) @ CHR '']'' # t) = Some (map to_valid ls, t)"
      using Cons by blast
    then show ?thesis
      by (simp add: joined n start json_element_quoted json_space_def del: list.map(2)) simp
  qed
qed simp

lemma json_string_list_open:
  "r = CHR 0x22 # u \<Longrightarrow>
   json_string_list (CHR ''['' # r) =
     (case json_elements (length r) r of
        Some (vs, v) \<Rightarrow> if skip_space v = [] then Some vs else None
      | None \<Rightarrow> None)"
  by (simp add: json_string_list_def json_space_def del: json_elements.simps)

section \<open>Property\<close>

text \<open>
  A language list survives storage: what the API writes for a list of strings is read
  back by the decoder of validation as that list, up to invalid UTF-8.
\<close>

theorem language_list_roundtrip:
  "json_string_list (marshal_strings ls) = Some (map to_valid ls)"
proof (cases ls)
  case Nil
  then show ?thesis by (simp add: marshal_strings_def json_string_list_def json_space_def)
next
  case (Cons l rest)
  let ?r = "join_comma (map quote_string ls) @ [CHR '']'']"
  obtain u where first: "?r = CHR 0x22 # u"
    by (cases rest) (auto simp: Cons quote_string_def)
  have "json_elements (length ?r) ?r = Some (map to_valid ls, [])"
    using json_elements_joined [of ls "[]"] Cons by blast
  then show ?thesis
    unfolding marshal_strings_def json_string_list_open [OF first] by simp
qed

end
