(* ===== verification/Json_Text.thy ===== *)
theory Json_Text
  imports Api_Json
begin

text \<open>
  The text of a JSON document: the reader of \<^verbatim>\<open>encoding/json\<close> that decodeJSON of
  internal/server/api.go runs over a body, and the writer that jsonResponse runs over an
  answer. Objects keep their members in order, and numbers their text.
\<close>

section \<open>Reading numbers and literals\<close>

definition json_digits :: "string \<Rightarrow> (string \<times> string) option" where
  "json_digits s =
     (if takeWhile is_digit s = [] then None else Some (takeWhile is_digit s, dropWhile is_digit s))"

definition json_whole :: "string \<Rightarrow> (string \<times> string) option" where
  "json_whole s =
     (case s of
        [] \<Rightarrow> None
      | c # r \<Rightarrow> if c = CHR ''0'' then Some ([c], r) else json_digits s)"

definition json_fraction :: "string \<Rightarrow> (string \<times> string) option" where
  "json_fraction s =
     (case s of
        [] \<Rightarrow> Some ([], s)
      | c # r \<Rightarrow> if c = CHR ''.'' then map_option (\<lambda>(t, u). (c # t, u)) (json_digits r) else Some ([], s))"

definition json_exponent :: "string \<Rightarrow> (string \<times> string) option" where
  "json_exponent s =
     (case s of
        [] \<Rightarrow> Some ([], s)
      | c # r \<Rightarrow>
          if c = CHR ''e'' \<or> c = CHR ''E'' then
            (case r of
               [] \<Rightarrow> None
             | e # r' \<Rightarrow>
                 if e = CHR ''+'' \<or> e = CHR ''-''
                 then map_option (\<lambda>(t, u). (c # e # t, u)) (json_digits r')
                 else map_option (\<lambda>(t, u). (c # t, u)) (json_digits r))
          else Some ([], s))"

text \<open>One part after the other; each gives the text it took and what follows it.\<close>

definition then_part ::
  "(string \<times> string) option \<Rightarrow> (string \<Rightarrow> (string \<times> string) option) \<Rightarrow> (string \<times> string) option" where
  "then_part x f =
     (case x of None \<Rightarrow> None | Some (t, r) \<Rightarrow> map_option (\<lambda>(u, v). (t @ u, v)) (f r))"

definition json_unsigned :: "string \<Rightarrow> (string \<times> string) option" where
  "json_unsigned s = then_part (then_part (json_whole s) json_fraction) json_exponent"

definition json_number :: "string \<Rightarrow> (string \<times> string) option" where
  "json_number s =
     (case s of
        [] \<Rightarrow> None
      | c # r \<Rightarrow> if c = CHR ''-'' then map_option (\<lambda>(t, u). (c # t, u)) (json_unsigned r) else json_unsigned s)"

definition json_scalar :: "string \<Rightarrow> (json \<times> string) option" where
  "json_scalar s =
     (if take 4 s = ''null'' then Some (JNull, drop 4 s)
      else if take 4 s = ''true'' then Some (JBool True, drop 4 s)
      else if take 5 s = ''false'' then Some (JBool False, drop 5 s)
      else map_option (\<lambda>(t, u). (JNumber t, u)) (json_number s))"

section \<open>Reading values\<close>

text \<open>The key of a member and the colon after it.\<close>

definition json_key :: "string \<Rightarrow> (string \<times> string) option" where
  "json_key s =
     (case skip_space s of
        [] \<Rightarrow> None
      | c # r \<Rightarrow>
          if c \<noteq> CHR 0x22 then None
          else (case json_chars (length r) r of
                  None \<Rightarrow> None
                | Some (k, u) \<Rightarrow>
                    (case skip_space u of
                       [] \<Rightarrow> None
                     | e # u' \<Rightarrow> if e \<noteq> CHR '':'' then None else Some (k, u'))))"

text \<open>
  A value, the elements of an array up to and with the closing bracket, and the members of an
  object up to and with the closing brace. The first number is fuel, the number of bytes left;
  the second is how many levels may still open. An opening bracket takes one of each.
\<close>

definition open_level ::
  "char \<Rightarrow> nat \<Rightarrow> string \<Rightarrow> json \<Rightarrow> (json \<times> string) option \<Rightarrow> (json \<times> string) option" where
  "open_level close d r none_inside inside =
     (if d = 0 then None
      else case skip_space r of
             [] \<Rightarrow> None
           | e # t \<Rightarrow> if e = close then Some (none_inside, t) else inside)"

function json_value :: "nat \<Rightarrow> nat \<Rightarrow> string \<Rightarrow> (json \<times> string) option"
  and json_items :: "nat \<Rightarrow> nat \<Rightarrow> string \<Rightarrow> (json list \<times> string) option"
  and json_members :: "nat \<Rightarrow> nat \<Rightarrow> string \<Rightarrow> ((string \<times> json) list \<times> string) option" where
  "json_value n d s =
     (case n of
        0 \<Rightarrow> None
      | Suc m \<Rightarrow>
          (case skip_space s of
             [] \<Rightarrow> None
           | c # r \<Rightarrow>
               if c = CHR 0x22 then map_option (\<lambda>(v, t). (JString v, t)) (json_chars (length r) r)
               else if c = CHR ''['' then
                 open_level (CHR '']'') d r (JArray [])
                   (map_option (\<lambda>(vs, t). (JArray vs, t)) (json_items m (d - 1) r))
               else if c = CHR ''{'' then
                 open_level (CHR ''}'') d r (JObject [])
                   (map_option (\<lambda>(ms, t). (JObject ms, t)) (json_members m (d - 1) r))
               else json_scalar (c # r)))"
| "json_items n d s =
     (case json_value n d s of
        None \<Rightarrow> None
      | Some (v, r) \<Rightarrow>
          (case skip_space r of
             [] \<Rightarrow> None
           | c # r' \<Rightarrow>
               if c = CHR '']'' then Some ([v], r')
               else if c = CHR '','' then
                 (case n of
                    0 \<Rightarrow> None
                  | Suc m \<Rightarrow> map_option (\<lambda>(vs, t). (v # vs, t)) (json_items m d r'))
               else None))"
| "json_members n d s =
     (case n of
        0 \<Rightarrow> None
      | Suc m \<Rightarrow>
          (case json_key s of
             None \<Rightarrow> None
           | Some (k, u) \<Rightarrow>
               (case json_value m d u of
                  None \<Rightarrow> None
                | Some (v, x) \<Rightarrow>
                    (case skip_space x of
                       [] \<Rightarrow> None
                     | f # y \<Rightarrow>
                         if f = CHR ''}'' then Some ([(k, v)], y)
                         else if f = CHR '','' then
                           map_option (\<lambda>(ms, t). ((k, v) # ms, t)) (json_members m d y)
                         else None))))"
  by pat_completeness auto
termination
  by (relation "measures [\<lambda>x. case x of Inl (n, d, s) \<Rightarrow> n | Inr (Inl (n, d, s)) \<Rightarrow> n | Inr (Inr (n, d, s)) \<Rightarrow> n,
                          \<lambda>x. case x of Inl _ \<Rightarrow> 0 | Inr _ \<Rightarrow> (1::nat)]") auto

declare json_value.simps [simp del] json_items.simps [simp del] json_members.simps [simp del]

text \<open>At most ten thousand levels may be open.\<close>

definition max_depth :: nat where
  "max_depth = 10000"

text \<open>
  A body whose text is JSON: the value, where it ends, and whether nothing follows it.
\<close>

definition read_document :: "string \<Rightarrow> body option" where
  "read_document s =
     map_option (\<lambda>(j, r). JsonBody j (int (length s - length r)) (skip_space r = []))
       (json_value (length s) max_depth s)"

section \<open>Writing\<close>

primrec marshal_json :: "json \<Rightarrow> string" where
  "marshal_json JNull = ''null''"
| "marshal_json (JBool b) = (if b then ''true'' else ''false'')"
| "marshal_json (JNumber t) = t"
| "marshal_json (JString s) = quote_string s"
| "marshal_json (JArray js) = CHR ''['' # join_comma (map marshal_json js) @ [CHR '']'']"
| "marshal_json (JObject ms) =
     CHR ''{'' # join_comma (map (\<lambda>m. quote_string (fst m) @ CHR '':'' # snd m) (map (map_prod id marshal_json) ms))
       @ [CHR ''}'']"

text \<open>The depth a value opens.\<close>

primrec json_depth :: "json \<Rightarrow> nat" where
  "json_depth JNull = 0"
| "json_depth (JBool b) = 0"
| "json_depth (JNumber t) = 0"
| "json_depth (JString s) = 0"
| "json_depth (JArray js) = Suc (foldr max (map json_depth js) 0)"
| "json_depth (JObject ms) = Suc (foldr max (map snd (map (map_prod id json_depth) ms)) 0)"

lemma foldr_max_le: "foldr max xs 0 \<le> (d::nat) \<longleftrightarrow> (\<forall>x\<in>set xs. x \<le> d)"
  by (induction xs) auto

lemma nested_text [simp]:
  "json_depth (JArray js) \<le> d \<longleftrightarrow> d \<noteq> 0 \<and> (\<forall>j\<in>set js. json_depth j \<le> d - 1)"
  "json_depth (JObject ms) \<le> d \<longleftrightarrow> d \<noteq> 0 \<and> (\<forall>m\<in>set ms. json_depth (snd m) \<le> d - 1)"
  "marshal_json (JObject ms) =
     CHR ''{'' # join_comma (map (\<lambda>m. quote_string (fst m) @ CHR '':'' # marshal_json (snd m)) ms) @ [CHR ''}'']"
  by (cases d; auto simp: foldr_max_le prod.map_comp comp_def)+

declare json_depth.simps(5,6) [simp del] marshal_json.simps(6) [simp del]

end
