(* ===== verification/Api_Encoding.thy ===== *)
theory Api_Encoding
  imports Api Json_Text
begin

text \<open>
  The JSON the interface answers with: what \<^verbatim>\<open>encoding/json\<close> makes of every struct an answer
  carries, by the json tags of internal/db/models.go and internal/content, and the text
  jsonResponse of internal/server/api.go writes. How an instant is printed is a parameter; it
  fails on years that have no four digits, and then nothing is written.
\<close>

section \<open>Members of a struct\<close>

type_synonym time_format = "time \<Rightarrow> string option"

definition struct :: "(string \<times> json option) list \<Rightarrow> json option" where
  "struct ms =
     (if None \<in> set (map snd ms) then None else Some (JObject (map (\<lambda>m. (fst m, the (snd m))) ms)))"

definition json_array :: "('a \<Rightarrow> json option) \<Rightarrow> 'a list \<Rightarrow> json option" where
  "json_array f xs =
     (if None \<in> set (map f xs) then None else Some (JArray (map (\<lambda>x. the (f x)) xs)))"

definition enc_id :: "nat \<Rightarrow> json option" where
  "enc_id n = Some (JNumber (decimal n))"

definition enc_int :: "int \<Rightarrow> json option" where
  "enc_int i = Some (JNumber (int_text i))"

definition enc_string :: "string \<Rightarrow> json option" where
  "enc_string s = Some (JString s)"

definition enc_bool :: "bool \<Rightarrow> json option" where
  "enc_bool b = Some (JBool b)"

definition enc_time :: "time_format \<Rightarrow> time \<Rightarrow> json option" where
  "enc_time F t = map_option JString (F t)"

text \<open>A pointer: nil is \<^verbatim>\<open>null\<close>.\<close>

definition enc_ptr :: "('a \<Rightarrow> json option) \<Rightarrow> 'a option \<Rightarrow> json option" where
  "enc_ptr f x = (case x of None \<Rightarrow> Some JNull | Some v \<Rightarrow> f v)"

section \<open>Rows\<close>

definition contest_json :: "time_format \<Rightarrow> contest \<Rightarrow> json option" where
  "contest_json F c =
     struct
       [(''id'', enc_id (c_id c)), (''title'', enc_string (c_title c)),
        (''description'', enc_string (c_description c)), (''visibility'', enc_string (c_visibility c)),
        (''start_at'', enc_ptr (enc_time F) (c_start_at c)), (''end_at'', enc_ptr (enc_time F) (c_end_at c)),
        (''created_at'', enc_time F (c_created_at c)), (''updated_at'', enc_time F (c_updated_at c))]"

definition series_json :: "time_format \<Rightarrow> series \<Rightarrow> json option" where
  "series_json F s =
     struct
       [(''id'', enc_id (s_id s)), (''contest_id'', enc_id (s_contest_id s)),
        (''title'', enc_string (s_title s)), (''position'', enc_int (s_position s)),
        (''created_at'', enc_time F (s_created_at s)), (''updated_at'', enc_time F (s_updated_at s)),
        (''start_at'', enc_ptr (enc_time F) (s_start_at s)), (''end_at'', enc_ptr (enc_time F) (s_end_at s)),
        (''release_at'', enc_ptr (enc_time F) (s_release_at s))]"

definition membership_json :: "membership \<Rightarrow> json option" where
  "membership_json m =
     struct
       [(''id'', enc_id (m_id m)), (''contest_id'', enc_id (m_contest_id m)),
        (''user_id'', enc_id (m_user_id m)), (''role'', enc_string (m_role m))]"

definition artifact_json :: "time_format \<Rightarrow> artifact \<Rightarrow> json option" where
  "artifact_json F a =
     struct
       [(''id'', enc_id (a_id a)), (''owner_id'', enc_id (a_owner_id a)),
        (''sha256'', enc_string (a_sha256 a)), (''size_bytes'', enc_int (a_size_bytes a)),
        (''content_type'', enc_string (a_content_type a)), (''filename'', enc_string (a_filename a)),
        (''created_at'', enc_time F (a_created_at a))]"

definition problem_json :: "time_format \<Rightarrow> problem \<Rightarrow> json option" where
  "problem_json F p =
     struct
       [(''id'', enc_id (p_id p)), (''owner_id'', enc_id (p_owner_id p)),
        (''title'', enc_string (p_title p)), (''code'', enc_string (p_code p)),
        (''kind'', enc_string (p_kind p)), (''created_at'', enc_time F (p_created_at p)),
        (''updated_at'', enc_time F (p_updated_at p))]"

definition revision_json :: "time_format \<Rightarrow> revision \<Rightarrow> json option" where
  "revision_json F r =
     struct
       [(''id'', enc_id (r_id r)), (''problem_id'', enc_id (r_problem_id r)),
        (''number'', enc_int (r_number r)), (''state'', enc_string (r_state r)),
        (''statement'', enc_string (r_statement r)),
        (''pdf_artifact_id'', enc_ptr enc_id (r_pdf_artifact_id r)),
        (''time_limit_millis'', enc_ptr enc_int (r_time_limit_millis r)),
        (''memory_limit_kib'', enc_ptr enc_int (r_memory_limit_kib r)),
        (''language_metadata'', enc_string (r_language_metadata r)),
        (''checker_metadata'', enc_string (r_checker_metadata r)),
        (''published_at'', enc_ptr (enc_time F) (r_published_at r)),
        (''created_at'', enc_time F (r_created_at r)), (''updated_at'', enc_time F (r_updated_at r))]"

definition series_problem_json :: "time_format \<Rightarrow> series_problem \<Rightarrow> json option" where
  "series_problem_json F a =
     struct
       [(''id'', enc_id (sp_id a)), (''series_id'', enc_id (sp_series_id a)),
        (''problem_id'', enc_id (sp_problem_id a)),
        (''revision_id'', enc_id (sp_published_revision_id a)), (''code'', enc_string (sp_code a)),
        (''position'', enc_int (sp_position a)), (''created_at'', enc_time F (sp_created_at a)),
        (''updated_at'', enc_time F (sp_updated_at a))]"

definition test_json :: "time_format \<Rightarrow> test_case \<Rightarrow> json option" where
  "test_json F t =
     struct
       [(''id'', enc_id (t_id t)), (''revision_id'', enc_id (t_problem_revision_id t)),
        (''position'', enc_int (t_position t)), (''is_sample'', enc_bool (t_is_sample t)),
        (''points'', enc_ptr enc_int (t_points t)),
        (''time_limit_override_millis'', enc_ptr enc_int (t_time_limit_override_millis t)),
        (''input_artifact_id'', enc_id (t_input_artifact_id t)),
        (''output_artifact_id'', enc_id (t_output_artifact_id t)),
        (''created_at'', enc_time F (t_created_at t)), (''updated_at'', enc_time F (t_updated_at t))]"

section \<open>Structs of the content service\<close>

definition sample_json :: "public_sample \<Rightarrow> json option" where
  "sample_json p =
     struct
       [(''position'', enc_int (ps_position p)), (''input_artifact_id'', enc_id (ps_input_artifact_id p)),
        (''output_artifact_id'', enc_id (ps_output_artifact_id p))]"

definition statement_json :: "statement \<Rightarrow> json option" where
  "statement_json s =
     struct
       [(''assignment_id'', enc_id (st_assignment_id s)), (''revision_id'', enc_id (st_revision_id s)),
        (''title'', enc_string (st_title s)), (''code'', enc_string (st_code s)),
        (''statement'', enc_string (st_statement s)),
        (''pdf_artifact_id'', enc_ptr enc_id (st_pdf_artifact_id s)),
        (''time_limit_millis'', enc_ptr enc_int (st_time_limit_millis s)),
        (''memory_limit_kib'', enc_ptr enc_int (st_memory_limit_kib s)),
        (''language_metadata'', enc_string (st_languages s)),
        (''samples'', json_array sample_json (st_samples s))]"

definition preview_test_json :: "preview_test \<Rightarrow> json option" where
  "preview_test_json p =
     struct
       [(''name'', enc_string (pt_name p)), (''input_bytes'', enc_id (pt_input_bytes p)),
        (''output_bytes'', enc_id (pt_output_bytes p))]"

definition preview_json :: "time_format \<Rightarrow> preview \<Rightarrow> json option" where
  "preview_json F p =
     struct
       [(''id'', enc_id (pr_id p)), (''expires_at'', enc_time F (pr_expires_at p)),
        (''tests'', json_array preview_test_json (pr_tests p))]"

section \<open>Answers\<close>

fun encode_value :: "time_format \<Rightarrow> api_value \<Rightarrow> json option" where
  "encode_value F (VToken token) = struct [(''csrf_token'', enc_string token)]"
| "encode_value F (VContests cs) = json_array (contest_json F) cs"
| "encode_value F (VContest c) = contest_json F c"
| "encode_value F (VMembers ms) = json_array membership_json ms"
| "encode_value F (VSeriesList ss) = json_array (series_json F) ss"
| "encode_value F (VSeries s) = series_json F s"
| "encode_value F (VAssignments as) = json_array (series_problem_json F) as"
| "encode_value F (VAssignment a) = series_problem_json F a"
| "encode_value F (VProblems ps) = json_array (problem_json F) ps"
| "encode_value F (VProblem p) = problem_json F p"
| "encode_value F (VCreated p r) = struct [(''problem'', problem_json F p), (''revision'', revision_json F r)]"
| "encode_value F (VRevisions rs) = json_array (revision_json F) rs"
| "encode_value F (VRevision r) = revision_json F r"
| "encode_value F (VTests ts) = json_array (test_json F) ts"
| "encode_value F (VTest t) = test_json F t"
| "encode_value F (VArtifact a) = artifact_json F a"
| "encode_value F (VPreview p) = preview_json F p"
| "encode_value F (VStatement s) = statement_json s"
| "encode_value F (VRemoved n) = struct [(''removed'', enc_id n)]"

definition error_json :: "string \<Rightarrow> string \<Rightarrow> json option" where
  "error_json kind message =
     struct [(''error'', struct [(''code'', enc_string kind), (''message'', enc_string message)])]"

definition encode_content :: "time_format \<Rightarrow> content \<Rightarrow> json option" where
  "encode_content F c =
     (case c of
        Json v \<Rightarrow> encode_value F v
      | JsonError kind message \<Rightarrow> error_json kind message
      | _ \<Rightarrow> None)"

text \<open>The body of an answer of the interface: one line, or nothing when encoding fails.\<close>

definition response_text :: "time_format \<Rightarrow> response \<Rightarrow> string" where
  "response_text F r =
     (case encode_content F (rs_content r) of None \<Rightarrow> [] | Some j \<Rightarrow> marshal_json j @ [CHR 0x0A])"

end
