(* ===== verification/Json_Facts.thy ===== *)
theory Json_Facts
  imports Json_Text Json_Roundtrip
begin

text \<open>
  Reading a JSON document ends within the bytes it has, and reads back what was written.
\<close>

section \<open>Numbers take what they return\<close>









section \<open>Every reader takes a byte\<close>



lemma json_value_none [simp]: "json_value 0 d s = None"
  by (simp add: json_value.simps)

lemma json_members_none [simp]: "json_members 0 d s = None"
  by (simp add: json_members.simps)

lemma json_items_none [simp]: "json_items 0 d s = None"
  by (simp add: json_items.simps)

lemma json_value_blank: "skip_space s = [] \<Longrightarrow> json_value n d s = None"
  by (cases n) (simp, subst json_value.simps, simp only: nat.case list.case)

lemma json_value_step:
  "skip_space s = c # r \<Longrightarrow> json_value (Suc m) d s =
     (if c = CHR 0x22 then map_option (\<lambda>(v, t). (JString v, t)) (json_chars (length r) r)
      else if c = CHR ''['' then
        open_level (CHR '']'') d r (JArray [])
          (map_option (\<lambda>(vs, t). (JArray vs, t)) (json_items m (d - 1) r))
      else if c = CHR ''{'' then
        open_level (CHR ''}'') d r (JObject [])
          (map_option (\<lambda>(ms, t). (JObject ms, t)) (json_members m (d - 1) r))
      else json_scalar (c # r))"
  by (subst json_value.simps) (simp only: nat.case list.case)

lemma json_items_step:
  "json_value (Suc m) d s = Some (v, r) \<Longrightarrow> skip_space r = c # q \<Longrightarrow> json_items (Suc m) d s =
     (if c = CHR '']'' then Some ([v], q)
      else if c = CHR '','' then map_option (\<lambda>(vs, t). (v # vs, t)) (json_items m d q) else None)"
  by (subst json_items.simps) (simp only: nat.case list.case option.case prod.case)

lemma json_items_fails:
  "json_value n d s = None \<Longrightarrow> json_items n d s = None"
  "json_value n d s = Some (v, r) \<Longrightarrow> skip_space r = [] \<Longrightarrow> json_items n d s = None"
  by (subst json_items.simps, simp only: list.case option.case prod.case)+

lemma json_members_step:
  "json_key s = Some (k, u) \<Longrightarrow> json_value m d u = Some (v, x) \<Longrightarrow> skip_space x = f # y \<Longrightarrow>
   json_members (Suc m) d s =
     (if f = CHR ''}'' then Some ([(k, v)], y)
      else if f = CHR '','' then map_option (\<lambda>(ms, t). ((k, v) # ms, t)) (json_members m d y) else None)"
  by (subst json_members.simps) (simp only: nat.case list.case option.case prod.case)

lemma json_members_fails:
  "json_key s = None \<Longrightarrow> json_members n d s = None"
  "json_key s = Some (k, u) \<Longrightarrow> json_value m d u = None \<Longrightarrow> json_members (Suc m) d s = None"
  "json_key s = Some (k, u) \<Longrightarrow> json_value m d u = Some (v, x) \<Longrightarrow> skip_space x = [] \<Longrightarrow>
   json_members (Suc m) d s = None"
  by (cases n; (simp; fail)?; subst json_members.simps, simp only: nat.case list.case option.case prod.case)+








section \<open>The fuel is enough\<close>

lemma json_value_empty [simp]: "json_value n d [] = None" "json_items n d [] = None" "json_members n d [] = None"
  by (simp_all add: json_value_blank json_items_fails json_members_fails json_key_def)







section \<open>What is written is read back\<close>

text \<open>The whole numbers, and the documents whose numbers are.\<close>

definition natural_text :: "string \<Rightarrow> bool" where
  "natural_text t \<longleftrightarrow> t = ''0'' \<or> (t \<noteq> [] \<and> list_all is_digit t \<and> hd t \<noteq> CHR ''0'')"

definition whole_text :: "string \<Rightarrow> bool" where
  "whole_text t \<longleftrightarrow> (case t of [] \<Rightarrow> False | c # r \<Rightarrow> if c = CHR ''-'' then natural_text r else natural_text t)"

primrec json_ok :: "json \<Rightarrow> bool" where
  "json_ok JNull = True"
| "json_ok (JBool b) = True"
| "json_ok (JNumber t) = whole_text t"
| "json_ok (JString s) = True"
| "json_ok (JArray js) = list_all id (map json_ok js)"
| "json_ok (JObject ms) = list_all snd (map (map_prod id json_ok) ms)"

text \<open>The document with every byte that is not valid UTF-8 replaced.\<close>

primrec utf8_json :: "json \<Rightarrow> json" where
  "utf8_json JNull = JNull"
| "utf8_json (JBool b) = JBool b"
| "utf8_json (JNumber t) = JNumber t"
| "utf8_json (JString s) = JString (to_valid s)"
| "utf8_json (JArray js) = JArray (map utf8_json js)"
| "utf8_json (JObject ms) = JObject (map (map_prod to_valid id) (map (map_prod id utf8_json) ms))"

lemma nested_json [simp]:
  "json_ok (JArray js) \<longleftrightarrow> (\<forall>j\<in>set js. json_ok j)"
  "json_ok (JObject ms) \<longleftrightarrow> (\<forall>m\<in>set ms. json_ok (snd m))"
  "utf8_json (JObject ms) = JObject (map (map_prod to_valid utf8_json) ms)"
  by (auto simp: list_all_iff prod.map_comp comp_def)

declare json_ok.simps(5,6) [simp del] utf8_json.simps(6) [simp del]

text \<open>What may follow a value in the texts that are written.\<close>

definition ends_value :: "string \<Rightarrow> bool" where
  "ends_value t \<longleftrightarrow> (case t of [] \<Rightarrow> True | c # r \<Rightarrow> c \<in> {CHR '','', CHR '']'', CHR ''}'', CHR 0x0A})"

lemma ends_value_simps [simp]:
  "ends_value []" "ends_value (CHR '','' # r)" "ends_value (CHR '']'' # r)" "ends_value (CHR ''}'' # r)"
  "ends_value (CHR 0x0A # r)"
  by (simp_all add: ends_value_def)

lemma ends_value_parts:
  assumes "ends_value t"
  shows "json_fraction t = Some ([], t)" "json_exponent t = Some ([], t)" "takeWhile is_digit t = []"
    "dropWhile is_digit t = t"
  using assms by (cases t; auto simp: ends_value_def json_fraction_def json_exponent_def is_digit_def)+

lemma natural_reads:
  assumes "natural_text t" and "ends_value u"
  shows "json_unsigned (t @ u) = Some (t, u)"
proof -
  have "json_whole (t @ u) = Some (t, u)"
    using assms by (cases t) (auto simp: natural_text_def json_whole_def json_digits_def list_all_iff
        takeWhile_append dropWhile_append ends_value_parts)
  with assms(2) show ?thesis by (simp add: json_unsigned_def then_part_def ends_value_parts)
qed

lemma natural_start: "natural_text t \<Longrightarrow> \<exists>c r. t = c # r \<and> is_digit c"
  by (cases t) (auto simp: natural_text_def is_digit_def)

lemma whole_reads:
  assumes "whole_text t" and "ends_value u"
  shows "json_number (t @ u) = Some (t, u)"
  using assms natural_reads [OF _ assms(2), of t] natural_reads [OF _ assms(2), of "tl t"]
  by (cases t) (auto simp: whole_text_def json_number_def split: if_splits)

lemma whole_start: "whole_text t \<Longrightarrow> \<exists>c r. t = c # r \<and> (c = CHR ''-'' \<or> is_digit c)"
  by (cases t) (auto simp: whole_text_def dest: natural_start split: if_splits)

lemma whole_scalar:
  assumes "whole_text t" and "ends_value u"
  shows "json_scalar (t @ u) = Some (JNumber t, u)"
proof -
  obtain c r where t: "t = c # r" "c = CHR ''-'' \<or> is_digit c" using whole_start [OF assms(1)] by blast
  then have "c \<noteq> CHR ''n'' \<and> c \<noteq> CHR ''t'' \<and> c \<noteq> CHR ''f''" by (auto simp: is_digit_def)
  with whole_reads [OF assms] t(1) show ?thesis by (auto simp: json_scalar_def)
qed

lemma marshal_start:
  assumes "json_ok j"
  obtains c r where "marshal_json j = c # r" "\<not> json_space c" "c \<noteq> CHR '']''" "c \<noteq> CHR ''}''"
proof (cases j)
  case (JNumber t)
  with assms have "whole_text t" by simp
  then obtain c r where "t = c # r" "c = CHR ''-'' \<or> is_digit c" using whole_start by blast
  moreover from this have "c \<noteq> CHR '']'' \<and> c \<noteq> CHR ''}'' \<and> \<not> json_space c"
    by (auto simp: json_space_def is_digit_def)
  ultimately show thesis using JNumber that by simp
next
  case (JBool b)
  with that show thesis by (cases b) (auto simp: json_space_def)
qed (use that in \<open>auto simp: json_space_def quote_string_def\<close>)

definition reads_back :: "json \<Rightarrow> bool" where
  "reads_back j \<longleftrightarrow>
     (\<forall>n d t. json_depth j \<le> d \<longrightarrow> ends_value t \<longrightarrow> length (marshal_json j @ t) \<le> n \<longrightarrow>
        json_value n d (marshal_json j @ t) = Some (utf8_json j, t))"

lemma reads_backD:
  "reads_back j \<Longrightarrow> json_depth j \<le> d \<Longrightarrow> ends_value t \<Longrightarrow> length (marshal_json j @ t) \<le> n \<Longrightarrow>
   json_value n d (marshal_json j @ t) = Some (utf8_json j, t)"
  by (simp add: reads_back_def)

lemma json_scalar_literal:
  "json_scalar (''null'' @ t) = Some (JNull, t)" "json_scalar (''true'' @ t) = Some (JBool True, t)"
  "json_scalar (''false'' @ t) = Some (JBool False, t)"
  by (simp_all add: json_scalar_def)

lemma scalar_reads_back:
  assumes "json_ok j" and "\<And>t. ends_value t \<Longrightarrow> json_scalar (marshal_json j @ t) = Some (utf8_json j, t)"
    and "hd (marshal_json j) \<notin> {CHR 0x22, CHR ''['', CHR ''{''}"
  shows "reads_back j"
  unfolding reads_back_def
proof (intro allI impI)
  fix n d t
  assume t: "ends_value t" and n: "length (marshal_json j @ t) \<le> n"
  obtain c r where c: "marshal_json j = c # r" "\<not> json_space c" using assms(1) by (rule marshal_start)
  with n obtain m where m: "n = Suc m" by (cases n) auto
  have "skip_space (marshal_json j @ t) = c # r @ t" using c by simp
  from json_value_step [OF this] assms(2) [OF t] assms(3) c(1) m
  show "json_value n d (marshal_json j @ t) = Some (utf8_json j, t)" by simp
qed

lemma quoted_chars:
  "json_chars (length (quote_chars s @ CHR 0x22 # t)) (quote_chars s @ CHR 0x22 # t) = Some (to_valid s, t)"
  using json_element_quoted [of s t] by (simp add: quote_string_def json_element_quote)

lemma string_reads_back: "reads_back (JString s)"
  unfolding reads_back_def
proof (intro allI impI)
  fix n d t
  assume n: "length (marshal_json (JString s) @ t) \<le> n"
  then obtain m where m: "n = Suc m" by (cases n) (auto simp: quote_string_def)
  have "skip_space (marshal_json (JString s) @ t) = CHR 0x22 # quote_chars s @ CHR 0x22 # t"
    by (simp add: quote_string_def json_space_def)
  from json_value_step [OF this] m quoted_chars [of s t]
  show "json_value n d (marshal_json (JString s) @ t) = Some (utf8_json (JString s), t)" by simp
qed

lemma json_key_quoted: "json_key (quote_string k @ CHR '':'' # t) = Some (to_valid k, t)"
proof -
  have "skip_space (quote_string k @ CHR '':'' # t) = CHR 0x22 # quote_chars k @ CHR 0x22 # CHR '':'' # t"
    by (simp add: quote_string_def json_space_def)
  then show ?thesis
    using quoted_chars [of k "CHR '':'' # t"] by (simp add: json_key_def json_space_def)
qed

lemma items_read_back:
  "js \<noteq> [] \<Longrightarrow> \<forall>j\<in>set js. reads_back j \<and> json_depth j \<le> d \<Longrightarrow>
   length (join_comma (map marshal_json js) @ CHR '']'' # t) \<le> n \<Longrightarrow>
   json_items n d (join_comma (map marshal_json js) @ CHR '']'' # t) = Some (map utf8_json js, t)"
proof (induction js arbitrary: n)
  case (Cons j js)
  obtain m where n: "n = Suc m" using Cons.prems(3) by (cases n) auto
  have stop: "skip_space (CHR '','' # u) = CHR '','' # u" "skip_space (CHR '']'' # u) = CHR '']'' # u" for u
    by (simp_all add: json_space_def)
  show ?case
  proof (cases js)
    case Nil
    with Cons.prems n have "json_value (Suc m) d (marshal_json j @ CHR '']'' # t) = Some (utf8_json j, CHR '']'' # t)"
      by (intro reads_backD) auto
    from json_items_step [OF this stop(2)] show ?thesis by (simp add: Nil n)
  next
    case (Cons k ks)
    let ?rest = "join_comma (map marshal_json js) @ CHR '']'' # t"
    have joined: "join_comma (map marshal_json (j # js)) @ CHR '']'' # t = marshal_json j @ CHR '','' # ?rest"
      by (simp add: Cons)
    have len: "length (marshal_json j @ CHR '','' # ?rest) \<le> Suc m"
      using Cons.prems(3) joined n by simp
    then have "json_value (Suc m) d (marshal_json j @ CHR '','' # ?rest) = Some (utf8_json j, CHR '','' # ?rest)"
      using Cons.prems(2) by (intro reads_backD) auto
    from json_items_step [OF this stop(1)]
    have step: "json_items (Suc m) d (marshal_json j @ CHR '','' # ?rest) =
        map_option (\<lambda>(vs, t). (utf8_json j # vs, t)) (json_items m d ?rest)" by simp
    have "json_items m d ?rest = Some (map utf8_json js, t)"
      using Cons.prems(2) len Cons by (intro Cons.IH) auto
    with step show ?thesis unfolding joined n by simp
  qed
qed simp

lemma members_read_back:
  "ms \<noteq> [] \<Longrightarrow> \<forall>m\<in>set ms. reads_back (snd m) \<and> json_depth (snd m) \<le> d \<Longrightarrow>
   length (join_comma (map (\<lambda>m. quote_string (fst m) @ CHR '':'' # marshal_json (snd m)) ms) @ CHR ''}'' # t) \<le> n \<Longrightarrow>
   json_members n d (join_comma (map (\<lambda>m. quote_string (fst m) @ CHR '':'' # marshal_json (snd m)) ms) @ CHR ''}'' # t)
     = Some (map (map_prod to_valid utf8_json) ms, t)"
proof (induction ms arbitrary: n)
  case (Cons m ms)
  let ?text = "\<lambda>m. quote_string (fst m) @ CHR '':'' # marshal_json (snd m)"
  obtain i where n: "n = Suc i" using Cons.prems(3) by (cases n) auto
  have stop: "skip_space (CHR '','' # u) = CHR '','' # u" "skip_space (CHR ''}'' # u) = CHR ''}'' # u" for u
    by (simp_all add: json_space_def)
  note key = json_key_quoted [of "fst m"]
  show ?case
  proof (cases ms)
    case Nil
    with Cons.prems n have "json_value i d (marshal_json (snd m) @ CHR ''}'' # t) = Some (utf8_json (snd m), CHR ''}'' # t)"
      by (intro reads_backD) (auto simp: quote_string_def)
    from json_members_step [OF key this stop(2)] show ?thesis by (simp add: Nil n map_prod_def split_def)
  next
    case (Cons k ks)
    let ?rest = "join_comma (map ?text ms) @ CHR ''}'' # t"
    have joined: "join_comma (map ?text (m # ms)) @ CHR ''}'' # t =
        quote_string (fst m) @ CHR '':'' # marshal_json (snd m) @ CHR '','' # ?rest"
      by (simp add: Cons)
    have len: "length (marshal_json (snd m) @ CHR '','' # ?rest) \<le> i"
      using Cons.prems(3) joined n by (simp add: quote_string_def)
    then have "json_value i d (marshal_json (snd m) @ CHR '','' # ?rest) = Some (utf8_json (snd m), CHR '','' # ?rest)"
      using Cons.prems(2) by (intro reads_backD) auto
    from json_members_step [OF key this stop(1)]
    have step: "json_members (Suc i) d (quote_string (fst m) @ CHR '':'' # marshal_json (snd m) @ CHR '','' # ?rest) =
        map_option (\<lambda>(vs, t). ((to_valid (fst m), utf8_json (snd m)) # vs, t)) (json_members i d ?rest)" by simp
    have "json_members i d ?rest = Some (map (map_prod to_valid utf8_json) ms, t)"
      using Cons.prems(2) len Cons by (intro Cons.IH) auto
    with step show ?thesis unfolding joined n by (simp add: map_prod_def split_def)
  qed
qed simp

text \<open>An opening bracket before something that does not close it.\<close>

lemma open_level_inside:
  "d \<noteq> 0 \<Longrightarrow> skip_space r = c # u \<Longrightarrow> c \<noteq> b \<Longrightarrow> open_level b d r e x = x"
  by (simp add: open_level_def del: dropWhile_eq_Cons_conv)

lemma array_reads_back:
  assumes "\<forall>j\<in>set js. json_ok j \<and> reads_back j"
  shows "reads_back (JArray js)"
  unfolding reads_back_def
proof (intro allI impI)
  fix n d t
  assume d: "json_depth (JArray js) \<le> d" and n: "length (marshal_json (JArray js) @ t) \<le> n"
  let ?r = "join_comma (map marshal_json js) @ CHR '']'' # t"
  from n obtain m where m: "n = Suc m" "length ?r \<le> m" by (cases n) auto
  have written: "marshal_json (JArray js) @ t = CHR ''['' # ?r" by simp
  have "skip_space (CHR ''['' # ?r) = CHR ''['' # ?r" by (simp add: json_space_def)
  note step = json_value_step [OF this, of m d]
  show "json_value n d (marshal_json (JArray js) @ t) = Some (utf8_json (JArray js), t)"
  proof (cases js)
    case Nil
    with d step m written show ?thesis by (simp add: open_level_def json_space_def)
  next
    case (Cons j ks)
    with assms obtain c u where c: "marshal_json j = c # u" "\<not> json_space c" "c \<noteq> CHR '']''"
      by (metis list.set_intros(1) marshal_start)
    then have "skip_space ?r = c # tl ?r" by (cases ks) (simp_all add: Cons)
    then have "open_level (CHR '']'') d ?r e x = x" for e x
      using d c(3) by (intro open_level_inside) auto
    moreover have "json_items m (d - 1) ?r = Some (map utf8_json js, t)"
      using assms d m(2) Cons by (intro items_read_back) auto
    ultimately show ?thesis unfolding written m(1) step by simp
  qed
qed

lemma object_reads_back:
  assumes "\<forall>m\<in>set ms. reads_back (snd m)"
  shows "reads_back (JObject ms)"
  unfolding reads_back_def
proof (intro allI impI)
  fix n d t
  assume d: "json_depth (JObject ms) \<le> d" and n: "length (marshal_json (JObject ms) @ t) \<le> n"
  let ?r = "join_comma (map (\<lambda>m. quote_string (fst m) @ CHR '':'' # marshal_json (snd m)) ms) @ CHR ''}'' # t"
  from n obtain m where m: "n = Suc m" "length ?r \<le> m" by (cases n) auto
  have written: "marshal_json (JObject ms) @ t = CHR ''{'' # ?r" by simp
  have "skip_space (CHR ''{'' # ?r) = CHR ''{'' # ?r" by (simp add: json_space_def)
  note step = json_value_step [OF this, of m d]
  show "json_value n d (marshal_json (JObject ms) @ t) = Some (utf8_json (JObject ms), t)"
  proof (cases ms)
    case Nil
    with d step m written show ?thesis by (simp add: open_level_def json_space_def)
  next
    case (Cons k ks)
    then have "skip_space ?r = CHR 0x22 # tl ?r" by (cases ks) (simp_all add: quote_string_def json_space_def)
    then have "open_level (CHR ''}'') d ?r e x = x" for e x
      using d by (intro open_level_inside) auto
    moreover have "json_members m (d - 1) ?r = Some (map (map_prod to_valid utf8_json) ms, t)"
      using assms d m(2) Cons by (intro members_read_back) auto
    ultimately show ?thesis unfolding written m(1) step by simp
  qed
qed

lemma written_reads_back: "json_ok j \<Longrightarrow> reads_back j"
proof (induction j)
  case JNull
  show ?case by (rule scalar_reads_back) (simp_all add: json_scalar_literal [simplified])
next
  case (JBool b)
  show ?case by (rule scalar_reads_back) (simp_all add: json_scalar_literal [simplified])
next
  case (JNumber t)
  then have "whole_text t" by simp
  then obtain c r where "t = c # r" "c = CHR ''-'' \<or> is_digit c" using whole_start by blast
  then have "hd t \<notin> {CHR 0x22, CHR ''['', CHR ''{''}" by (auto simp: is_digit_def)
  with JNumber show ?case by (intro scalar_reads_back) (simp_all add: whole_scalar)
next
  case (JString s)
  show ?case by (rule string_reads_back)
next
  case (JArray js)
  then show ?case by (intro array_reads_back) auto
next
  case (JObject ms)
  then show ?case by (intro object_reads_back) (auto simp: prod_set_simps)
qed

text \<open>A whole body: the document, its end, and nothing after it but the line break.\<close>

lemma written_document:
  assumes "json_ok j" and "json_depth j \<le> max_depth"
  shows "read_document (marshal_json j @ [CHR 0x0A]) = Some (JsonBody (utf8_json j) (int (length (marshal_json j))) True)"
  using reads_backD [OF written_reads_back [OF assms(1)] assms(2), of "[CHR 0x0A]"]
  by (simp add: read_document_def json_space_def)

section \<open>Property\<close>



end
