(* ===== verification/Encoding_Facts.thy ===== *)
theory Encoding_Facts
  imports Api_Encoding Json_Facts
begin

text \<open>
  The answers of the interface are JSON documents that are read back as they were written.
\<close>

section \<open>Answers are documents\<close>

text \<open>Shallow documents whose numbers are whole.\<close>

definition plain_json :: "nat \<Rightarrow> json option \<Rightarrow> bool" where
  "plain_json d x \<longleftrightarrow> (\<forall>j\<in>set_option x. json_ok j \<and> json_depth j \<le> d)"

named_theorems plain

lemma decimal_natural: "natural_text (decimal n)"
proof -
  have "k \<noteq> 0 \<Longrightarrow> n < k \<Longrightarrow> n = 0 \<or> hd (digits_of k n) \<noteq> CHR ''0''" for k
  proof (induction k n rule: digits_of.induct)
    case (2 k n)
    show ?case
    proof (cases "n < 10")
      case True
      have "code (byte (48 + n)) = 48 + n" using digit_byte [OF True] by simp
      then have "byte (48 + n) = CHR ''0'' \<Longrightarrow> n = 0" by simp
      then have "n = 0 \<or> byte (48 + n) \<noteq> CHR ''0''" by blast
      with True show ?thesis by simp
    next
      case False
      then have "n div 10 < k" "n div 10 \<noteq> 0" using 2(3) by simp_all
      with False 2(1) have "hd (digits_of k (n div 10)) \<noteq> CHR ''0''" by (cases k) blast+
      moreover have "digits_of k (n div 10) \<noteq> []" using False 2(3) by (cases k) auto
      ultimately show ?thesis using False by simp
    qed
  qed simp
  from this [of "Suc n"] have "n = 0 \<or> hd (decimal n) \<noteq> CHR ''0''" by (simp only: decimal_def)
  then show ?thesis
  proof
    assume "n = 0"
    moreover have "decimal 0 = ''0''" by code_simp
    ultimately show ?thesis by (simp add: natural_text_def)
  qed (auto simp: natural_text_def list_all_iff decimal_all_digits)
qed

lemma decimal_whole: "whole_text (decimal n)"
  using decimal_natural [of n] decimal_unsigned(1) [of n]
  by (cases "decimal n") (auto simp: whole_text_def)

lemma int_text_whole: "whole_text (int_text i)"
  using decimal_natural [of "nat (- i)"] decimal_whole [of "nat i"] by (simp add: int_text_def whole_text_def)

lemma plain_leaves [plain]:
  "plain_json d (enc_id n)" "plain_json d (enc_int i)" "plain_json d (enc_string s)" "plain_json d (enc_bool b)"
  "plain_json d (enc_time F t)"
  by (auto simp: plain_json_def enc_id_def enc_int_def enc_string_def enc_bool_def enc_time_def
      decimal_whole int_text_whole)

lemma plain_ptr [plain]: "(\<And>v. plain_json d (f v)) \<Longrightarrow> plain_json d (enc_ptr f x)"
  by (cases x) (auto simp: enc_ptr_def plain_json_def)

lemma plain_json_simps [simp]: "plain_json d None" "plain_json d (Some j) \<longleftrightarrow> json_ok j \<and> json_depth j \<le> d"
  by (simp_all add: plain_json_def)

lemma plain_the: "plain_json d x \<Longrightarrow> x \<noteq> None \<Longrightarrow> json_ok (the x) \<and> json_depth (the x) \<le> d"
  by (cases x) simp_all

lemma plain_array [plain]:
  assumes "\<And>x. plain_json d (f x)"
  shows "plain_json (Suc d) (json_array f xs)"
proof (cases "None \<in> set (map f xs)")
  case False
  then have "json_ok (the (f x)) \<and> json_depth (the (f x)) \<le> d" if "x \<in> set xs" for x
    using that by (intro plain_the assms) force
  with False show ?thesis by (simp add: json_array_def)
qed (simp add: json_array_def)

text \<open>Member by member.\<close>

lemma plain_members [plain]:
  "plain_json (Suc d) (struct [])"
  "plain_json d x \<Longrightarrow> plain_json (Suc d) (struct ms) \<Longrightarrow> plain_json (Suc d) (struct ((k, x) # ms))"
  by (simp add: struct_def) (cases x; auto simp: struct_def split: if_splits)

lemma plain_rows [plain]:
  "plain_json (Suc d) (contest_json F c)" "plain_json (Suc d) (series_json F s)"
  "plain_json (Suc d) (membership_json m)" "plain_json (Suc d) (artifact_json F a)"
  "plain_json (Suc d) (problem_json F p)" "plain_json (Suc d) (revision_json F r)"
  "plain_json (Suc d) (series_problem_json F sp)" "plain_json (Suc d) (test_json F t)"
  "plain_json (Suc d) (sample_json ps)" "plain_json (Suc d) (preview_test_json pt)"
  unfolding contest_json_def series_json_def membership_json_def artifact_json_def problem_json_def
    revision_json_def series_problem_json_def test_json_def sample_json_def preview_test_json_def
  by (intro plain)+



section \<open>Property\<close>



end
