(* ===== verification/Edit_Roundtrip.thy ===== *)
theory Edit_Roundtrip
  imports Encoding_Facts Api_Contests Policy Samples
begin

text \<open>
  What a client reads of a contest or a series it may send back: the decoder of the inputs
  gives the values that were encoded, and an edit with them changes nothing but the stamp.
\<close>

section \<open>Sending back what was read\<close>

text \<open>What a client keeps of an answer: the members the input of the edit has.\<close>

definition sent_back :: "'a field list \<Rightarrow> json \<Rightarrow> json" where
  "sent_back fs j =
     (case j of JObject ms \<Rightarrow> JObject (filter (\<lambda>m. fst m \<in> fst ` set fs) ms) | _ \<Rightarrow> j)"

text \<open>Printed instants are valid UTF-8 and are parsed as the same instant.\<close>

definition prints_times :: "library \<Rightarrow> time_format \<Rightarrow> bool" where
  "prints_times L F \<longleftrightarrow> (\<forall>t s. F t = Some s \<longrightarrow> to_valid s = s \<and> parse_rfc3339 L s = Some t)"

lemma dec_time_printed:
  assumes "prints_times L F" and "enc_ptr (enc_time F) x = Some j"
  shows "dec_time_ptr L (utf8_json j) = Inr x"
  using assms
  by (cases x) (auto simp: prints_times_def enc_ptr_def enc_time_def dec_time_ptr_def or_error_def)

lemma struct_SomeE:
  assumes "struct ms = Some j"
  shows "j = JObject (map (\<lambda>m. (fst m, the (snd m))) ms) \<and> (\<forall>m\<in>set ms. \<exists>v. snd m = Some v)"
proof (cases "None \<in> set (map snd ms)")
  case False
  then have "snd m \<noteq> None" if "m \<in> set ms" for m using that by force
  with False assms show ?thesis by (auto simp: struct_def)
qed (use assms in \<open>simp add: struct_def\<close>)

lemmas leaf_defs = enc_id_def enc_int_def enc_string_def enc_bool_def
lemmas decoder_defs = dec_struct_def set_with_def setter_def find_field_def dec_string_def dec_int_def
  dec_uint_def or_error_def

lemma to_valid_names:
  "to_valid ''title'' = ''title''" "to_valid ''description'' = ''description''"
  "to_valid ''visibility'' = ''visibility''" "to_valid ''start_at'' = ''start_at''"
  "to_valid ''end_at'' = ''end_at''" "to_valid ''release_at'' = ''release_at''"
  "to_valid ''position'' = ''position''"
  by (simp_all add: to_valid_ascii del: to_valid.simps) (simp_all add: to_valid.simps(1))

lemma contest_sent_back:
  assumes "prints_times L F" and "contest_json F c = Some j"
  shows "dec_struct (contest_input_fields L) no_contest_input (utf8_json (sent_back (contest_input_fields L) j)) =
    Inr \<lparr>ci_title = to_valid (c_title c), ci_description = to_valid (c_description c),
         ci_visibility = to_valid (c_visibility c), ci_start_at = c_start_at c, ci_end_at = c_end_at c\<rparr>"
proof -
  from struct_SomeE [OF assms(2) [unfolded contest_json_def]]
  obtain a b where ab: "enc_ptr (enc_time F) (c_start_at c) = Some a" "enc_ptr (enc_time F) (c_end_at c) = Some b"
    and j: "sent_back (contest_input_fields L) j =
      JObject [(''title'', JString (c_title c)), (''description'', JString (c_description c)),
        (''visibility'', JString (c_visibility c)), (''start_at'', a), (''end_at'', b)]"
    by (auto simp: leaf_defs sent_back_def contest_input_fields_def)
  note times = dec_time_printed [OF assms(1) ab(1)] dec_time_printed [OF assms(1) ab(2)]
  show ?thesis
    unfolding j by (simp add: to_valid_names decoder_defs contest_input_fields_def no_contest_input_def times
        del: to_valid.simps)
qed

text \<open>A request that sends it: its body is the text of what the client kept.\<close>

definition sends :: "http_request \<Rightarrow> 'a field list \<Rightarrow> json \<Rightarrow> bool" where
  "sends q fs j \<longleftrightarrow>
     q_media q = Some ''application/json'' \<and> read_document (marshal_json (sent_back fs j)) = Some (q_body q)"

lemma sent_back_depth: "json_depth j \<le> d \<Longrightarrow> json_depth (sent_back fs j) \<le> d"
  by (cases j) (auto simp: sent_back_def)

lemma sent_back_ok: "json_ok j \<Longrightarrow> json_ok (sent_back fs j)"
  by (cases j) (auto simp: sent_back_def)

lemma sent_back_document:
  assumes "json_ok j" and "json_depth j \<le> max_depth"
  shows "read_document (marshal_json (sent_back fs j)) =
    Some (JsonBody (utf8_json (sent_back fs j)) (int (length (marshal_json (sent_back fs j)))) True)"
proof -
  let ?t = "marshal_json (sent_back fs j)"
  have "json_value (length ?t) max_depth (?t @ []) = Some (utf8_json (sent_back fs j), [])"
    using assms by (intro reads_backD written_reads_back sent_back_ok sent_back_depth) simp_all
  then show ?thesis by (simp add: read_document_def)
qed

lemma sends_decodes:
  assumes "sends q fs j" and "json_ok j" and "json_depth j \<le> max_depth"
  shows "decodeJSON dec q = (case dec (utf8_json (sent_back fs j)) of
           Inl e \<Rightarrow> Inl (invalid_json (error_text e)) | Inr v \<Rightarrow> Inr v)"
proof -
  from assms(1) sent_back_document [OF assms(2,3), of fs] have "q_body q =
      JsonBody (utf8_json (sent_back fs j)) (int (length (marshal_json (sent_back fs j)))) True"
    by (simp add: sends_def)
  with assms(1) show ?thesis by (simp add: sends_def decodeJSON_def split: sum.split)
qed

section \<open>Contests\<close>

lemma contest_document:
  assumes "contest_json F c = Some j"
  shows "json_ok j" and "json_depth j \<le> max_depth"
proof -
  have "plain_json (Suc 0) (contest_json F c)" by (intro plain)
  with assms show "json_ok j" "json_depth j \<le> max_depth" by (simp_all add: max_depth_def)
qed

lemma contest_input_read:
  assumes "prints_times (h_library h) F" and "contest_json F c = Some j"
    and "sends q (contest_input_fields (h_library h)) j"
  shows "read_contest h q E w =
    (Inr \<lparr>ci_title = to_valid (c_title c), ci_description = to_valid (c_description c),
          ci_visibility = to_valid (c_visibility c), ci_start_at = c_start_at c, ci_end_at = c_end_at c\<rparr>, w)"
proof -
  have ok: "json_ok j" "json_depth j \<le> max_depth" using contest_document [OF assms(2)] .
  show ?thesis
    by (simp add: read_contest_def of_sum_def sends_decodes [OF assms(3) ok] contest_sent_back [OF assms(1,2)])
qed

lemma validateContest_stamps:
  "validateContest (c\<lparr>c_created_at := a, c_updated_at := b\<rparr>) =
     map_sum id (\<lambda>c. c\<lparr>c_created_at := a, c_updated_at := b\<rparr>) (validateContest c)"
  by (simp add: validateContest_def Let_def split: option.split)

lemma UpdateContest_same:
  assumes "steady E at" and "db_ok (db w)" and "c \<in> set (contests (db w))" and "validateContest c = Inr c"
    and "c_id c \<noteq> 0"
  shows "UpdateContest (c\<lparr>c_created_at := a, c_updated_at := b\<rparr>) E w =
    (Inr (c\<lparr>c_created_at := a, c_updated_at := b\<rparr>),
     w\<lparr>ticks := Suc (ticks w), db := (db w)\<lparr>contests :=
        modify (\<lambda>r. c_id r = c_id c) (\<lambda>r. r\<lparr>c_updated_at := at\<rparr>) (contests (db w))\<rparr>\<rparr>)"
proof -
  let ?e = "c\<lparr>c_created_at := a, c_updated_at := b\<rparr>"
  let ?upd = "set_contest_fields ?e at"
  have upd: "?upd r = r\<lparr>c_updated_at := at\<rparr>" if "r \<in> set (contests (db w))" "c_id r = c_id c" for r
    using key_unique(2) [OF assms(2) that(1) assms(3) that(2)] by (simp add: set_contest_fields_def)
  have "contest_check (?upd r)" if "r \<in> set (contests (db w))" "c_id r = c_id c" for r
    using upd [OF that] contests.row_check [OF db_ok_tables(3) [OF assms(2)] that(1)]
    by (simp add: contest_check_def)
  then have "update_rows c_id contest_check contest_clash (\<lambda>_. True) (\<lambda>r. c_id r = c_id c) ?upd (contests (db w)) =
      Inr (length (filter (\<lambda>r. c_id r = c_id c) (contests (db w))),
           modify (\<lambda>r. c_id r = c_id c) ?upd (contests (db w)))"
    by (intro update_rows_runs) (auto simp: contest_clash_def)
  moreover have "modify (\<lambda>r. c_id r = c_id c) ?upd (contests (db w)) =
      modify (\<lambda>r. c_id r = c_id c) (\<lambda>r. r\<lparr>c_updated_at := at\<rparr>) (contests (db w))"
    unfolding modify_def by (intro map_cong refl) (simp add: upd)
  moreover have "filter (\<lambda>r. c_id r = c_id c) (contests (db w)) \<noteq> []"
    using assms(3) by (auto simp: filter_empty_conv)
  ultimately show ?thesis
    using assms(1,4,5) steady_calm [OF assms(1)]
    by (simp add: UpdateContest_def andThen_run go_simps validateContest_stamps update_contests_def with_rows_def)
qed

lemma manager_run:
  assumes "calm E" and "manages (db w) actor k" and "c \<in> set (contests (db w))" and "c_id c = k"
    and "db_ok (db w)" and "routeID q ''id'' = Inr k"
  obtains n where "api_manager actor q E w = (Inr k, w\<lparr>ticks := n\<rparr>)"
proof -
  have "manage_answer (db w) actor k = Inr ()"
    using assms(2) key_lookup(2) [OF assms(5,3,4), of c_id]
    by (cases actor) (auto simp: manage_answer_def contest_of_def manages_def)
  then obtain n where "ManageContest actor k E w = (Inr (), w\<lparr>ticks := n\<rparr>)"
    using answers_ManageContest [OF assms(1), of w actor k] by (auto elim: answersE)
  with assms(6) that show thesis by (simp add: api_manager_def andThen_run of_sum_def ret_def)
qed

lemma routeID_nonzero: "routeID q key = Inr k \<Longrightarrow> k \<noteq> 0"
  by (auto simp: routeID_def parseID_def split: option.splits if_splits)

section \<open>Property\<close>

text \<open>
  C12: What the interface answers for a contest can be sent back: when a client puts the title,
  description, visibility and dates of the JSON text it was given into an update, a manager's
  update succeeds and changes nothing of the database but the stamp of that contest. The answer
  is the contest with both of its stamps cleared: it is built from the input, not from the row.
\<close>

theorem contest_edit_roundtrip:
  assumes "prints_times (h_library h) F" and "encode_value F (VContest c) = Some j"
    and "sends q (contest_input_fields (h_library h)) j" and "routeID q ''id'' = Inr (c_id c)"
    and "to_valid (c_title c) = c_title c" and "to_valid (c_description c) = c_description c"
    and "to_valid (c_visibility c) = c_visibility c" and "validateContest c = Inr c"
    and "steady E at" and "db_ok (db w)" and "c \<in> set (contests (db w))" and "manages (db w) actor (c_id c)"
  shows "\<exists>w'. api_updateContest h actor q E w =
             (Inr (Some (VContest (c\<lparr>c_created_at := zero_time, c_updated_at := zero_time\<rparr>))), w') \<and>
           db w' = (db w)\<lparr>contests := modify (\<lambda>r. c_id r = c_id c) (\<lambda>r. r\<lparr>c_updated_at := at\<rparr>) (contests (db w))\<rparr>"
proof -
  obtain n where m: "api_manager actor q E w = (Inr (c_id c), w\<lparr>ticks := n\<rparr>)"
    using manager_run [OF steady_calm [OF assms(9)] assms(12,11) refl assms(10,4)] .
  have "contest_json F c = Some j" using assms(2) by simp
  note r = contest_input_read [OF assms(1) this assms(3), unfolded assms(5-7)]
  have "(contest_model \<lparr>ci_title = c_title c, ci_description = c_description c, ci_visibility = c_visibility c,
      ci_start_at = c_start_at c, ci_end_at = c_end_at c\<rparr>)\<lparr>c_id := c_id c\<rparr> =
    c\<lparr>c_created_at := zero_time, c_updated_at := zero_time\<rparr>"
    by (simp add: contest_model_def)
  moreover have "UpdateContest (c\<lparr>c_created_at := zero_time, c_updated_at := zero_time\<rparr>) E (w\<lparr>ticks := n\<rparr>) =
      (Inr (c\<lparr>c_created_at := zero_time, c_updated_at := zero_time\<rparr>),
       w\<lparr>ticks := Suc n, db := (db w)\<lparr>contests :=
         modify (\<lambda>r. c_id r = c_id c) (\<lambda>r. r\<lparr>c_updated_at := at\<rparr>) (contests (db w))\<rparr>\<rparr>)"
    using UpdateContest_same [OF assms(9), of "w\<lparr>ticks := n\<rparr>" c] assms(8,10,11) routeID_nonzero [OF assms(4)] by simp
  ultimately show ?thesis
    by (simp add: api_updateContest_def andThen_run m r item_of_def ret_def)
qed

text \<open>Instants printed as numbers.\<close>

definition number_format :: time_format where
  "number_format t = (if 0 \<le> t \<and> t < 2 ^ 64 then Some (decimal (nat t)) else None)"

definition number_handler :: handler where
  "number_handler =
     \<lparr>h_library =
        \<lparr>parse_url = \<lambda>s. None, parse_address = Some, lower = to_lower_ascii, split_host = \<lambda>s. None,
         parse_rfc3339 = \<lambda>s. map_option int (parse_uint64 s), parse_form_time = \<lambda>s. None,
         format_attachment = \<lambda>s. s\<rparr>,
      h_crypto = sample_crypto, h_service = sample_service, h_key = [], h_secure = True\<rparr>"

lemma to_valid_plain: "(\<And>c. c \<in> set s \<Longrightarrow> code c < (128::nat)) \<Longrightarrow> to_valid s = s"
  by (induction s) (simp_all add: to_valid_ascii del: to_valid.simps(2))

lemma number_format_prints: "prints_times (h_library number_handler) number_format"
proof -
  have "to_valid (decimal n) = decimal n" for n
    by (rule to_valid_plain) (auto dest: decimal_all_digits simp: is_digit_def)
  then show ?thesis
    by (auto simp: prints_times_def number_format_def number_handler_def parse_decimal nat_less_iff)
qed

definition edit_answer :: json where
  "edit_answer = the (encode_value number_format (VContest sample_contest))"

definition edit_request :: http_request where
  "edit_request =
     (let j = sent_back (contest_input_fields (h_library number_handler)) edit_answer
      in \<lparr>q_method = ''PUT'', q_path = ''/api/v1/contests/1'', q_params = [(''id'', ''1'')], q_query = [],
          q_host = [], q_tls = False, q_remote = [], q_headers = [], q_cookies = [], q_length = 100,
          q_form = None, q_media = Some ''application/json'',
          q_body = JsonBody (utf8_json j) (int (length (marshal_json j))) True\<rparr>)"

lemma edit_answer: "contest_json number_format sample_contest = Some edit_answer"
  by (simp add: edit_answer_def contest_json_def struct_def leaf_defs enc_ptr_def enc_time_def number_format_def
      sample_contest_def)

theorem contest_edit_roundtrip_witness:
  "contests (db (snd (api_updateContest number_handler (Some author) edit_request (sample_env 150) sample_world))) =
     [sample_contest\<lparr>c_updated_at := 150\<rparr>]"
proof -
  have "sends edit_request (contest_input_fields (h_library number_handler)) edit_answer"
    using sent_back_document [OF contest_document [OF edit_answer]]
    by (simp add: sends_def edit_request_def Let_def)
  moreover have "routeID edit_request ''id'' = Inr (c_id sample_contest)"
    by (simp add: edit_request_def Let_def sample_contest_def routeID_def parseID_def get_field_def
        parse_uint64_def is_digit_def)
  moreover have "to_valid (c_title sample_contest) = c_title sample_contest"
    "to_valid (c_description sample_contest) = c_description sample_contest"
    "to_valid (c_visibility sample_contest) = c_visibility sample_contest"
    "validateContest sample_contest = Inr sample_contest"
    by code_simp+
  moreover have "sample_contest \<in> set (contests (db sample_world))"
    "manages (db sample_world) (Some author) (c_id sample_contest)"
    by (simp_all add: sample_db_def) code_simp
  ultimately obtain v w' where "api_updateContest number_handler (Some author) edit_request (sample_env 150) sample_world = (Inr v, w')"
    "db w' = (db sample_world)\<lparr>contests := modify (\<lambda>r. c_id r = c_id sample_contest) (\<lambda>r. r\<lparr>c_updated_at := 150\<rparr>)
       (contests (db sample_world))\<rparr>"
    using contest_edit_roundtrip [of number_handler number_format sample_contest edit_answer edit_request
        "sample_env 150" 150 sample_world "Some author"] number_format_prints edit_answer by auto
  then show ?thesis by (simp add: sample_db_def modify_def)
qed

end
