(* ===== verification/Rendering.thy ===== *)
theory Rendering
  imports Api_Encoding
begin

text \<open>
  What a response puts on the wire: the status, the headers and the text (render of
  internal/server/handlers.go, renderAccessError of internal/server/auth.go). The template engine
  is a parameter: given a template and its data it says what it writes and whether it fails.
  A page of the layout is built in two passes, the template of the page first.
\<close>

section \<open>Pages\<close>

text \<open>The data of a page with its finished content, or the bare list the administration refreshes.\<close>

datatype template_data =
    PageWith page_data string
  | ContestRows "contest list"

type_synonym templates = "string \<Rightarrow> template_data \<Rightarrow> string \<times> bool"

definition html_type :: "string \<times> string" where
  "html_type = (''Content-Type'', ''text/html; charset=utf-8'')"

text \<open>
  Handlers that answer an error send the status and the type before rendering; the others leave
  that to render, which answers 500 with nothing when the inner template fails. What the outer
  template wrote before a failure stays.
\<close>

definition render :: "templates \<Rightarrow> nat \<Rightarrow> string \<Rightarrow> page_data \<Rightarrow> nat \<times> fields \<times> string" where
  "render T n name data =
     (let sent = (n \<noteq> 200);
          inner = (if name = ''layout'' \<and> pd_template data \<noteq> []
                   then T (pd_template data) (PageWith data []) else ([], False))
      in if snd inner then (if sent then n else 500, if sent then [html_type] else [], [])
         else (n, [html_type], fst (T name (PageWith data (fst inner)))))"

section \<open>Messages\<close>

text \<open>\<^verbatim>\<open>html.EscapeString\<close>.\<close>

definition escape_char :: "char \<Rightarrow> string" where
  "escape_char c =
     (if c = CHR ''&'' then ''&amp;''
      else if c = CHR 0x27 then ''&#39;''
      else if c = CHR ''<'' then ''&lt;''
      else if c = CHR ''>'' then ''&gt;''
      else if c = CHR 0x22 then ''&#34;''
      else [c])"

definition escape_html :: "string \<Rightarrow> string" where
  "escape_html s = concat (map escape_char s)"

definition alert_open :: string where
  "alert_open =
     ''<div class='' @ [CHR 0x22] @ ''card surface-container-highest'' @ [CHR 0x22] @ '' role='' @ [CHR 0x22] @
     ''alert'' @ [CHR 0x22] @ ''>''"

definition access_error_text :: "string \<Rightarrow> string" where
  "access_error_text message = alert_open @ escape_html message @ ''</div>''"

section \<open>Responses\<close>

definition written :: "templates \<Rightarrow> time_format \<Rightarrow> response \<Rightarrow> nat \<times> fields \<times> string" where
  "written T F r =
     (case rs_content r of
        Empty \<Rightarrow> (rs_status r, rs_headers r, [])
      | Text s \<Rightarrow> (rs_status r, rs_headers r, s)
      | Page name data \<Rightarrow>
          (case render T (rs_status r) name data of (n, hs, body) \<Rightarrow> (n, rs_headers r @ hs, body))
      | ContestList cs \<Rightarrow> (rs_status r, rs_headers r @ [html_type], fst (T ''contest_list'' (ContestRows cs)))
      | AccessError message \<Rightarrow> (rs_status r, rs_headers r @ [html_type], access_error_text message)
      | Json v \<Rightarrow> (rs_status r, rs_headers r, response_text F r)
      | JsonError kind message \<Rightarrow> (rs_status r, rs_headers r, response_text F r)
      | Download a data \<Rightarrow> (rs_status r, rs_headers r, data))"

section \<open>Messages are inert\<close>

text \<open>Reading back the five references an escaped message can hold.\<close>

fun unescape_html :: "nat \<Rightarrow> string \<Rightarrow> string" where
  "unescape_html 0 s = []"
| "unescape_html (Suc n) s =
     (case s of
        [] \<Rightarrow> []
      | c # r \<Rightarrow>
          if take 5 s = ''&amp;'' then CHR ''&'' # unescape_html n (drop 5 s)
          else if take 5 s = ''&#39;'' then CHR 0x27 # unescape_html n (drop 5 s)
          else if take 4 s = ''&lt;'' then CHR ''<'' # unescape_html n (drop 4 s)
          else if take 4 s = ''&gt;'' then CHR ''>'' # unescape_html n (drop 4 s)
          else if take 5 s = ''&#34;'' then CHR 0x22 # unescape_html n (drop 5 s)
          else c # unescape_html n r)"

lemma escape_html_simps [simp]:
  "escape_html [] = []" "escape_html (c # s) = escape_char c @ escape_html s"
  by (simp_all add: escape_html_def)

lemma escape_char_step:
  "length (escape_char c @ t) \<le> n \<Longrightarrow> unescape_html n (escape_char c @ t) = c # unescape_html (n - 1) (drop (length (escape_char c)) (escape_char c @ t))"
  by (cases n) (auto simp: escape_char_def split: if_splits)

lemma escaped_back: "length (escape_html s) \<le> n \<Longrightarrow> unescape_html n (escape_html s) = s"
proof (induction s arbitrary: n)
  case Nil
  then show ?case by (cases n) simp_all
next
  case (Cons c s)
  have "escape_char c \<noteq> []" by (simp add: escape_char_def)
  then have "length (escape_html s) \<le> n - 1" using Cons.prems by (cases "escape_char c") auto
  with Cons.IH show ?case using escape_char_step [of c "escape_html s" n] Cons.prems by simp
qed

lemma escaped_inert: "set (escape_html s) \<inter> {CHR ''<'', CHR ''>'', CHR 0x22, CHR 0x27} = {}"
  by (induction s) (auto simp: escape_char_def split: if_splits)

section \<open>Property\<close>

text \<open>
  C38: The message of a refusal cannot inject markup: what renderAccessError writes for any
  message is its alert around a text without angle brackets or quotes, from which the message
  can be read back.
\<close>

theorem refusals_are_inert:
  "\<exists>e. written T F (renderAccessError n message) = (n, [html_type], alert_open @ e @ ''</div>'') \<and>
       set e \<inter> {CHR ''<'', CHR ''>'', CHR 0x22, CHR 0x27} = {} \<and> unescape_html (length e) e = message"
  by (rule exI [of _ "escape_html message"])
    (simp add: written_def renderAccessError_def respond_def access_error_text_def escaped_inert escaped_back)

end
