(* ===== verification/Schema.thy ===== *)
theory Schema
  imports Answers
begin

text \<open>
  What the migrations work on: tables with their columns, indexes, foreign keys and row
  conditions, and the rows in them, with the statements of gorm's migrator that
  internal/db/migrations.go uses. Types of columns and default values are left out, and so
  is the primary key every table has; a row is the texts of its columns that are not null.
\<close>

section \<open>Tables\<close>

record db_column =
  col_name :: string
  col_required :: bool

record db_index =
  ix_name :: string
  ix_columns :: "string list"
  ix_unique :: bool

datatype on_delete = Cascade | Restrict

record db_key =
  fk_column :: string
  fk_refers :: string
  fk_delete :: on_delete

type_synonym db_row = "(string \<times> string) list"

record db_table =
  tb_name :: string
  tb_columns :: "db_column list"
  tb_indexes :: "db_index list"
  tb_keys :: "db_key list"
  tb_checks :: "string list"
  tb_rows :: "db_row list"

text \<open>The table of versions is kept apart: it is missing at first.\<close>

record schema_db =
  sd_tables :: "db_table list"
  sd_versions :: "(nat \<times> time) list option"

text \<open>
  The database engine. SQLite alters a table by building it anew, and what that loses is
  left open: any index, any foreign key.
\<close>

record engine =
  postgres :: bool
  loses_index :: "string \<Rightarrow> string \<Rightarrow> bool"
  loses_key :: "string \<Rightarrow> string \<Rightarrow> bool"

section \<open>Looking\<close>

definition find_table :: "string \<Rightarrow> schema_db \<Rightarrow> db_table option" where
  "find_table n d = find (\<lambda>t. tb_name t = n) (sd_tables d)"

definition in_table :: "(db_table \<Rightarrow> bool) \<Rightarrow> string \<Rightarrow> schema_db \<Rightarrow> bool" where
  "in_table P n d = (case find_table n d of None \<Rightarrow> False | Some t \<Rightarrow> P t)"

definition has_table :: "string \<Rightarrow> schema_db \<Rightarrow> bool" where
  "has_table = in_table (\<lambda>t. True)"

definition has_column :: "string \<Rightarrow> string \<Rightarrow> schema_db \<Rightarrow> bool" where
  "has_column n c = in_table (\<lambda>t. c \<in> col_name ` set (tb_columns t)) n"

definition has_index :: "string \<Rightarrow> string \<Rightarrow> schema_db \<Rightarrow> bool" where
  "has_index n i = in_table (\<lambda>t. i \<in> ix_name ` set (tb_indexes t)) n"

definition has_key :: "string \<Rightarrow> string \<Rightarrow> schema_db \<Rightarrow> bool" where
  "has_key n c = in_table (\<lambda>t. c \<in> fk_column ` set (tb_keys t)) n"

definition table_rows :: "string \<Rightarrow> schema_db \<Rightarrow> db_row list" where
  "table_rows n d = (case find_table n d of None \<Rightarrow> [] | Some t \<Rightarrow> tb_rows t)"

text \<open>The migrator's questions cannot fail: a query that does is answered by no.\<close>

definition ask :: "('d \<Rightarrow> bool) \<Rightarrow> ('d, bool) go" where
  "ask P = andThen (attempt (query P)) (\<lambda>r. ret (case r of Inl e \<Rightarrow> False | Inr b \<Rightarrow> b))"

section \<open>Changing\<close>

type_synonym ddl_statement = "schema_db \<Rightarrow> go_error + schema_db"

definition refused_by_engine :: go_error where
  "refused_by_engine = ErrMessage ''SQL logic error''"

definition ddl :: "ddl_statement \<Rightarrow> (schema_db, unit) go" where
  "ddl s = exec (\<lambda>at k d. map_sum id (Pair ()) (s d))"

text \<open>A statement about a table that is there; it keeps the table's name.\<close>

definition on_table :: "string \<Rightarrow> (db_table \<Rightarrow> go_error + db_table) \<Rightarrow> ddl_statement" where
  "on_table n f d =
     (case find_table n d of
        None \<Rightarrow> Inl refused_by_engine
      | Some t \<Rightarrow>
          map_sum id (\<lambda>t'. d\<lparr>sd_tables := map (\<lambda>u. if tb_name u = n then t'\<lparr>tb_name := n\<rparr> else u) (sd_tables d)\<rparr>)
            (f t))"

definition CreateTable :: "db_table \<Rightarrow> ddl_statement" where
  "CreateTable t d =
     (if has_table (tb_name t) d then Inl refused_by_engine
      else Inr (d\<lparr>sd_tables := sd_tables d @ [t]\<rparr>))"

definition rebuilt :: "engine \<Rightarrow> db_table \<Rightarrow> db_table" where
  "rebuilt G t =
     (if postgres G then t
      else t\<lparr>tb_indexes := filter (\<lambda>i. \<not> loses_index G (tb_name t) (ix_name i)) (tb_indexes t),
             tb_keys := filter (\<lambda>k. \<not> loses_key G (tb_name t) (fk_column k)) (tb_keys t)\<rparr>)"

definition required_filled :: "db_column \<Rightarrow> db_row list \<Rightarrow> bool" where
  "required_filled c rows \<longleftrightarrow> col_required c \<longrightarrow> (\<forall>r\<in>set rows. map_of r (col_name c) \<noteq> None)"

definition AddColumn :: "string \<Rightarrow> db_column \<Rightarrow> ddl_statement" where
  "AddColumn n c =
     on_table n (\<lambda>t.
       if col_name c \<in> col_name ` set (tb_columns t) \<or> \<not> required_filled c (tb_rows t)
       then Inl refused_by_engine
       else Inr (t\<lparr>tb_columns := tb_columns t @ [c]\<rparr>))"

definition without_column :: "string \<Rightarrow> db_table \<Rightarrow> db_table" where
  "without_column c t =
     t\<lparr>tb_columns := filter (\<lambda>k. col_name k \<noteq> c) (tb_columns t),
       tb_indexes := filter (\<lambda>i. c \<notin> set (ix_columns i)) (tb_indexes t),
       tb_keys := filter (\<lambda>k. fk_column k \<noteq> c) (tb_keys t),
       tb_rows := map (filter (\<lambda>v. fst v \<noteq> c)) (tb_rows t)\<rparr>"

definition DropColumn :: "engine \<Rightarrow> string \<Rightarrow> string \<Rightarrow> ddl_statement" where
  "DropColumn G n c =
     on_table n (\<lambda>t.
       if c \<notin> col_name ` set (tb_columns t) then Inl refused_by_engine
       else Inr (without_column c (rebuilt G t)))"

definition AlterColumn :: "engine \<Rightarrow> string \<Rightarrow> db_column \<Rightarrow> ddl_statement" where
  "AlterColumn G n c =
     on_table n (\<lambda>t.
       if col_name c \<notin> col_name ` set (tb_columns t) \<or> \<not> required_filled c (tb_rows t)
       then Inl refused_by_engine
       else Inr ((rebuilt G t)\<lparr>tb_columns := map (\<lambda>k. if col_name k = col_name c then c else k) (tb_columns t)\<rparr>))"

text \<open>A row with a null among the columns of a unique index clashes with no other.\<close>

definition unique_on :: "string list \<Rightarrow> db_row list \<Rightarrow> bool" where
  "unique_on cs rows =
     distinct (map (\<lambda>r. map (map_of r) cs) (filter (\<lambda>r. \<forall>c\<in>set cs. map_of r c \<noteq> None) rows))"

definition CreateIndex :: "string \<Rightarrow> db_index \<Rightarrow> ddl_statement" where
  "CreateIndex n i =
     on_table n (\<lambda>t.
       if ix_name i \<in> ix_name ` set (tb_indexes t) then Inl refused_by_engine
       else if ix_unique i \<and> \<not> unique_on (ix_columns i) (tb_rows t) then Inl ErrDuplicatedKey
       else Inr (t\<lparr>tb_indexes := tb_indexes t @ [i]\<rparr>))"

definition DropIndex :: "string \<Rightarrow> string \<Rightarrow> ddl_statement" where
  "DropIndex n i =
     on_table n (\<lambda>t.
       if i \<notin> ix_name ` set (tb_indexes t) then Inl refused_by_engine
       else Inr (t\<lparr>tb_indexes := filter (\<lambda>j. ix_name j \<noteq> i) (tb_indexes t)\<rparr>))"

text \<open>Rows that refer to a row that is not there.\<close>

definition orphans :: "string \<Rightarrow> string \<Rightarrow> string \<Rightarrow> schema_db \<Rightarrow> db_row list" where
  "orphans n c m d =
     filter (\<lambda>r. map_of r c \<notin> (\<lambda>s. map_of s ''id'') ` set (table_rows m d)) (table_rows n d)"

definition CreateConstraint :: "engine \<Rightarrow> string \<Rightarrow> db_key \<Rightarrow> ddl_statement" where
  "CreateConstraint G n k d =
     (if filter (\<lambda>r. map_of r (fk_column k) \<noteq> None) (orphans n (fk_column k) (fk_refers k) d) \<noteq> []
      then Inl ErrForeignKey
      else on_table n (\<lambda>t.
             if fk_column k \<in> fk_column ` set (tb_keys t) then Inl refused_by_engine
             else Inr ((rebuilt G t)\<lparr>tb_keys := tb_keys (rebuilt G t) @ [k]\<rparr>)) d)"

definition delete_all :: "string \<Rightarrow> ddl_statement" where
  "delete_all n = on_table n (\<lambda>t. Inr (t\<lparr>tb_rows := []\<rparr>))"

end
