(* ===== verification/Migrations.thy ===== *)
theory Migrations
  imports Schema
begin

text \<open>
  The migrations of the schema (internal/db/migrations.go): the frozen tables of the first
  version, the tables of the models later versions create, the seven steps, and the run that
  applies each step once and records its version.
\<close>

section \<open>Writing tables down\<close>

definition plain :: "string \<Rightarrow> db_column" where
  "plain c = \<lparr>col_name = c, col_required = False\<rparr>"

definition required :: "string \<Rightarrow> db_column" where
  "required c = \<lparr>col_name = c, col_required = True\<rparr>"

definition indexed :: "string \<Rightarrow> string list \<Rightarrow> db_index" where
  "indexed i cs = \<lparr>ix_name = i, ix_columns = cs, ix_unique = False\<rparr>"

definition unique_index :: "string \<Rightarrow> string list \<Rightarrow> db_index" where
  "unique_index i cs = \<lparr>ix_name = i, ix_columns = cs, ix_unique = True\<rparr>"

definition refers :: "string \<Rightarrow> string \<Rightarrow> on_delete \<Rightarrow> db_key" where
  "refers c t a = \<lparr>fk_column = c, fk_refers = t, fk_delete = a\<rparr>"

definition new_table ::
  "string \<Rightarrow> db_column list \<Rightarrow> db_index list \<Rightarrow> db_key list \<Rightarrow> string list \<Rightarrow> db_table" where
  "new_table n cs ix ks ch =
     \<lparr>tb_name = n, tb_columns = cs, tb_indexes = ix, tb_keys = ks, tb_checks = ch, tb_rows = []\<rparr>"

text \<open>Row conditions are kept as the text of their SQL.\<close>

definition quoted :: "string \<Rightarrow> string" where
  "quoted s = CHR 0x27 # s @ [CHR 0x27]"

definition not_empty :: "string \<Rightarrow> string" where
  "not_empty c = c @ '' <> '' @ quoted []"

definition one_of :: "string \<Rightarrow> string \<Rightarrow> string \<Rightarrow> string" where
  "one_of c a b = c @ '' IN ('' @ quoted a @ '','' @ quoted b @ '')''"

section \<open>The tables of the models\<close>

definition users_table :: db_table where
  "users_table =
     new_table ''users''
       [required ''id'', required ''email'', required ''password_hash'', plain ''name'', required ''role'',
        plain ''created_at'', plain ''updated_at'']
       [unique_index ''idx_users_email'' [''email''], indexed ''idx_users_role'' [''role'']]
       [] []"

definition sessions_table :: db_table where
  "sessions_table =
     new_table ''sessions''
       [required ''id'', required ''user_id'', required ''token_hash'', required ''expires_at'',
        plain ''created_at'']
       [indexed ''idx_sessions_user_id'' [''user_id''],
        unique_index ''idx_sessions_token_hash'' [''token_hash''],
        indexed ''idx_sessions_expires_at'' [''expires_at'']]
       [refers ''user_id'' ''users'' Cascade] []"

definition contests_table :: db_table where
  "contests_table =
     new_table ''contests''
       [required ''id'', required ''title'', plain ''description'', required ''visibility'',
        plain ''start_at'', plain ''end_at'', plain ''created_at'', plain ''updated_at'']
       [indexed ''idx_contests_visibility'' [''visibility'']]
       []
       [not_empty ''title'', one_of ''visibility'' ''draft'' ''published'',
        ''end_at IS NULL OR start_at IS NULL OR end_at > start_at'']"

definition series_table :: db_table where
  "series_table =
     new_table ''series''
       [required ''id'', required ''contest_id'', required ''title'', required ''position'',
        plain ''created_at'', plain ''updated_at'', plain ''start_at'', plain ''end_at'', plain ''release_at'']
       [indexed ''idx_series_contest_id'' [''contest_id''],
        unique_index ''idx_series_contest_position'' [''contest_id'', ''position'']]
       [refers ''contest_id'' ''contests'' Cascade]
       [not_empty ''title'', ''position >= 0'']"

definition memberships_table :: db_table where
  "memberships_table =
     new_table ''contest_memberships''
       [required ''id'', required ''contest_id'', required ''user_id'', required ''role'']
       [unique_index ''idx_membership'' [''contest_id'', ''user_id'']]
       [refers ''contest_id'' ''contests'' Cascade, refers ''user_id'' ''users'' Cascade]
       [one_of ''role'' ''organizer'' ''participant'']"

definition previews_table :: db_table where
  "previews_table =
     new_table ''import_previews''
       [required ''id'', required ''owner_id'', required ''revision_id'', required ''artifact_id'',
        required ''expires_at'', plain ''committed_at'']
       [indexed ''idx_import_previews_owner_id'' [''owner_id''],
        indexed ''idx_import_previews_revision_id'' [''revision_id''],
        indexed ''idx_import_previews_expires_at'' [''expires_at'']]
       [refers ''owner_id'' ''users'' Cascade, refers ''revision_id'' ''problem_revisions'' Cascade,
        refers ''artifact_id'' ''artifacts'' Restrict]
       []"

definition artifacts_table :: db_table where
  "artifacts_table =
     new_table ''artifacts''
       [required ''id'', required ''owner_id'', required ''storage_key'', required ''sha256'',
        required ''size_bytes'', required ''content_type'', required ''filename'', plain ''created_at'']
       [indexed ''idx_artifacts_owner_id'' [''owner_id''],
        unique_index ''idx_artifacts_storage_key'' [''storage_key''],
        indexed ''idx_artifacts_sha256'' [''sha256'']]
       [refers ''owner_id'' ''users'' Restrict]
       [''size_bytes >= 0'']"

definition problems_table :: db_table where
  "problems_table =
     new_table ''problems''
       [required ''id'', required ''owner_id'', required ''title'', required ''code'', required ''kind'',
        plain ''created_at'', plain ''updated_at'']
       [indexed ''idx_problems_owner_id'' [''owner_id''], unique_index ''idx_problems_code'' [''code'']]
       [refers ''owner_id'' ''users'' Restrict]
       [not_empty ''title'', not_empty ''code'', ''kind = '' @ quoted ''programming'']"

definition revisions_table :: db_table where
  "revisions_table =
     new_table ''problem_revisions''
       [required ''id'', required ''problem_id'', required ''number'', required ''state'', required ''statement'',
        plain ''pdf_artifact_id'', plain ''time_limit_millis'', plain ''memory_limit_kib'',
        required ''language_metadata'', required ''checker_metadata'', plain ''published_at'',
        plain ''created_at'', plain ''updated_at'']
       [unique_index ''idx_revision_number'' [''problem_id'', ''number''],
        indexed ''idx_problem_revisions_state'' [''state''],
        indexed ''idx_problem_revisions_pdf_artifact_id'' [''pdf_artifact_id'']]
       [refers ''problem_id'' ''problems'' Cascade, refers ''pdf_artifact_id'' ''artifacts'' Restrict]
       [''number > 0'', one_of ''state'' ''draft'' ''published'',
        ''time_limit_millis IS NULL OR time_limit_millis > 0'',
        ''memory_limit_kib IS NULL OR memory_limit_kib > 0'']"

definition series_problems_table :: db_table where
  "series_problems_table =
     new_table ''series_problems''
       [required ''id'', required ''series_id'', required ''problem_id'', required ''published_revision_id'',
        required ''code'', required ''position'', plain ''created_at'', plain ''updated_at'']
       [unique_index ''idx_series_problem_position'' [''series_id'', ''position''],
        indexed ''idx_series_problems_problem_id'' [''problem_id''],
        unique_index ''idx_series_problem_code'' [''series_id'', ''code'']]
       [refers ''series_id'' ''series'' Cascade, refers ''problem_id'' ''problems'' Restrict,
        refers ''published_revision_id'' ''problem_revisions'' Restrict]
       [not_empty ''code'', ''position >= 0'']"

definition test_cases_table :: db_table where
  "test_cases_table =
     new_table ''test_cases''
       [required ''id'', required ''problem_revision_id'', required ''position'', required ''is_sample'',
        plain ''points'', plain ''time_limit_override_millis'', required ''input_artifact_id'',
        required ''output_artifact_id'', plain ''created_at'', plain ''updated_at'']
       [unique_index ''idx_test_revision_position'' [''problem_revision_id'', ''position'']]
       [refers ''problem_revision_id'' ''problem_revisions'' Cascade,
        refers ''input_artifact_id'' ''artifacts'' Restrict,
        refers ''output_artifact_id'' ''artifacts'' Restrict]
       [''position >= 0'', ''points IS NULL OR points >= 0'',
        ''time_limit_override_millis IS NULL OR time_limit_override_millis > 0'']"

text \<open>All of them, in the order the migrations create them.\<close>

definition model_schema :: "db_table list" where
  "model_schema =
     [users_table, sessions_table, contests_table, series_table, artifacts_table, problems_table,
      revisions_table, series_problems_table, test_cases_table, memberships_table, previews_table]"

section \<open>The frozen tables\<close>

definition migration_users :: db_table where
  "migration_users =
     new_table ''users''
       [required ''id'', required ''email'', required ''password_hash'', plain ''name'', required ''role'',
        plain ''created_at'', plain ''updated_at'']
       [unique_index ''idx_users_email'' [''email''], indexed ''idx_users_role'' [''role'']]
       [] []"

definition migration_sessions :: db_table where
  "migration_sessions =
     new_table ''sessions''
       [required ''id'', required ''user_id'', plain ''token_hash'', plain ''expires_at'', plain ''created_at'']
       [indexed ''idx_sessions_user_id'' [''user_id''],
        unique_index ''idx_sessions_token_hash'' [''token_hash'']]
       [] []"

definition migration_contests :: db_table where
  "migration_contests =
     new_table ''contests''
       [required ''id'', required ''title'', plain ''description'', required ''visibility'',
        plain ''start_at'', plain ''end_at'', plain ''created_at'', plain ''updated_at'']
       [indexed ''idx_contests_visibility'' [''visibility'']]
       []
       [not_empty ''title'', one_of ''visibility'' ''draft'' ''published'',
        ''end_at IS NULL OR start_at IS NULL OR end_at > start_at'']"

definition migration_series :: db_table where
  "migration_series =
     new_table ''series''
       [required ''id'', required ''contest_id'', required ''title'', required ''position'',
        plain ''created_at'', plain ''updated_at'']
       [indexed ''idx_series_contest_id'' [''contest_id''],
        unique_index ''idx_series_contest_position'' [''contest_id'', ''position'']]
       [refers ''contest_id'' ''contests'' Cascade]
       [not_empty ''title'', ''position >= 0'']"

text \<open>Here a code is still unique among all assignments.\<close>

definition migration_series_problems :: db_table where
  "migration_series_problems =
     new_table ''series_problems''
       [required ''id'', required ''series_id'', required ''problem_id'', required ''published_revision_id'',
        required ''code'', required ''position'', plain ''created_at'', plain ''updated_at'']
       [unique_index ''idx_series_problem_position'' [''series_id'', ''position''],
        indexed ''idx_series_problems_problem_id'' [''problem_id''],
        unique_index ''idx_series_problem_code'' [''code'']]
       [refers ''series_id'' ''series'' Cascade, refers ''problem_id'' ''problems'' Restrict,
        refers ''published_revision_id'' ''problem_revisions'' Restrict]
       [not_empty ''code'', ''position >= 0'']"

section \<open>The steps\<close>

type_synonym step = "(schema_db, unit) go"

definition unless :: "(schema_db \<Rightarrow> bool) \<Rightarrow> step \<Rightarrow> step" where
  "unless P m = andThen (ask P) (\<lambda>there. if there then ret () else m)"

definition create_missing :: "db_table list \<Rightarrow> step" where
  "create_missing ts = for_each ts (\<lambda>t. unless (has_table (tb_name t)) (ddl (CreateTable t)))"

definition createInitialSchema :: step where
  "createInitialSchema =
     create_missing [migration_users, migration_sessions, migration_contests, migration_series]"

text \<open>
  A raw token is a credential: the sessions that hold one go before the column does.
\<close>

definition removeLegacySessionTokens :: "engine \<Rightarrow> step" where
  "removeLegacySessionTokens G =
     andThen (ask (has_table ''sessions'')) (\<lambda>there.
     if \<not> there then ret () else
     andThen (ask (has_column ''sessions'' ''token'')) (\<lambda>legacy.
     if \<not> legacy then ret () else
     andThen (map_error (Wrapped ''invalidate legacy sessions'') (ddl (delete_all ''sessions''))) (\<lambda>_.
     andThen (unless (has_column ''sessions'' ''token_hash'')
                (map_error (Wrapped ''add token hash'')
                   (ddl (AddColumn ''sessions'' (required ''token_hash''))))) (\<lambda>_.
     map_error (Wrapped ''drop raw token'') (ddl (DropColumn G ''sessions'' ''token''))))))"

definition rejectOrphanedSessions :: step where
  "rejectOrphanedSessions =
     andThen (map_error (Wrapped ''check orphaned sessions'')
                (query (\<lambda>d. length (orphans ''sessions'' ''user_id'' ''users'' d)))) (\<lambda>n.
     reject (n > 0) (ErrMessage (''cannot add session user foreign key: '' @ decimal n @
                                 '' orphaned sessions must be removed first'')))"

text \<open>
  The index comes after the key: SQLite builds the table anew for a key, which may lose it.
\<close>

definition addSessionIntegrity :: "engine \<Rightarrow> step" where
  "addSessionIntegrity G =
     andThen (unless (has_key ''sessions'' ''user_id'')
                (andThen rejectOrphanedSessions (\<lambda>_.
                 map_error (Wrapped ''create session user foreign key'')
                   (ddl (CreateConstraint G ''sessions'' (refers ''user_id'' ''users'' Cascade)))))) (\<lambda>_.
     unless (has_index ''sessions'' ''idx_sessions_expires_at'')
       (map_error (Wrapped ''create expiry index'')
          (ddl (CreateIndex ''sessions'' (indexed ''idx_sessions_expires_at'' [''expires_at''])))))"

definition incomplete_session :: "db_row \<Rightarrow> bool" where
  "incomplete_session r \<longleftrightarrow>
     map_of r ''token_hash'' = None \<or> map_of r ''token_hash'' = Some [] \<or> map_of r ''expires_at'' = None"

definition requireSessionFields :: "engine \<Rightarrow> step" where
  "requireSessionFields G =
     andThen (map_error (Wrapped ''check incomplete sessions'')
                (query (\<lambda>d. length (filter incomplete_session (table_rows ''sessions'' d))))) (\<lambda>n.
     andThen (reject (n > 0) (ErrMessage (''cannot require session fields: '' @ decimal n @
                                          '' incomplete sessions must be removed first''))) (\<lambda>_.
     andThen (map_error (Wrapped ''require token hash'')
                (ddl (AlterColumn G ''sessions'' (required ''token_hash'')))) (\<lambda>_.
     andThen (map_error (Wrapped ''require session expiry'')
                (ddl (AlterColumn G ''sessions'' (required ''expires_at'')))) (\<lambda>_.
     addSessionIntegrity G))))"

definition createContentSchema :: step where
  "createContentSchema =
     create_missing [artifacts_table, problems_table, revisions_table, migration_series_problems,
                     test_cases_table]"

definition createAccessSchema :: step where
  "createAccessSchema =
     andThen (for_each [''start_at'', ''end_at'', ''release_at''] (\<lambda>c.
                unless (has_column ''series'' c) (ddl (AddColumn ''series'' (plain c))))) (\<lambda>_.
     create_missing [memberships_table, previews_table])"

text \<open>Codes belong to a series: two series may both use A.\<close>

definition scopeAssignmentCodes :: step where
  "scopeAssignmentCodes =
     andThen (ask (has_index ''series_problems'' ''idx_series_problem_code'')) (\<lambda>there.
     andThen (if there then ddl (DropIndex ''series_problems'' ''idx_series_problem_code'') else ret ()) (\<lambda>_.
     ddl (CreateIndex ''series_problems'' (unique_index ''idx_series_problem_code'' [''series_id'', ''code'']))))"

section \<open>The run\<close>

definition migrations :: "engine \<Rightarrow> (nat \<times> step) list" where
  "migrations G =
     [(1, createInitialSchema), (2, removeLegacySessionTokens G), (3, addSessionIntegrity G),
      (4, requireSessionFields G), (5, createContentSchema), (6, createAccessSchema),
      (7, scopeAssignmentCodes)]"

definition versions :: "schema_db \<Rightarrow> (nat \<times> time) list" where
  "versions d = (case sd_versions d of None \<Rightarrow> [] | Some vs \<Rightarrow> vs)"

definition create_versions :: ddl_statement where
  "create_versions d =
     (if sd_versions d = None then Inr (d\<lparr>sd_versions := Some []\<rparr>) else Inl refused_by_engine)"

definition record_version :: "nat \<Rightarrow> time \<Rightarrow> ddl_statement" where
  "record_version v at d =
     (case sd_versions d of
        None \<Rightarrow> Inl refused_by_engine
      | Some vs \<Rightarrow> if v \<in> fst ` set vs then Inl ErrDuplicatedKey
                   else Inr (d\<lparr>sd_versions := Some (vs @ [(v, at)])\<rparr>))"

definition about_migration :: "string \<Rightarrow> nat \<Rightarrow> go_error \<Rightarrow> go_error" where
  "about_migration what v = Wrapped (what @ '' migration '' @ decimal v)"

definition migrate_step :: "nat \<times> step \<Rightarrow> step" where
  "migrate_step m =
     andThen (attempt (first versions fst (\<lambda>a. fst a = fst m))) (\<lambda>applied.
     case applied of
       Inr a \<Rightarrow> ret ()
     | Inl e \<Rightarrow>
         if \<not> errors_is e ErrRecordNotFound then fail (about_migration ''read'' (fst m) e)
         else
           andThen (map_error (about_migration ''apply'' (fst m)) (snd m)) (\<lambda>_.
           andThen now (\<lambda>at.
           map_error (about_migration ''record'' (fst m)) (ddl (record_version (fst m) at)))))"

text \<open>On PostgreSQL a lock held until the end of the transaction keeps other runs out.\<close>

definition Migrate :: "engine \<Rightarrow> step" where
  "Migrate G =
     andThen (unless (\<lambda>d. sd_versions d \<noteq> None)
                (map_error (Wrapped ''create migration table'') (ddl create_versions))) (\<lambda>_.
     transaction
       (andThen (if postgres G then map_error (Wrapped ''lock migrations'') (query (\<lambda>_. ())) else ret ()) (\<lambda>_.
        for_each (migrations G) migrate_step)))"

end
