(* ===== verification/Migration_Facts.thy ===== *)
theory Migration_Facts
  imports Migrations
begin

text \<open>
  What the migrations guarantee: each step is applied once, a second run changes nothing,
  raw session tokens do not survive, and sessions end with their key and index however the
  engine rebuilds tables.
\<close>

section \<open>Orders on schemas\<close>

definition on_db :: "('d \<Rightarrow> 'd \<Rightarrow> bool) \<Rightarrow> 'd world \<Rightarrow> 'd world \<Rightarrow> bool" where
  "on_db Q w w' \<longleftrightarrow> Q (db w) (db w')"

locale schema_order =
  fixes Q :: "schema_db \<Rightarrow> schema_db \<Rightarrow> bool"
  assumes Q_refl: "Q d d"
    and Q_trans: "Q d1 d2 \<Longrightarrow> Q d2 d3 \<Longrightarrow> Q d1 d3"

sublocale schema_order \<subseteq> world_order "on_db Q"
  by unfold_locales (auto simp: on_db_def intro: Q_refl Q_trans)

context schema_order
begin

lemma keeps_ddl:
  assumes "\<And>d d'. s d = Inr d' \<Longrightarrow> Q d d'"
  shows "keeps (on_db Q) (ddl s)"
proof -
  have "on_db Q w (w\<lparr>db := d\<rparr>)" if "map_sum id (Pair ()) (s (db w)) = Inr (a, d)" for w a d
    using that assms [of "db w" d] by (cases "s (db w)") (auto simp: on_db_def)
  then show ?thesis unfolding ddl_def by (intro keeps_exec) blast
qed

lemma keeps_ask: "keeps (on_db Q) (ask P)"
  unfolding ask_def by (intro keeps_rules)

lemma keeps_unless: "keeps (on_db Q) m \<Longrightarrow> keeps (on_db Q) (unless P m)"
  unfolding unless_def by (intro keeps_rules keeps_ask)

lemma keeps_create_missing:
  "(\<And>t d d'. t \<in> set ts \<Longrightarrow> CreateTable t d = Inr d' \<Longrightarrow> Q d d') \<Longrightarrow> keeps (on_db Q) (create_missing ts)"
  unfolding create_missing_def
proof (induction ts)
  case (Cons t ts)
  then show ?case
    unfolding for_each.simps by (intro keeps_andThen keeps_unless keeps_ddl) auto
qed (simp add: keeps_ret)

lemma keeps_migrate_step:
  assumes "keeps (on_db Q) (snd m)" and "\<And>v at d d'. record_version v at d = Inr d' \<Longrightarrow> Q d d'"
  shows "keeps (on_db Q) (migrate_step m)"
  unfolding migrate_step_def by (intro keeps_rules keeps_ddl) (use assms in auto)

lemma keeps_migrate_loop:
  assumes "\<And>m. m \<in> set ms \<Longrightarrow> keeps (on_db Q) (snd m)"
    and "\<And>v at d d'. record_version v at d = Inr d' \<Longrightarrow> Q d d'"
  shows "keeps (on_db Q) (for_each ms migrate_step)"
  using assms(1)
proof (induction ms)
  case (Cons m ms)
  then show ?case
    unfolding for_each.simps by (intro keeps_andThen keeps_migrate_step assms(2)) auto
qed (simp add: keeps_ret)

lemma steps_keep:
  assumes "m E w = (r, w')" and "keeps (on_db Q) m"
  shows "Q (db w) (db w')"
  using keepsD [OF assms(2,1)] by (simp add: on_db_def)

end

section \<open>Inverting steps\<close>

lemma ddl_InrE [go_elims]:
  assumes "ddl s E w = (Inr u, w')"
  obtains "s (db w) = Inr (db w')"
  using assms unfolding ddl_def by (elim exec_InrE) (cases "s (db w)"; auto)

lemma ask_run: "ask P E w = (Inr (\<not> faulty E (ticks w) \<and> P (db w)), w\<lparr>ticks := Suc (ticks w)\<rparr>)"
  by (simp add: ask_def attempt_def query_def call_def andThen_run ret_run Let_def)

lemma unless_InrE:
  assumes "unless P m E w = (Inr (), w')"
  obtains "P (db w)" and "db w' = db w"
  | w1 where "db w1 = db w" and "m E w1 = (Inr (), w')" and "calm E \<Longrightarrow> \<not> P (db w)"
proof (cases "\<not> faulty E (ticks w) \<and> P (db w)")
  case True
  with assms show thesis by (intro that(1)) (auto simp: unless_def ask_run andThen_run ret_run)
next
  case False
  with assms have "m E (w\<lparr>ticks := Suc (ticks w)\<rparr>) = (Inr (), w')"
    by (simp add: unless_def ask_run andThen_run ret_run split: if_splits)
  with False show thesis
    by (intro that(2) [of "w\<lparr>ticks := Suc (ticks w)\<rparr>"]) (auto simp: calm_def)
qed

lemma find_mapped:
  assumes "\<And>u. tb_name (f u) = tb_name u"
  shows "find (\<lambda>u. tb_name u = m) (map f ts) = map_option f (find (\<lambda>u. tb_name u = m) ts)"
  by (induction ts) (auto simp: assms)

lemma find_table_name: "find_table n d = Some t \<Longrightarrow> tb_name t = n"
  by (auto simp: find_table_def find_Some_iff)

lemma on_table_InrE:
  assumes "on_table n f d = Inr d'"
  obtains t t' where "find_table n d = Some t" and "f t = Inr t'"
    and "find_table n d' = Some (t'\<lparr>tb_name := n\<rparr>)"
    and "\<And>m. m \<noteq> n \<Longrightarrow> find_table m d' = find_table m d" and "sd_versions d' = sd_versions d"
proof -
  from assms obtain t t' where t: "find_table n d = Some t" "f t = Inr t'"
    and d': "d' = d\<lparr>sd_tables := map (\<lambda>u. if tb_name u = n then t'\<lparr>tb_name := n\<rparr> else u) (sd_tables d)\<rparr>"
    by (cases "find_table n d"; cases "f (the (find_table n d))") (auto simp: on_table_def)
  have found: "find_table m d' = map_option (\<lambda>u. if tb_name u = n then t'\<lparr>tb_name := n\<rparr> else u) (find_table m d)" for m
    unfolding find_table_def d' by (simp add: find_mapped)
  have "find_table n d' = Some (t'\<lparr>tb_name := n\<rparr>)"
    using t(1) unfolding found by (simp add: find_table_name)
  moreover have "find_table m d' = find_table m d" if "m \<noteq> n" for m
    using that unfolding found by (cases "find_table m d") (auto dest: find_table_name)
  ultimately show thesis using t d' by (intro that) auto
qed

lemma CreateTable_InrE:
  assumes "CreateTable t d = Inr d'"
  obtains "find_table (tb_name t) d = None" and "find_table (tb_name t) d' = Some t"
    and "\<And>m. m \<noteq> tb_name t \<Longrightarrow> find_table m d' = find_table m d" and "sd_versions d' = sd_versions d"
proof -
  have app: "find P (xs @ ys) = (case find P xs of None \<Rightarrow> find P ys | Some x \<Rightarrow> Some x)" for P and xs ys :: "'x list"
    by (induction xs) auto
  from assms show thesis
    by (intro that) (auto simp: CreateTable_def has_table_def in_table_def find_table_def app
        split: if_splits option.splits)
qed

section \<open>Versions\<close>

definition same_versions :: "schema_db \<Rightarrow> schema_db \<Rightarrow> bool" where
  "same_versions d d' \<longleftrightarrow> sd_versions d' = sd_versions d"

interpretation same_versions: schema_order same_versions
  by unfold_locales (auto simp: same_versions_def)

lemma statements_same_versions:
  "on_table n f d = Inr d' \<Longrightarrow> same_versions d d'" "CreateTable t d = Inr d' \<Longrightarrow> same_versions d d'"
  "AddColumn n c d = Inr d' \<Longrightarrow> same_versions d d'" "DropColumn G n c0 d = Inr d' \<Longrightarrow> same_versions d d'"
  "AlterColumn G n c d = Inr d' \<Longrightarrow> same_versions d d'" "CreateIndex n i d = Inr d' \<Longrightarrow> same_versions d d'"
  "DropIndex n i0 d = Inr d' \<Longrightarrow> same_versions d d'" "CreateConstraint G n k d = Inr d' \<Longrightarrow> same_versions d d'"
  "delete_all n d = Inr d' \<Longrightarrow> same_versions d d'"
  unfolding AddColumn_def DropColumn_def AlterColumn_def CreateIndex_def DropIndex_def CreateConstraint_def
    delete_all_def same_versions_def
  by (auto elim: on_table_InrE CreateTable_InrE split: if_splits)

lemma steps_same_versions: "m \<in> snd ` set (migrations G) \<Longrightarrow> keeps (on_db same_versions) m"
  unfolding migrations_def createInitialSchema_def removeLegacySessionTokens_def addSessionIntegrity_def
    rejectOrphanedSessions_def requireSessionFields_def createContentSchema_def createAccessSchema_def
    scopeAssignmentCodes_def
  by (auto intro!: same_versions.keeps_rules same_versions.keeps_ask same_versions.keeps_unless
      same_versions.keeps_create_missing same_versions.keeps_ddl dest: statements_same_versions)

text \<open>A step that succeeds was recorded before, or was applied and is recorded now.\<close>

definition recorded :: "schema_db \<Rightarrow> nat \<Rightarrow> bool" where
  "recorded d v \<longleftrightarrow> v \<in> fst ` set (versions d)"

lemma record_version_Inr:
  "record_version v at d = Inr d' \<Longrightarrow>
   sd_tables d' = sd_tables d \<and> versions d' = versions d @ [(v, at)]"
  by (auto simp: record_version_def versions_def split: option.splits if_splits)

lemma migrate_step_InrE:
  assumes "migrate_step m E w = (Inr (), w')" and "keeps (on_db same_versions) (snd m)"
  obtains "recorded (db w) (fst m)" and "db w' = db w"
  | at w1 w2 where "\<not> recorded (db w) (fst m)" and "db w1 = db w" and "snd m E w1 = (Inr (), w2)"
    and "sd_tables (db w') = sd_tables (db w2)" and "versions (db w') = versions (db w) @ [(fst m, at)]"
proof -
  from assms(1) obtain r w1 where r: "first versions fst (\<lambda>a. fst a = fst m) E w = (r, w1)"
    and rest: "(case r of
       Inr a \<Rightarrow> ret ()
     | Inl e \<Rightarrow>
         if \<not> errors_is e ErrRecordNotFound then fail (about_migration ''read'' (fst m) e)
         else
           andThen (map_error (about_migration ''apply'' (fst m)) (snd m)) (\<lambda>_.
           andThen now (\<lambda>at.
           map_error (about_migration ''record'' (fst m)) (ddl (record_version (fst m) at))))) E w1 = (Inr (), w')"
    unfolding migrate_step_def by (elim andThen_InrE attempt_InrE)
  have same: "db w1 = db w" using db_sameD [OF reads.keeps_first r] by simp
  show thesis
  proof (cases r)
    case (Inr a)
    with r have "recorded (db w) (fst m)"
      by (force simp: recorded_def elim!: first_InrE dest!: first_row_Some)
    with Inr rest same show thesis by (intro that(1)) (auto simp: ret_def)
  next
    case (Inl e)
    with rest have nf: "errors_is e ErrRecordNotFound" by (auto simp: fail_def split: if_splits)
    have fresh: "\<not> recorded (db w) (fst m)"
      using first_Inl [OF r [unfolded Inl] nf] by (force simp: recorded_def first_row_None)
    from nf rest Inl obtain w2 at where step: "snd m E w1 = (Inr (), w2)"
      and "record_version (fst m) at (db w2) = Inr (db w')"
      by (auto elim!: andThen_InrE map_error_InrE now_InrE ddl_InrE)
    moreover have "versions (db w2) = versions (db w)"
      using same_versions.steps_keep [OF step assms(2)] same by (simp add: same_versions_def versions_def)
    ultimately show thesis
      by (intro that(2) [OF fresh same step]) (simp_all add: record_version_Inr)
  qed
qed

lemma migrate_loop_versions:
  assumes "for_each ms migrate_step E w = (Inr (), w')" and "snd ` set ms \<subseteq> snd ` set (migrations G)"
    and "distinct (map fst ms)"
  shows "\<exists>new. versions (db w') = versions (db w) @ new \<and>
    map fst new = filter (\<lambda>v. \<not> recorded (db w) v) (map fst ms)"
  using assms
proof (induction ms arbitrary: w)
  case (Cons m ms)
  from Cons.prems(1) obtain w1 where step: "migrate_step m E w = (Inr (), w1)"
    and loop: "for_each ms migrate_step E w1 = (Inr (), w')" by (auto elim: andThen_InrE)
  obtain new where IH: "versions (db w') = versions (db w1) @ new"
    "map fst new = filter (\<lambda>v. \<not> recorded (db w1) v) (map fst ms)"
    using Cons.IH [OF loop] Cons.prems(2,3) by auto
  have "keeps (on_db same_versions) (snd m)" using Cons.prems(2) by (intro steps_same_versions) auto
  with step show ?case
  proof (rule migrate_step_InrE)
    assume "recorded (db w) (fst m)" "db w1 = db w"
    with IH show ?thesis by simp
  next
    fix at
    assume unrecorded: "\<not> recorded (db w) (fst m)" and grown: "versions (db w1) = versions (db w) @ [(fst m, at)]"
    have "x \<noteq> fst m" if "x \<in> set (map fst ms)" for x using Cons.prems(3) that by force
    with grown have "filter (\<lambda>v. \<not> recorded (db w1) v) (map fst ms) = filter (\<lambda>v. \<not> recorded (db w) v) (map fst ms)"
      by (intro filter_cong) (auto simp: recorded_def)
    with IH unrecorded grown show ?thesis by (intro exI [of _ "(fst m, at) # new"]) simp
  qed
qed (simp add: ret_def)

lemma migrations_distinct: "distinct (map fst (migrations G))"
  by (simp add: migrations_def)

lemma create_versions_Inr:
  "create_versions d = Inr d' \<Longrightarrow>
   sd_tables d' = sd_tables d \<and> versions d' = versions d \<and> sd_versions d' \<noteq> None"
  by (auto simp: create_versions_def versions_def split: if_splits)

lemma Migrate_InrE:
  assumes "Migrate G E w = (Inr (), w')"
  obtains w1 w2 where "sd_tables (db w1) = sd_tables (db w)" and "versions (db w1) = versions (db w)"
    and "for_each (migrations G) migrate_step E w1 = (Inr (), w2)" and "db w' = db w2"
    and "sd_versions (db w1) \<noteq> None"
proof -
  from assms obtain w1 where pre: "unless (\<lambda>d. sd_versions d \<noteq> None)
      (map_error (Wrapped ''create migration table'') (ddl create_versions)) E w = (Inr (), w1)"
    and run: "transaction
       (andThen (if postgres G then map_error (Wrapped ''lock migrations'') (query (\<lambda>_. ())) else ret ()) (\<lambda>_.
        for_each (migrations G) migrate_step)) E w1 = (Inr (), w')"
    unfolding Migrate_def by (auto elim!: andThen_InrE)
  from pre have *: "sd_tables (db w1) = sd_tables (db w) \<and> versions (db w1) = versions (db w) \<and> sd_versions (db w1) \<noteq> None"
  proof (rule unless_InrE)
    fix w0
    assume "db w0 = db w"
      and "map_error (Wrapped ''create migration table'') (ddl create_versions) E w0 = (Inr (), w1)"
    then have "create_versions (db w) = Inr (db w1)" by (auto elim!: map_error_InrE ddl_InrE)
    then show ?thesis by (rule create_versions_Inr)
  qed simp
  from run obtain w2 w3 where w3: "for_each (migrations G) migrate_step E w2 = (Inr (), w3)"
    "db w2 = db w1" "db w' = db w3"
    by (auto elim!: transaction_InrE andThen_InrE map_error_InrE query_InrE ret_InrE split: if_splits)
  show thesis by (rule that [OF _ _ w3(1,3)]) (use * w3(2) in auto)
qed

lemma migrate_step_recorded:
  assumes "recorded (db w) (fst m)" and "migrate_step m E w = (r, w')"
  shows "db w' = db w"
proof (cases "first versions fst (\<lambda>a. fst a = fst m) E w")
  case (Pair found w1)
  have same: "db w1 = db w" using db_sameD [OF reads.keeps_first Pair] by simp
  show ?thesis
  proof (cases found)
    case (Inl e)
    with Pair assms(1) have "\<not> errors_is e ErrRecordNotFound"
      by (force simp: recorded_def first_row_None dest!: first_Inl)
    with Inl Pair assms(2) same show ?thesis
      by (simp add: migrate_step_def andThen_run attempt_def fail_run)
  next
    case (Inr a)
    with Pair assms(2) same show ?thesis
      by (simp add: migrate_step_def andThen_run attempt_def ret_run)
  qed
qed

lemma migrate_loop_recorded:
  "for_each ms migrate_step E w = (r, w') \<Longrightarrow> \<forall>m\<in>set ms. recorded (db w) (fst m) \<Longrightarrow> db w' = db w"
proof (induction ms arbitrary: w)
  case (Cons m ms)
  obtain r1 w1 where step: "migrate_step m E w = (r1, w1)" by fastforce
  with Cons.prems(2) have "db w1 = db w" by (intro migrate_step_recorded) auto
  with Cons step show ?case by (cases r1) (auto simp: andThen_run)
qed (simp add: ret_def)

lemma Migrate_recorded:
  assumes "Migrate G E w = (r, w')" and "sd_versions (db w) \<noteq> None"
    and "\<forall>m\<in>set (migrations G). recorded (db w) (fst m)"
  shows "db w' = db w"
proof -
  let ?loop = "andThen (if postgres G then map_error (Wrapped ''lock migrations'') (query (\<lambda>_. ())) else ret ())
     (\<lambda>_. for_each (migrations G) migrate_step)"
  obtain r1 w1 where pre: "unless (\<lambda>d. sd_versions d \<noteq> None)
      (map_error (Wrapped ''create migration table'') (ddl create_versions)) E w = (r1, w1)" by fastforce
  have same: "db w1 = db w"
    using pre assms(2)
    by (auto simp: unless_def ask_run andThen_run ret_run map_error_def ddl_def exec_def call_def Let_def
        create_versions_def split: if_splits)
  have loop: "db w3 = db w2" if "?loop E w2 = (r2, w3)" "db w2 = db w" for r2 w2 w3
    using that assms(3)
    by (auto simp: andThen_run ret_run map_error_def query_def call_def Let_def
        dest!: migrate_loop_recorded split: if_splits prod.splits)
  from assms(1) pre consider "w' = w1" | r2 where "transaction ?loop E w1 = (r2, w')"
    unfolding Migrate_def by (cases r1) (auto simp: andThen_run)
  then show ?thesis
  proof cases
    case (2 r2)
    show ?thesis
    proof (cases r2)
      case (Inl e)
      with 2 show ?thesis using transaction_Inl [of ?loop E w1] same by simp
    next
      case (Inr u)
      with 2 obtain w2 where "?loop E (w1\<lparr>ticks := Suc (ticks w1)\<rparr>) = (Inr u, w2)" "db w' = db w2"
        by (auto elim!: transaction_InrE)
      with loop same show ?thesis by fastforce
    qed
  qed (use same in simp)
qed

section \<open>Raw tokens\<close>

definition same_tokens :: "schema_db \<Rightarrow> schema_db \<Rightarrow> bool" where
  "same_tokens d d' \<longleftrightarrow>
     has_column ''sessions'' ''token'' d' = has_column ''sessions'' ''token'' d \<and>
     (table_rows ''sessions'' d = [] \<longrightarrow> table_rows ''sessions'' d' = [])"

interpretation same_tokens: schema_order same_tokens
  by unfold_locales (auto simp: same_tokens_def)

text \<open>What is looked at depends on the tables only.\<close>

lemma looks_tables:
  assumes "sd_tables d' = sd_tables d"
  shows "find_table n d' = find_table n d" "has_column n c d' = has_column n c d"
    "table_rows n d' = table_rows n d"
  using assms by (simp_all add: find_table_def has_column_def in_table_def table_rows_def)

lemma create_same_tokens:
  assumes "CreateTable t d = Inr d'" and "tb_rows t = []" and "''token'' \<notin> col_name ` set (tb_columns t)"
  shows "same_tokens d d'"
proof (cases "tb_name t = ''sessions''")
  case True
  with assms show ?thesis
    by (elim CreateTable_InrE) (auto simp: same_tokens_def has_column_def in_table_def table_rows_def)
next
  case False
  with assms(1) have "find_table ''sessions'' d' = find_table ''sessions'' d"
    by (elim CreateTable_InrE) metis
  then show ?thesis by (simp add: same_tokens_def has_column_def in_table_def table_rows_def)
qed

lemma on_table_same_tokens:
  assumes "on_table n f d = Inr d'"
    and "\<And>t t'. f t = Inr t' \<Longrightarrow> tb_rows t' = tb_rows t \<and>
      (n = ''sessions'' \<longrightarrow> (''token'' \<in> col_name ` set (tb_columns t')) = (''token'' \<in> col_name ` set (tb_columns t)))"
  shows "same_tokens d d'"
  using assms(1)
proof (rule on_table_InrE)
  fix t t'
  assume "find_table n d = Some t" "f t = Inr t'" "find_table n d' = Some (t'\<lparr>tb_name := n\<rparr>)"
    and "\<And>m. m \<noteq> n \<Longrightarrow> find_table m d' = find_table m d"
  with assms(2) [of t t'] show ?thesis
    by (cases "n = ''sessions''") (auto simp: same_tokens_def has_column_def in_table_def table_rows_def)
qed

lemma rebuilt_simps [simp]:
  "tb_columns (rebuilt G t) = tb_columns t" "tb_rows (rebuilt G t) = tb_rows t" "tb_name (rebuilt G t) = tb_name t"
  by (simp_all add: rebuilt_def)

lemma altered_names:
  "col_name ` set (map (\<lambda>k. if col_name k = col_name c then c else k) ks) = col_name ` set ks"
  by (induction ks) auto

lemma altered_Inr:
  assumes "(if b then Inl e
            else Inr ((rebuilt G t)\<lparr>tb_columns := map (\<lambda>k. if col_name k = col_name c then c else k) (tb_columns t)\<rparr>)) = Inr t'"
  shows "\<not> b \<and> col_name ` set (tb_columns t') = col_name ` set (tb_columns t) \<and> tb_rows t' = tb_rows t"
  using assms altered_names [of c "tb_columns t"] by (auto simp del: set_map split: if_splits)

lemma statements_same_tokens:
  "AddColumn n c d = Inr d' \<Longrightarrow> n \<noteq> ''sessions'' \<Longrightarrow> same_tokens d d'"
  "AlterColumn G n c d = Inr d' \<Longrightarrow> same_tokens d d'"
  "CreateIndex n i d = Inr d' \<Longrightarrow> same_tokens d d'" "DropIndex n i0 d = Inr d' \<Longrightarrow> same_tokens d d'"
  "CreateConstraint G n k d = Inr d' \<Longrightarrow> same_tokens d d'"
  "record_version v at d = Inr d' \<Longrightarrow> same_tokens d d'"
proof -
  show "AddColumn n c d = Inr d' \<Longrightarrow> n \<noteq> ''sessions'' \<Longrightarrow> same_tokens d d'"
    unfolding AddColumn_def by (erule on_table_same_tokens) (auto split: if_splits)
  show "AlterColumn G n c d = Inr d' \<Longrightarrow> same_tokens d d'"
    unfolding AlterColumn_def
    by (erule on_table_same_tokens) (drule altered_Inr, simp)
  show "CreateIndex n i d = Inr d' \<Longrightarrow> same_tokens d d'"
    unfolding CreateIndex_def by (erule on_table_same_tokens) (auto split: if_splits)
  show "DropIndex n i0 d = Inr d' \<Longrightarrow> same_tokens d d'"
    unfolding DropIndex_def by (erule on_table_same_tokens) (auto split: if_splits)
  show "CreateConstraint G n k d = Inr d' \<Longrightarrow> same_tokens d d'"
    unfolding CreateConstraint_def
    by (auto split: if_splits elim!: on_table_same_tokens)
  show "record_version v at d = Inr d' \<Longrightarrow> same_tokens d d'"
    using looks_tables [of d' d] by (auto simp: same_tokens_def dest!: record_version_Inr)
qed

text \<open>The tables the migrations create are empty, and none has a column for raw tokens.\<close>

definition created_tables :: "db_table list" where
  "created_tables =
     [migration_users, migration_sessions, migration_contests, migration_series, artifacts_table,
      problems_table, revisions_table, migration_series_problems, test_cases_table,
      memberships_table, previews_table]"

lemma created_clean:
  "t \<in> set created_tables \<Longrightarrow> tb_rows t = [] \<and> ''token'' \<notin> col_name ` set (tb_columns t)"
proof -
  have "list_all (\<lambda>t. tb_rows t = [] \<and> ''token'' \<notin> set (map col_name (tb_columns t))) created_tables"
    by code_simp
  then show "t \<in> set created_tables \<Longrightarrow> tb_rows t = [] \<and> ''token'' \<notin> col_name ` set (tb_columns t)"
    by (simp add: list_all_iff)
qed

lemma create_missing_tokens: "set ts \<subseteq> set created_tables \<Longrightarrow> keeps (on_db same_tokens) (create_missing ts)"
  by (rule same_tokens.keeps_create_missing) (use created_clean create_same_tokens in blast)

lemma steps_same_tokens:
  "keeps (on_db same_tokens) createInitialSchema" "keeps (on_db same_tokens) (addSessionIntegrity G)"
  "keeps (on_db same_tokens) (requireSessionFields G)" "keeps (on_db same_tokens) createContentSchema"
  "keeps (on_db same_tokens) createAccessSchema" "keeps (on_db same_tokens) scopeAssignmentCodes"
proof -
  note rules = same_tokens.keeps_rules same_tokens.keeps_ask same_tokens.keeps_unless
    same_tokens.keeps_ddl
  show integrity: "keeps (on_db same_tokens) (addSessionIntegrity G)"
    unfolding addSessionIntegrity_def rejectOrphanedSessions_def
    by (intro rules; erule statements_same_tokens)
  show "keeps (on_db same_tokens) (requireSessionFields G)"
    unfolding requireSessionFields_def by (intro rules integrity; erule statements_same_tokens)
  show "keeps (on_db same_tokens) createInitialSchema" "keeps (on_db same_tokens) createContentSchema"
    unfolding createInitialSchema_def createContentSchema_def
    by (rule create_missing_tokens, simp add: created_tables_def)+
  have "keeps (on_db same_tokens) (create_missing [memberships_table, previews_table])"
    by (rule create_missing_tokens) (simp add: created_tables_def)
  moreover have "keeps (on_db same_tokens) (ddl (AddColumn ''series'' c))" for c
    by (rule same_tokens.keeps_ddl) (erule statements_same_tokens, simp)
  ultimately show "keeps (on_db same_tokens) createAccessSchema"
    unfolding createAccessSchema_def
    by (intro same_tokens.keeps_andThen same_tokens.keeps_for_each same_tokens.keeps_unless)
  show "keeps (on_db same_tokens) scopeAssignmentCodes"
    unfolding scopeAssignmentCodes_def by (intro rules; erule statements_same_tokens)
qed

lemma removeLegacySessionTokens_run:
  assumes "removeLegacySessionTokens G E w = (Inr (), w')" and "calm E"
  shows "\<not> has_column ''sessions'' ''token'' (db w') \<and>
    (has_column ''sessions'' ''token'' (db w) \<longrightarrow> table_rows ''sessions'' (db w') = [])"
proof (cases "has_column ''sessions'' ''token'' (db w)")
  case False
  with assms have "db w' = db w"
    by (auto simp: removeLegacySessionTokens_def andThen_run ask_run ret_run calm_def split: if_splits)
  with False show ?thesis by simp
next
  case True
  then have "has_table ''sessions'' (db w)"
    by (auto simp: has_column_def has_table_def in_table_def split: option.splits)
  with True assms obtain w2 w3 where cleared: "delete_all ''sessions'' (db w) = Inr (db w2)"
    and add: "unless (has_column ''sessions'' ''token_hash'')
        (map_error (Wrapped ''add token hash'') (ddl (AddColumn ''sessions'' (required ''token_hash'')))) E w2 = (Inr (), w3)"
    and dropped: "DropColumn G ''sessions'' ''token'' (db w3) = Inr (db w')"
    by (auto simp: removeLegacySessionTokens_def ask_run calm_def ret_run
        elim!: andThen_InrE map_error_InrE ddl_InrE)
  from cleared have "table_rows ''sessions'' (db w2) = []"
    unfolding delete_all_def by (elim on_table_InrE) (auto simp: table_rows_def)
  with add have "table_rows ''sessions'' (db w3) = []"
    by (elim unless_InrE map_error_InrE ddl_InrE)
      (auto simp: AddColumn_def table_rows_def elim!: on_table_InrE split: if_splits)
  with dropped show ?thesis
    unfolding DropColumn_def
    by (elim on_table_InrE)
      (auto simp: has_column_def in_table_def table_rows_def without_column_def split: if_splits)
qed

lemma recorded_one: "versions d' = versions d @ [(v, at)] \<Longrightarrow> recorded d' u \<longleftrightarrow> recorded d u \<or> u = v"
  by (auto simp: recorded_def)

text \<open>The steps before and after the second one keep what there is of raw tokens.\<close>

lemma other_steps_tokens:
  assumes "m \<in> set (migrations G)" and "fst m \<noteq> 2"
  shows "keeps (on_db same_tokens) (snd m)"
  using assms steps_same_tokens by (auto simp: migrations_def)

lemma migrations_split:
  "migrations G = [(1, createInitialSchema)] @ (2, removeLegacySessionTokens G) # drop 2 (migrations G)"
  by (simp add: migrations_def)

lemma rest_not_two: "m \<in> set (drop 2 (migrations G)) \<Longrightarrow> m \<in> set (migrations G) \<and> fst m \<noteq> 2"
  by (auto simp: migrations_def)

lemma destroyed_by_loop:
  assumes "for_each (migrations G) migrate_step E w = (Inr (), w')" and "calm E" and "\<not> recorded (db w) 2"
  shows "\<not> has_column ''sessions'' ''token'' (db w') \<and>
    (has_column ''sessions'' ''token'' (db w) \<longrightarrow> table_rows ''sessions'' (db w') = [])"
proof -
  from assms(1) obtain w1 w2 where first: "migrate_step (1, createInitialSchema) E w = (Inr (), w1)"
    and second: "migrate_step (2, removeLegacySessionTokens G) E w1 = (Inr (), w2)"
    and rest: "for_each (drop 2 (migrations G)) migrate_step E w2 = (Inr (), w')"
    by (subst (asm) migrations_split) (auto elim!: andThen_InrE)
  have initial: "keeps (on_db same_versions) createInitialSchema" "keeps (on_db same_tokens) createInitialSchema"
    by (rule steps_same_versions [of _ G], simp add: migrations_def) (rule steps_same_tokens)
  have before: "same_tokens (db w) (db w1)"
    by (rule same_tokens.steps_keep [where m = "migrate_step (1, createInitialSchema)", OF first])
      (use initial(2) in \<open>auto intro!: same_tokens.keeps_migrate_step dest: statements_same_tokens\<close>)
  have "\<not> recorded (db w1) 2"
    using first initial(1) assms(3) by (elim migrate_step_InrE) (auto simp: recorded_one)
  moreover have "keeps (on_db same_versions) (removeLegacySessionTokens G)"
    by (rule steps_same_versions [of _ G]) (simp add: migrations_def)
  ultimately obtain w3 w4 where "db w3 = db w1" "removeLegacySessionTokens G E w3 = (Inr (), w4)"
    and tables: "sd_tables (db w2) = sd_tables (db w4)"
    using second by (elim migrate_step_InrE) auto
  with removeLegacySessionTokens_run [OF this(2) assms(2)]
  have gone: "\<not> has_column ''sessions'' ''token'' (db w2)"
    and empty: "has_column ''sessions'' ''token'' (db w1) \<longrightarrow> table_rows ''sessions'' (db w2) = []"
    by (simp_all add: looks_tables [OF tables])
  have "same_tokens (db w2) (db w')"
    by (rule same_tokens.steps_keep [where m = "for_each (drop 2 (migrations G)) migrate_step", OF rest], rule same_tokens.keeps_migrate_loop)
      (blast dest: rest_not_two intro: other_steps_tokens, erule statements_same_tokens)
  with gone empty before show ?thesis by (simp add: same_tokens_def)
qed

section \<open>Sessions in their final form\<close>

text \<open>The key and the index are there, the fields are required, and no session lacks them.\<close>

definition sessions_sound :: "db_table \<Rightarrow> bool" where
  "sessions_sound t \<longleftrightarrow>
     ''user_id'' \<in> fk_column ` set (tb_keys t) \<and> ''idx_sessions_expires_at'' \<in> ix_name ` set (tb_indexes t) \<and>
     required ''token_hash'' \<in> set (tb_columns t) \<and> required ''expires_at'' \<in> set (tb_columns t) \<and>
     (\<forall>r\<in>set (tb_rows t). \<not> incomplete_session r)"

lemma AlterColumn_InrE:
  assumes "AlterColumn G n c d = Inr d'"
  obtains t t' where "find_table n d = Some t" and "find_table n d' = Some t'" and "tb_rows t' = tb_rows t"
    and "c \<in> set (tb_columns t')"
    and "\<And>k. k \<in> set (tb_columns t) \<Longrightarrow> col_name k \<noteq> col_name c \<Longrightarrow> k \<in> set (tb_columns t')"
  using assms unfolding AlterColumn_def
proof (rule on_table_InrE)
  fix t t'
  assume "find_table n d = Some t" and f: "(if col_name c \<notin> col_name ` set (tb_columns t) \<or> \<not> required_filled c (tb_rows t)
       then Inl refused_by_engine
       else Inr ((rebuilt G t)\<lparr>tb_columns := map (\<lambda>k. if col_name k = col_name c then c else k) (tb_columns t)\<rparr>)) = Inr t'"
    and "find_table n d' = Some (t'\<lparr>tb_name := n\<rparr>)"
  with that show thesis by (auto split: if_splits)
qed

lemma CreateConstraint_InrE:
  assumes "CreateConstraint G n k d = Inr d'"
  obtains t t' where "find_table n d = Some t" and "find_table n d' = Some t'" and "tb_rows t' = tb_rows t"
    and "tb_columns t' = tb_columns t" and "fk_column k \<in> fk_column ` set (tb_keys t')"
  using assms unfolding CreateConstraint_def
  by (auto split: if_splits elim!: on_table_InrE)

lemma CreateIndex_InrE:
  assumes "CreateIndex n i d = Inr d'"
  obtains t t' where "find_table n d = Some t" and "find_table n d' = Some t'" and "tb_rows t' = tb_rows t"
    and "tb_columns t' = tb_columns t" and "tb_keys t' = tb_keys t" and "ix_name i \<in> ix_name ` set (tb_indexes t')"
  using assms unfolding CreateIndex_def
  by (auto split: if_splits elim!: on_table_InrE)

lemma addSessionIntegrity_run:
  assumes "addSessionIntegrity G E w = (Inr (), w')" and "find_table ''sessions'' (db w) = Some t"
  shows "\<exists>t'. find_table ''sessions'' (db w') = Some t' \<and> tb_columns t' = tb_columns t \<and> tb_rows t' = tb_rows t \<and>
    ''user_id'' \<in> fk_column ` set (tb_keys t') \<and> ''idx_sessions_expires_at'' \<in> ix_name ` set (tb_indexes t')"
proof -
  from assms(1) obtain w1 where key: "unless (has_key ''sessions'' ''user_id'')
        (andThen rejectOrphanedSessions (\<lambda>_.
         map_error (Wrapped ''create session user foreign key'')
           (ddl (CreateConstraint G ''sessions'' (refers ''user_id'' ''users'' Cascade))))) E w = (Inr (), w1)"
    and index: "unless (has_index ''sessions'' ''idx_sessions_expires_at'')
       (map_error (Wrapped ''create expiry index'')
          (ddl (CreateIndex ''sessions'' (indexed ''idx_sessions_expires_at'' [''expires_at''])))) E w1 = (Inr (), w')"
    unfolding addSessionIntegrity_def by (elim andThen_InrE) simp
  from key obtain t1 where t1: "find_table ''sessions'' (db w1) = Some t1" "tb_columns t1 = tb_columns t"
    "tb_rows t1 = tb_rows t" "''user_id'' \<in> fk_column ` set (tb_keys t1)"
  proof (rule unless_InrE)
    fix w0
    assume w0: "db w0 = db w" and "andThen rejectOrphanedSessions (\<lambda>_.
         map_error (Wrapped ''create session user foreign key'')
           (ddl (CreateConstraint G ''sessions'' (refers ''user_id'' ''users'' Cascade)))) E w0 = (Inr (), w1)"
    then have "CreateConstraint G ''sessions'' (refers ''user_id'' ''users'' Cascade) (db w) = Inr (db w1)"
      by (auto simp: rejectOrphanedSessions_def
          elim!: andThen_InrE map_error_InrE ddl_InrE query_InrE reject_InrE)
    with assms(2) that show thesis by (elim CreateConstraint_InrE) (auto simp: refers_def)
  next
    assume "has_key ''sessions'' ''user_id'' (db w)" "db w1 = db w"
    with assms(2) that [of t] show thesis by (simp add: has_key_def in_table_def)
  qed
  from index show ?thesis
  proof (rule unless_InrE)
    fix w0
    assume "db w0 = db w1" and "map_error (Wrapped ''create expiry index'')
          (ddl (CreateIndex ''sessions'' (indexed ''idx_sessions_expires_at'' [''expires_at'']))) E w0 = (Inr (), w')"
    then have "CreateIndex ''sessions'' (indexed ''idx_sessions_expires_at'' [''expires_at'']) (db w1) = Inr (db w')"
      by (auto elim!: map_error_InrE ddl_InrE)
    with t1 show ?thesis by (elim CreateIndex_InrE) (auto simp: indexed_def)
  next
    assume "has_index ''sessions'' ''idx_sessions_expires_at'' (db w1)" "db w' = db w1"
    with t1 show ?thesis by (simp add: has_index_def in_table_def)
  qed
qed

lemma requireSessionFields_run:
  assumes "requireSessionFields G E w = (Inr (), w')"
  shows "\<exists>t. find_table ''sessions'' (db w') = Some t \<and> sessions_sound t"
proof -
  from assms obtain d2 w3 where none: "filter incomplete_session (table_rows ''sessions'' (db w)) = []"
    and hash: "AlterColumn G ''sessions'' (required ''token_hash'') (db w) = Inr d2"
    and expiry: "AlterColumn G ''sessions'' (required ''expires_at'') d2 = Inr (db w3)"
    and integrity: "addSessionIntegrity G E w3 = (Inr (), w')"
    unfolding requireSessionFields_def
    by (fastforce elim!: andThen_InrE map_error_InrE ddl_InrE query_InrE reject_InrE)
  from hash obtain t t1 where t1: "find_table ''sessions'' (db w) = Some t" "find_table ''sessions'' d2 = Some t1"
    "tb_rows t1 = tb_rows t" "required ''token_hash'' \<in> set (tb_columns t1)"
    by (elim AlterColumn_InrE) auto
  from expiry obtain t2 where t2: "find_table ''sessions'' (db w3) = Some t2" "tb_rows t2 = tb_rows t1"
    "required ''expires_at'' \<in> set (tb_columns t2)" "required ''token_hash'' \<in> set (tb_columns t2)"
    using t1(2,4) by (elim AlterColumn_InrE) (auto simp: required_def)
  from none t1(1) have "\<forall>r\<in>set (tb_rows t). \<not> incomplete_session r"
    by (simp add: table_rows_def filter_empty_conv)
  with addSessionIntegrity_run [OF integrity t2(1)] t1 t2 show ?thesis by (auto simp: sessions_sound_def)
qed

definition kept_sessions :: "schema_db \<Rightarrow> schema_db \<Rightarrow> bool" where
  "kept_sessions d d' \<longleftrightarrow>
     (\<forall>t. find_table ''sessions'' d = Some t \<longrightarrow> find_table ''sessions'' d' = Some t)"

interpretation kept_sessions: schema_order kept_sessions
  by unfold_locales (auto simp: kept_sessions_def)

lemma on_table_kept_sessions: "on_table n f d = Inr d' \<Longrightarrow> n \<noteq> ''sessions'' \<Longrightarrow> kept_sessions d d'"
  by (elim on_table_InrE) (auto simp: kept_sessions_def)

lemma statements_kept_sessions:
  "CreateTable t d = Inr d' \<Longrightarrow> kept_sessions d d'"
  "AddColumn n c d = Inr d' \<Longrightarrow> n \<noteq> ''sessions'' \<Longrightarrow> kept_sessions d d'"
  "CreateIndex n i d = Inr d' \<Longrightarrow> n \<noteq> ''sessions'' \<Longrightarrow> kept_sessions d d'"
  "DropIndex n i0 d = Inr d' \<Longrightarrow> n \<noteq> ''sessions'' \<Longrightarrow> kept_sessions d d'"
  "record_version v at d = Inr d' \<Longrightarrow> kept_sessions d d'"
proof -
  show "CreateTable t d = Inr d' \<Longrightarrow> kept_sessions d d'"
    by (elim CreateTable_InrE, cases "tb_name t = ''sessions''") (auto simp: kept_sessions_def)
  show "record_version v at d = Inr d' \<Longrightarrow> kept_sessions d d'"
    using looks_tables(1) [of d' d] by (auto simp: kept_sessions_def dest!: record_version_Inr)
qed (auto simp: AddColumn_def CreateIndex_def DropIndex_def elim: on_table_kept_sessions)

lemma later_steps_keep_sessions:
  assumes "m \<in> set (drop 4 (migrations G))"
  shows "keeps (on_db kept_sessions) (snd m)"
proof -
  note rules = kept_sessions.keeps_rules kept_sessions.keeps_ask kept_sessions.keeps_unless kept_sessions.keeps_ddl
  have missing: "keeps (on_db kept_sessions) (create_missing ts)" for ts
    by (rule kept_sessions.keeps_create_missing) (erule statements_kept_sessions)
  have "keeps (on_db kept_sessions) createContentSchema" by (simp add: createContentSchema_def missing)
  moreover have "keeps (on_db kept_sessions) createAccessSchema"
    unfolding createAccessSchema_def
    by (intro missing rules) (erule statements_kept_sessions, simp)
  moreover have "keeps (on_db kept_sessions) scopeAssignmentCodes"
    unfolding scopeAssignmentCodes_def
    by (intro rules) (erule statements_kept_sessions, simp)+
  ultimately show ?thesis using assms by (auto simp: migrations_def)
qed

lemma for_each_append_InrE:
  assumes "for_each (xs @ ys) f E w = (Inr (), w')"
  obtains w1 where "for_each xs f E w = (Inr (), w1)" and "for_each ys f E w1 = (Inr (), w')"
  using assms
proof (induction xs arbitrary: w thesis)
  case (Cons x xs)
  from Cons.prems(2) obtain w0 where first: "f x E w = (Inr (), w0)"
    and "for_each (xs @ ys) f E w0 = (Inr (), w')" by (auto elim: andThen_InrE)
  then obtain w1 where "for_each xs f E w0 = (Inr (), w1)" "for_each ys f E w1 = (Inr (), w')"
    using Cons.IH by blast
  with first show ?case by (intro Cons.prems(1)) (simp_all add: andThen_run)
qed (simp add: ret_def)

lemma migrations_four:
  "migrations G = take 3 (migrations G) @ [(4, requireSessionFields G)] @ drop 4 (migrations G)"
  by (simp add: migrations_def)

lemma sessions_by_loop:
  assumes "for_each (migrations G) migrate_step E w = (Inr (), w')" and "\<not> recorded (db w) 4"
  shows "\<exists>t. find_table ''sessions'' (db w') = Some t \<and> sessions_sound t"
proof -
  from assms(1) obtain w1 w2 where before: "for_each (take 3 (migrations G)) migrate_step E w = (Inr (), w1)"
    and fourth: "migrate_step (4, requireSessionFields G) E w1 = (Inr (), w2)"
    and rest: "for_each (drop 4 (migrations G)) migrate_step E w2 = (Inr (), w')"
    by (subst (asm) migrations_four) (elim for_each_append_InrE, auto elim!: andThen_InrE ret_InrE)
  have "\<not> recorded (db w1) 4"
    using migrate_loop_versions [OF before, of G] assms(2)
    by (force simp: recorded_def migrations_def numeral_eq_Suc split: if_splits)
  moreover have "keeps (on_db same_versions) (requireSessionFields G)"
    by (rule steps_same_versions [of _ G]) (simp add: migrations_def)
  ultimately obtain w3 w4 where "requireSessionFields G E w3 = (Inr (), w4)"
    and tables: "sd_tables (db w2) = sd_tables (db w4)"
    using fourth by (elim migrate_step_InrE) auto
  then obtain t where t: "find_table ''sessions'' (db w2) = Some t" "sessions_sound t"
    using requireSessionFields_run looks_tables(1) [OF tables] by metis
  have "kept_sessions (db w2) (db w')"
    by (rule kept_sessions.steps_keep [where m = "for_each (drop 4 (migrations G)) migrate_step", OF rest],
        rule kept_sessions.keeps_migrate_loop)
      (erule later_steps_keep_sessions, erule statements_kept_sessions)
  with t show ?thesis by (auto simp: kept_sessions_def)
qed

end
