(* ===== verification/Migration_Effect.thy ===== *)
theory Migration_Effect
  imports Migration_Facts
begin

text \<open>
  The effect of the migrations as a function on schemas: what each step does when no call
  fails. The steps of the program carry it out, so the schema an empty database ends with
  can be computed and compared with the tables of the models.
\<close>

section \<open>Effects\<close>

type_synonym effect = "schema_db \<Rightarrow> schema_db option"

definition applied :: "ddl_statement \<Rightarrow> effect" where
  "applied s d = (case s d of Inl e \<Rightarrow> None | Inr d' \<Rightarrow> Some d')"

definition missing :: "(schema_db \<Rightarrow> bool) \<Rightarrow> effect \<Rightarrow> effect" where
  "missing P f d = (if P d then Some d else f d)"

definition followed_by :: "effect \<Rightarrow> effect \<Rightarrow> effect" where
  "followed_by f g d = (case f d of None \<Rightarrow> None | Some d' \<Rightarrow> g d')"

fun effects :: "('x \<Rightarrow> effect) \<Rightarrow> 'x list \<Rightarrow> effect" where
  "effects g [] d = Some d"
| "effects g (x # xs) d = followed_by (g x) (effects g xs) d"

definition missing_tables :: "db_table list \<Rightarrow> effect" where
  "missing_tables = effects (\<lambda>t. missing (has_table (tb_name t)) (applied (CreateTable t)))"

definition legacy_effect :: "engine \<Rightarrow> effect" where
  "legacy_effect G d =
     (if \<not> has_table ''sessions'' d \<or> \<not> has_column ''sessions'' ''token'' d then Some d
      else followed_by (applied (delete_all ''sessions''))
             (followed_by (missing (has_column ''sessions'' ''token_hash'')
                             (applied (AddColumn ''sessions'' (required ''token_hash''))))
                (applied (DropColumn G ''sessions'' ''token''))) d)"

definition key_effect :: "engine \<Rightarrow> effect" where
  "key_effect G d =
     (if orphans ''sessions'' ''user_id'' ''users'' d \<noteq> [] then None
      else applied (CreateConstraint G ''sessions'' (refers ''user_id'' ''users'' Cascade)) d)"

definition integrity_effect :: "engine \<Rightarrow> effect" where
  "integrity_effect G =
     followed_by (missing (has_key ''sessions'' ''user_id'') (key_effect G))
       (missing (has_index ''sessions'' ''idx_sessions_expires_at'')
          (applied (CreateIndex ''sessions'' (indexed ''idx_sessions_expires_at'' [''expires_at'']))))"

definition require_effect :: "engine \<Rightarrow> effect" where
  "require_effect G d =
     (if filter incomplete_session (table_rows ''sessions'' d) \<noteq> [] then None
      else followed_by (applied (AlterColumn G ''sessions'' (required ''token_hash'')))
             (followed_by (applied (AlterColumn G ''sessions'' (required ''expires_at''))) (integrity_effect G)) d)"

definition access_effect :: effect where
  "access_effect =
     followed_by
       (effects (\<lambda>c. missing (has_column ''series'' c) (applied (AddColumn ''series'' (plain c))))
          [''start_at'', ''end_at'', ''release_at''])
       (missing_tables [memberships_table, previews_table])"

definition scope_effect :: effect where
  "scope_effect d =
     followed_by
       (if has_index ''series_problems'' ''idx_series_problem_code'' d
        then applied (DropIndex ''series_problems'' ''idx_series_problem_code'') else Some)
       (applied (CreateIndex ''series_problems'' (unique_index ''idx_series_problem_code'' [''series_id'', ''code'']))) d"

definition migration_effects :: "engine \<Rightarrow> (nat \<times> effect) list" where
  "migration_effects G =
     [(1, missing_tables [migration_users, migration_sessions, migration_contests, migration_series]),
      (2, legacy_effect G), (3, integrity_effect G), (4, require_effect G),
      (5, missing_tables [artifacts_table, problems_table, revisions_table, migration_series_problems,
                          test_cases_table]),
      (6, access_effect), (7, scope_effect)]"

definition step_effect :: "time \<Rightarrow> nat \<times> effect \<Rightarrow> effect" where
  "step_effect at m =
     missing (\<lambda>d. fst m \<in> fst ` set (versions d))
       (followed_by (snd m) (applied (record_version (fst m) at)))"

definition migrate_effect :: "engine \<Rightarrow> time \<Rightarrow> effect" where
  "migrate_effect G at =
     followed_by (missing (\<lambda>d. sd_versions d \<noteq> None) (applied create_versions))
       (effects (step_effect at) (migration_effects G))"

definition empty_schema :: schema_db where
  "empty_schema = \<lparr>sd_tables = [], sd_versions = None\<rparr>"

definition keeping_engine :: engine where
  "keeping_engine = \<lparr>postgres = True, loses_index = \<lambda>_ _. False, loses_key = \<lambda>_ _. False\<rparr>"

lemma empty_migrated:
  "map_option sd_tables (migrate_effect keeping_engine at empty_schema) = Some model_schema"
  by code_simp

section \<open>The program carries the effects out\<close>

definition carries_out :: "time \<Rightarrow> step \<Rightarrow> effect \<Rightarrow> bool" where
  "carries_out at m f \<longleftrightarrow>
     (\<forall>E w d. steady E at \<longrightarrow> f (db w) = Some d \<longrightarrow> (\<exists>n. m E w = (Inr (), w\<lparr>ticks := n, db := d\<rparr>)))"

lemma carries_outI:
  "(\<And>E w d. steady E at \<Longrightarrow> f (db w) = Some d \<Longrightarrow> \<exists>n. m E w = (Inr (), w\<lparr>ticks := n, db := d\<rparr>)) \<Longrightarrow>
   carries_out at m f"
  by (simp add: carries_out_def)

lemma carries_outE:
  assumes "carries_out at m f" and "steady E at" and "f (db w) = Some d"
  obtains n where "m E w = (Inr (), w\<lparr>ticks := n, db := d\<rparr>)"
  using assms unfolding carries_out_def by blast

named_theorems carry_rules

lemma carries_ret [carry_rules]: "carries_out at (ret ()) Some"
proof (rule carries_outI)
  fix E :: env and w :: "schema_db world" and d
  assume "Some (db w) = Some d"
  then show "\<exists>n. ret () E w = (Inr (), w\<lparr>ticks := n, db := d\<rparr>)"
    by (intro exI [of _ "ticks w"]) (simp add: ret_def)
qed

lemma carries_ddl [carry_rules]: "carries_out at (ddl s) (applied s)"
proof (rule carries_outI)
  fix E :: env and w :: "schema_db world" and d
  assume "steady E at" "applied s (db w) = Some d"
  then show "\<exists>n. ddl s E w = (Inr (), w\<lparr>ticks := n, db := d\<rparr>)"
    by (auto simp: ddl_def applied_def exec_calm steady_calm split: sum.splits)
qed

lemma carries_map_error [carry_rules]: "carries_out at m f \<Longrightarrow> carries_out at (map_error e m) f"
  by (rule carries_outI) (erule (2) carries_outE, auto simp: map_error_def)

lemma carries_followed [carry_rules]:
  assumes "carries_out at m f" and "carries_out at m2 g"
  shows "carries_out at (andThen m (\<lambda>_. m2)) (followed_by f g)"
proof (rule carries_outI)
  fix E :: env and w :: "schema_db world" and d
  assume st: "steady E at" and "followed_by f g (db w) = Some d"
  then obtain d1 where d1: "f (db w) = Some d1" "g d1 = Some d"
    by (auto simp: followed_by_def split: option.splits)
  obtain n where n: "m E w = (Inr (), w\<lparr>ticks := n, db := d1\<rparr>)"
    using assms(1) st d1(1) by (rule carries_outE)
  have "g (db (w\<lparr>ticks := n, db := d1\<rparr>)) = Some d" using d1(2) by simp
  with assms(2) st obtain k where "m2 E (w\<lparr>ticks := n, db := d1\<rparr>) =
      (Inr (), (w\<lparr>ticks := n, db := d1\<rparr>)\<lparr>ticks := k, db := d\<rparr>)"
    by (rule carries_outE)
  with n show "\<exists>n. andThen m (\<lambda>_. m2) E w = (Inr (), w\<lparr>ticks := n, db := d\<rparr>)"
    by (auto simp: andThen_run)
qed

text \<open>A step that looks at the schema first: what it does next depends on the answer.\<close>

lemma carries_after:
  assumes "\<And>E w. steady E at \<Longrightarrow> \<exists>n. look E w = (Inr (P (db w)), w\<lparr>ticks := n\<rparr>)"
    and "\<And>a. carries_out at (F a) (g a)"
  shows "carries_out at (andThen look F) (\<lambda>d. g (P d) d)"
proof (rule carries_outI)
  fix E :: env and w :: "schema_db world" and d
  assume st: "steady E at" and d: "g (P (db w)) (db w) = Some d"
  obtain n where n: "look E w = (Inr (P (db w)), w\<lparr>ticks := n\<rparr>)" using assms(1) [OF st] by blast
  have "g (P (db w)) (db (w\<lparr>ticks := n\<rparr>)) = Some d" using d by simp
  with assms(2) st obtain k where "F (P (db w)) E (w\<lparr>ticks := n\<rparr>) = (Inr (), (w\<lparr>ticks := n\<rparr>)\<lparr>ticks := k, db := d\<rparr>)"
    by (rule carries_outE)
  with n show "\<exists>n. andThen look F E w = (Inr (), w\<lparr>ticks := n, db := d\<rparr>)"
    by (auto simp: andThen_run)
qed

lemma carries_ask:
  "(\<And>b. carries_out at (F b) (g b)) \<Longrightarrow> carries_out at (andThen (ask P) F) (\<lambda>d. g (P d) d)"
  by (rule carries_after) (auto simp: ask_run steady_def)

lemma carries_query:
  "(\<And>n. carries_out at (F n) (g n)) \<Longrightarrow> carries_out at (andThen (map_error e (query P)) F) (\<lambda>d. g (P d) d)"
  by (rule carries_after) (auto simp: map_error_def query_calm steady_calm)

lemma carries_now: "(\<And>t. carries_out at (F t) (g t)) \<Longrightarrow> carries_out at (andThen now F) (g at)"
  by (rule carries_after [where P = "\<lambda>_. at"]) (auto simp: now_run steady_def)

lemma carries_reject:
  "carries_out at m f \<Longrightarrow> carries_out at (andThen (reject b e) (\<lambda>_. m)) (\<lambda>d. if b then None else f d)"
  by (simp add: carries_out_def reject_def andThen_run ret_def fail_def)

lemma carries_if [carry_rules]:
  "carries_out at m f \<Longrightarrow> carries_out at m' f' \<Longrightarrow> carries_out at (if b then m else m') (if b then f else f')"
  by simp

lemma carries_unless [carry_rules]:
  "carries_out at m f \<Longrightarrow> carries_out at (unless P m) (missing P f)"
proof -
  assume "carries_out at m f"
  then have "carries_out at (unless P m) (\<lambda>d. (if P d then Some else f) d)"
    unfolding unless_def by (intro carries_ask carry_rules)
  then show ?thesis by (simp add: missing_def [abs_def] if_distrib [of "\<lambda>x. x _"])
qed

lemma carries_for_each [carry_rules]:
  "(\<And>x. carries_out at (F x) (g x)) \<Longrightarrow> carries_out at (for_each xs F) (effects g xs)"
proof (induction xs)
  case Nil
  have "effects g [] = Some" by (rule ext) simp
  then show ?case by (simp add: carries_ret)
next
  case (Cons x xs)
  have "effects g (x # xs) = followed_by (g x) (effects g xs)" by (rule ext) simp
  with Cons show ?case by (simp add: carries_followed)
qed

lemma carries_transaction:
  assumes "carries_out at m f"
  shows "carries_out at (transaction m) f"
proof (rule carries_outI)
  fix E :: env and w :: "schema_db world" and d
  assume st: "steady E at" and d: "f (db w) = Some d"
  then have "f (db (w\<lparr>ticks := Suc (ticks w)\<rparr>)) = Some d" by simp
  with assms st obtain n where "m E (w\<lparr>ticks := Suc (ticks w)\<rparr>) =
      (Inr (), (w\<lparr>ticks := Suc (ticks w)\<rparr>)\<lparr>ticks := n, db := d\<rparr>)"
    by (rule carries_outE)
  from transaction_Inr [where m = m, OF steady_calm [OF st] this]
  show "\<exists>n. transaction m E w = (Inr (), w\<lparr>ticks := n, db := d\<rparr>)"
    by (intro exI [of _ "Suc n"]) simp
qed

lemma carries_missing_tables: "carries_out at (create_missing ts) (missing_tables ts)"
  unfolding create_missing_def missing_tables_def by (intro carry_rules)

lemma carries_legacy: "carries_out at (removeLegacySessionTokens G) (legacy_effect G)"
proof -
  let ?f = "followed_by (applied (delete_all ''sessions''))
     (followed_by (missing (has_column ''sessions'' ''token_hash'')
        (applied (AddColumn ''sessions'' (required ''token_hash''))))
        (applied (DropColumn G ''sessions'' ''token'')))"
  let ?inner = "\<lambda>d. (if \<not> has_column ''sessions'' ''token'' d then Some else ?f) d"
  have "carries_out at (removeLegacySessionTokens G)
     (\<lambda>d. (if \<not> has_table ''sessions'' d then Some else ?inner) d)"
    unfolding removeLegacySessionTokens_def
    by (rule carries_ask [where g = "\<lambda>b. if \<not> b then Some else ?inner"],
        rule carries_if, rule carries_ret,
        rule carries_ask [where g = "\<lambda>b. if \<not> b then Some else ?f"])
      (intro carry_rules)
  moreover have "(\<lambda>d. (if \<not> has_table ''sessions'' d then Some else ?inner) d) = legacy_effect G"
    by (rule ext) (simp add: legacy_effect_def)
  ultimately show ?thesis by simp
qed

lemma andThen_assoc: "andThen (andThen m f) g = andThen m (\<lambda>a. andThen (f a) g)"
  by (rule ext, rule ext) (simp add: andThen_run split: prod.split sum.split)

lemma carries_key:
  "carries_out at (andThen rejectOrphanedSessions (\<lambda>_. map_error e
      (ddl (CreateConstraint G ''sessions'' (refers ''user_id'' ''users'' Cascade))))) (key_effect G)"
proof -
  let ?f = "applied (CreateConstraint G ''sessions'' (refers ''user_id'' ''users'' Cascade))"
  have "carries_out at (andThen rejectOrphanedSessions (\<lambda>_. map_error e
      (ddl (CreateConstraint G ''sessions'' (refers ''user_id'' ''users'' Cascade)))))
    (\<lambda>d. (\<lambda>d'. if length (orphans ''sessions'' ''user_id'' ''users'' d) > 0 then None else ?f d') d)"
    unfolding rejectOrphanedSessions_def andThen_assoc
    by (rule carries_query [where g = "\<lambda>n d'. if n > 0 then None else ?f d'"], rule carries_reject)
      (intro carry_rules)
  then show ?thesis by (simp add: key_effect_def [abs_def])
qed

lemma carries_integrity: "carries_out at (addSessionIntegrity G) (integrity_effect G)"
  unfolding addSessionIntegrity_def integrity_effect_def
  by (intro carry_rules carries_key)

lemma carries_require: "carries_out at (requireSessionFields G) (require_effect G)"
proof -
  let ?f = "followed_by (applied (AlterColumn G ''sessions'' (required ''token_hash'')))
     (followed_by (applied (AlterColumn G ''sessions'' (required ''expires_at''))) (integrity_effect G))"
  have "carries_out at (requireSessionFields G)
    (\<lambda>d. (\<lambda>d'. if length (filter incomplete_session (table_rows ''sessions'' d)) > 0 then None else ?f d') d)"
    unfolding requireSessionFields_def
    by (rule carries_query [where g = "\<lambda>n d'. if n > 0 then None else ?f d'"], rule carries_reject)
      (intro carry_rules carries_integrity)
  then show ?thesis by (simp add: require_effect_def [abs_def])
qed

lemma carries_access: "carries_out at createAccessSchema access_effect"
  unfolding createAccessSchema_def access_effect_def by (intro carry_rules carries_missing_tables)

lemma carries_scope: "carries_out at scopeAssignmentCodes scope_effect"
proof -
  let ?g = "\<lambda>b. followed_by (if b then applied (DropIndex ''series_problems'' ''idx_series_problem_code'') else Some)
     (applied (CreateIndex ''series_problems'' (unique_index ''idx_series_problem_code'' [''series_id'', ''code''])))"
  have "carries_out at scopeAssignmentCodes
    (\<lambda>d. ?g (has_index ''series_problems'' ''idx_series_problem_code'' d) d)"
    unfolding scopeAssignmentCodes_def by (rule carries_ask [where g = ?g]) (intro carry_rules)
  then show ?thesis by (simp add: scope_effect_def [abs_def])
qed

text \<open>A recorded step is skipped, another one applied and recorded.\<close>

lemma first_version_steady:
  assumes "steady E at"
  shows "\<exists>n r. attempt (first versions fst (\<lambda>a. fst a = v)) E w = (Inr r, w\<lparr>ticks := n\<rparr>) \<and>
    (if recorded (db w) v then isl r = False else r = Inl ErrRecordNotFound)"
proof (cases "first_row fst (\<lambda>a. fst a = v) (versions (db w))")
  case None
  moreover from None have "\<not> recorded (db w) v" by (force simp: first_row_None recorded_def)
  ultimately show ?thesis
    using steady_calm [OF assms] by (auto simp: attempt_def first_calm)
next
  case (Some r)
  moreover from Some have "recorded (db w) v" by (force simp: recorded_def dest: first_row_Some)
  ultimately show ?thesis
    using steady_calm [OF assms] by (auto simp: attempt_def first_calm)
qed

lemma carries_step:
  assumes "carries_out at (snd m) f"
  shows "carries_out at (migrate_step m) (step_effect at (fst m, f))"
proof (rule carries_outI)
  fix E :: env and w :: "schema_db world" and d
  assume st: "steady E at" and d: "step_effect at (fst m, f) (db w) = Some d"
  let ?work = "andThen (map_error (about_migration ''apply'' (fst m)) (snd m)) (\<lambda>_.
           andThen now (\<lambda>at.
           map_error (about_migration ''record'' (fst m)) (ddl (record_version (fst m) at))))"
  from first_version_steady [OF st, of "fst m" w] obtain n r
    where look: "attempt (first versions fst (\<lambda>a. fst a = fst m)) E w = (Inr r, w\<lparr>ticks := n\<rparr>)"
      and r: "if recorded (db w) (fst m) then isl r = False else r = Inl ErrRecordNotFound" by blast
  show "\<exists>n. migrate_step m E w = (Inr (), w\<lparr>ticks := n, db := d\<rparr>)"
  proof (cases "recorded (db w) (fst m)")
    case True
    with r d look show ?thesis
      by (cases r) (auto simp: migrate_step_def andThen_run ret_run step_effect_def missing_def recorded_def)
  next
    case False
    have "carries_out at ?work (followed_by f (applied (record_version (fst m) at)))"
      by (intro carries_followed carries_map_error assms carries_now
          [where g = "\<lambda>at. applied (record_version (fst m) at)"] carries_ddl)
    moreover have "followed_by f (applied (record_version (fst m) at)) (db (w\<lparr>ticks := n\<rparr>)) = Some d"
      using d False by (simp add: step_effect_def missing_def recorded_def)
    ultimately obtain k where "?work E (w\<lparr>ticks := n\<rparr>) = (Inr (), (w\<lparr>ticks := n\<rparr>)\<lparr>ticks := k, db := d\<rparr>)"
      using st by (elim carries_outE)
    with look r False show ?thesis
      by (auto simp: migrate_step_def andThen_run)
  qed
qed

lemma carries_steps:
  assumes "list_all2 (\<lambda>m e. fst m = fst e \<and> carries_out at (snd m) (snd e)) ms es"
  shows "carries_out at (for_each ms migrate_step) (effects (step_effect at) es)"
  using assms
proof (induction rule: list_all2_induct)
  case Nil
  have "effects (step_effect at) [] = Some" by (rule ext) simp
  then show ?case by (simp add: carries_ret)
next
  case (Cons m ms e es)
  have "effects (step_effect at) (e # es) = followed_by (step_effect at e) (effects (step_effect at) es)"
    by (rule ext) simp
  moreover have "carries_out at (migrate_step m) (step_effect at e)"
    using Cons.hyps carries_step [of at m "snd e"] by simp
  ultimately show ?case using Cons.IH by (simp add: carries_followed)
qed

lemma carries_migrate: "carries_out at (Migrate G) (migrate_effect G at)"
proof -
  have "list_all2 (\<lambda>m e. fst m = fst e \<and> carries_out at (snd m) (snd e)) (migrations G) (migration_effects G)"
    unfolding migrations_def migration_effects_def createInitialSchema_def createContentSchema_def
    by (simp add: carries_missing_tables carries_legacy carries_integrity carries_require carries_access
        carries_scope)
  note steps = carries_steps [OF this]
  have loop: "carries_out at (andThen (if postgres G then map_error (Wrapped ''lock migrations'') (query (\<lambda>_. ()))
      else ret ()) (\<lambda>_. for_each (migrations G) migrate_step)) (effects (step_effect at) (migration_effects G))"
  proof (cases "postgres G")
    case True
    then show ?thesis
      using carries_query [where g = "\<lambda>_. effects (step_effect at) (migration_effects G)", OF steps] by simp
  next
    case False
    moreover have "andThen (ret ()) (\<lambda>_. m) = m" for m :: step
      by (rule ext, rule ext) (simp add: andThen_run ret_run)
    ultimately show ?thesis using steps by simp
  qed
  show ?thesis
    unfolding Migrate_def migrate_effect_def by (intro carry_rules carries_transaction loop)
qed




lemma migrated_versions:
  assumes "Migrate G E w = (Inr (), w')"
  obtains new where "versions (db w') = versions (db w) @ new"
    and "map fst new = filter (\<lambda>v. v \<notin> fst ` set (versions (db w))) [1, 2, 3, 4, 5, 6, 7]"
  using assms
proof (rule Migrate_InrE)
  fix w1 w2
  assume same: "versions (db w1) = versions (db w)" and w': "db w' = db w2"
    and loop: "for_each (migrations G) migrate_step E w1 = (Inr (), w2)"
  have nums: "map fst (migrations G) = [1, 2, 3, 4, 5, 6, 7]" by (simp add: migrations_def)
  obtain new where new: "versions (db w') = versions (db w) @ new"
    "map fst new = filter (\<lambda>v. \<not> recorded (db w1) v) [1, 2, 3, 4, 5, 6, 7]"
    using migrate_loop_versions [OF loop _ migrations_distinct, of G] same w' nums by auto
  then have "map fst new = filter (\<lambda>v. v \<notin> fst ` set (versions (db w))) [1, 2, 3, 4, 5, 6, 7]"
    using same by (simp only: recorded_def)
  with that new(1) show thesis by blast
qed

lemma migrated_recorded:
  assumes "Migrate G E w = (Inr (), w')" and "v \<in> set [1, 2, 3, 4, 5, 6, 7]"
  shows "recorded (db w') v"
  using assms(1)
proof (rule migrated_versions)
  fix new
  assume new: "versions (db w') = versions (db w) @ new"
    "map fst new = filter (\<lambda>v. v \<notin> fst ` set (versions (db w))) [1, 2, 3, 4, 5, 6, 7]"
  show ?thesis
  proof (cases "v \<in> fst ` set (versions (db w))")
    case False
    with assms(2) have "v \<in> set (map fst new)" unfolding new(2) set_filter by blast
    then show ?thesis by (simp add: recorded_def new(1) image_Un)
  qed (simp add: recorded_def new(1) image_Un)
qed

lemma migrated_again:
  assumes "Migrate G E w = (Inr (), w')" and "db w2 = db w'" and "Migrate G E2 w2 = (r, w3)"
  shows "db w3 = db w'"
proof -
  have nums: "map fst (migrations G) = [1, 2, 3, 4, 5, 6, 7]" by (simp add: migrations_def)
  from migrated_recorded [OF assms(1)] have "recorded (db w') v" if "v \<in> set (map fst (migrations G))" for v
    using that [unfolded nums] by blast
  then have all: "\<forall>m\<in>set (migrations G). recorded (db w') (fst m)" by simp
  then have "recorded (db w') 1" by (simp add: migrations_def)
  then have "sd_versions (db w') \<noteq> None" by (cases "sd_versions (db w')") (auto simp: recorded_def versions_def)
  with all assms(2,3) Migrate_recorded show ?thesis by metis
qed

section \<open>Properties\<close>


definition blank_world :: "schema_db world" where
  "blank_world = \<lparr>db = empty_schema, dir = [], ticks = 0, saved = []\<rparr>"

definition calm_env :: "time \<Rightarrow> env" where
  "calm_env at =
     \<lparr>faulty = \<lambda>_. False, clock = \<lambda>_. at, random_bytes = \<lambda>_. [], temp_suffix = \<lambda>_. [], new_id = \<lambda>n. n\<rparr>"


text \<open>
  C19: Every migration is applied once: a run that succeeds leaves the records of earlier runs
  alone and adds one for each version that had none, in order, and another run after it,
  however it goes, changes nothing.
\<close>

theorem migrate_once:
  assumes "Migrate G E w = (Inr (), w')"
  shows "(\<exists>new. versions (db w') = versions (db w) @ new \<and>
            map fst new = filter (\<lambda>v. v \<notin> fst ` set (versions (db w))) [1, 2, 3, 4, 5, 6, 7]) \<and>
         (\<forall>E2 w2 r w3. db w2 = db w' \<longrightarrow> Migrate G E2 w2 = (r, w3) \<longrightarrow> db w3 = db w')"
  using migrated_versions [OF assms] migrated_again [OF assms] by metis

lemma effect_runs:
  assumes "migrate_effect G 7 d = Some d'"
  obtains w where "Migrate G (calm_env 7) (blank_world\<lparr>db := d\<rparr>) = (Inr (), w)" and "db w = d'"
proof -
  have "steady (calm_env 7) 7" by (simp add: steady_def calm_env_def)
  moreover have "migrate_effect G 7 (db (blank_world\<lparr>db := d\<rparr>)) = Some d'" using assms by simp
  ultimately obtain n where "Migrate G (calm_env 7) (blank_world\<lparr>db := d\<rparr>) =
      (Inr (), (blank_world\<lparr>db := d\<rparr>)\<lparr>ticks := n, db := d'\<rparr>)"
    by (rule carries_outE [OF carries_migrate])
  with that show thesis by simp
qed

theorem migrate_once_witness:
  "map fst (versions (db (snd (Migrate keeping_engine (calm_env 7) (blank_world\<lparr>db := empty_schema\<rparr>))))) =
     [1, 2, 3, 4, 5, 6, 7]"
proof -
  obtain d where "migrate_effect keeping_engine 7 empty_schema = Some d"
    using empty_migrated [of 7] by auto
  then obtain w' where run: "Migrate keeping_engine (calm_env 7) (blank_world\<lparr>db := empty_schema\<rparr>) = (Inr (), w')"
    by (rule effect_runs)
  then show ?thesis
    using migrate_once [OF run, THEN conjunct1] by (auto simp: versions_def empty_schema_def)
qed


text \<open>A database from before the first version, with one session and its raw token.\<close>

definition legacy_schema :: schema_db where
  "legacy_schema =
     \<lparr>sd_tables =
        [migration_users,
         (new_table ''sessions''
            [required ''id'', plain ''user_id'', required ''token'', plain ''expires_at'', plain ''created_at'']
            [unique_index ''idx_sessions_token'' [''token'']] [] [])
         \<lparr>tb_rows := [[(''id'', ''1''), (''user_id'', ''1''), (''token'', ''secret'')]]\<rparr>],
      sd_versions = None\<rparr>"

lemma map_optionE:
  assumes "map_option f x = Some y" obtains z where "x = Some z"
  using assms by (cases x) auto

text \<open>
  A column that is added brings no index with it: sessions upgraded from raw tokens end
  without the unique index on their hashes that the model declares.
\<close>

lemma upgraded_sessions_lack_unique_index:
  "map_option (\<lambda>d. has_column ''sessions'' ''token_hash'' d \<and> \<not> has_index ''sessions'' ''idx_sessions_token_hash'' d)
     (migrate_effect keeping_engine 7 legacy_schema) = Some True"
  by code_simp


text \<open>
  C20: However the engine builds tables anew and whatever it loses then, a run that applies the
  fourth version leaves the sessions with their foreign key and their index on the expiry,
  with required fields, and with no session that lacks them.
\<close>

theorem sessions_restored:
  assumes "Migrate G E w = (Inr (), w')" and "4 \<notin> fst ` set (versions (db w))"
  shows "\<exists>t. find_table ''sessions'' (db w') = Some t \<and> sessions_sound t"
  using assms(1)
proof (rule Migrate_InrE)
  fix w1 w2
  assume "versions (db w1) = versions (db w)" "db w' = db w2"
    "for_each (migrations G) migrate_step E w1 = (Inr (), w2)"
  with sessions_by_loop [of G E w1 w2] assms(2) show ?thesis by (simp add: recorded_def)
qed

text \<open>SQLite at its worst.\<close>

definition losing_engine :: engine where
  "losing_engine = \<lparr>postgres = False, loses_index = \<lambda>_ _. True, loses_key = \<lambda>_ _. True\<rparr>"

theorem sessions_restored_witness:
  "\<exists>t. find_table ''sessions'' (db (snd (Migrate losing_engine (calm_env 7) (blank_world\<lparr>db := empty_schema\<rparr>)))) = Some t \<and>
       sessions_sound t"
proof -
  have "map_option (\<lambda>_. ()) (migrate_effect losing_engine 7 empty_schema) = Some ()" by code_simp
  then obtain d where "migrate_effect losing_engine 7 empty_schema = Some d" by (rule map_optionE)
  then obtain w' where run: "Migrate losing_engine (calm_env 7) (blank_world\<lparr>db := empty_schema\<rparr>) = (Inr (), w')"
    by (rule effect_runs)
  then show ?thesis
    using sessions_restored [OF run] by (simp add: versions_def empty_schema_def)
qed

text \<open>
  What is restored is not all: an engine that drops the indexes of a table it builds anew also
  drops the unique index on the hash of the token, which no step creates again.
\<close>

lemma rebuilt_sessions_lack_unique_index:
  "map_option (has_index ''sessions'' ''idx_sessions_token_hash'') (migrate_effect losing_engine 7 empty_schema) = Some False"
  by code_simp

end
