(* ===== verification/Schema_Link.thy ===== *)
theory Schema_Link
  imports Migration_Effect Samples
begin

text \<open>
  The two views of the schema agree: the rows of the store, written as rows of texts into the
  tables the migrations build, satisfy the keys, unique indexes, foreign keys and required
  columns of those tables exactly when the database is intact in the sense of Models, row
  conditions apart.
\<close>

section \<open>The rows of the store as rows of texts\<close>

definition nullable :: "string \<Rightarrow> ('a \<Rightarrow> string) \<Rightarrow> 'a option \<Rightarrow> db_row" where
  "nullable c f x = (case x of None \<Rightarrow> [] | Some v \<Rightarrow> [(c, f v)])"

lemma map_of_nullable [simp]:
  "map_of (nullable c f x @ r) k = (if x \<noteq> None \<and> c = k then map_option f x else map_of r k)"
  "map_of (nullable c f x) k = (if x \<noteq> None \<and> c = k then map_option f x else None)"
  by (auto simp: nullable_def split: option.splits)

definition bool_text :: "bool \<Rightarrow> string" where
  "bool_text b = (if b then ''1'' else ''0'')"

definition user_row :: "user \<Rightarrow> db_row" where
  "user_row u =
     [(''id'', decimal (u_id u)), (''email'', u_email u), (''password_hash'', u_password_hash u),
      (''name'', u_name u), (''role'', u_role u), (''created_at'', int_text (u_created_at u)),
      (''updated_at'', int_text (u_updated_at u))]"

definition session_row :: "session \<Rightarrow> db_row" where
  "session_row s =
     [(''id'', decimal (ss_id s)), (''user_id'', decimal (ss_user_id s)), (''token_hash'', ss_token_hash s),
      (''expires_at'', int_text (ss_expires_at s)), (''created_at'', int_text (ss_created_at s))]"

definition contest_row :: "contest \<Rightarrow> db_row" where
  "contest_row c =
     [(''id'', decimal (c_id c)), (''title'', c_title c), (''description'', c_description c),
      (''visibility'', c_visibility c), (''created_at'', int_text (c_created_at c)),
      (''updated_at'', int_text (c_updated_at c))] @
     nullable ''start_at'' int_text (c_start_at c) @ nullable ''end_at'' int_text (c_end_at c)"

definition series_row :: "series \<Rightarrow> db_row" where
  "series_row s =
     [(''id'', decimal (s_id s)), (''contest_id'', decimal (s_contest_id s)), (''title'', s_title s),
      (''position'', int_text (s_position s)), (''created_at'', int_text (s_created_at s)),
      (''updated_at'', int_text (s_updated_at s))] @
     nullable ''start_at'' int_text (s_start_at s) @ nullable ''end_at'' int_text (s_end_at s) @
     nullable ''release_at'' int_text (s_release_at s)"

definition membership_row :: "membership \<Rightarrow> db_row" where
  "membership_row m =
     [(''id'', decimal (m_id m)), (''contest_id'', decimal (m_contest_id m)),
      (''user_id'', decimal (m_user_id m)), (''role'', m_role m)]"

definition preview_row :: "import_preview \<Rightarrow> db_row" where
  "preview_row p =
     [(''id'', decimal (pv_id p)), (''owner_id'', decimal (pv_owner_id p)),
      (''revision_id'', decimal (pv_revision_id p)), (''artifact_id'', decimal (pv_artifact_id p)),
      (''expires_at'', int_text (pv_expires_at p))] @ nullable ''committed_at'' int_text (pv_committed_at p)"

definition artifact_row :: "artifact \<Rightarrow> db_row" where
  "artifact_row a =
     [(''id'', decimal (a_id a)), (''owner_id'', decimal (a_owner_id a)), (''storage_key'', a_storage_key a),
      (''sha256'', a_sha256 a), (''size_bytes'', int_text (a_size_bytes a)),
      (''content_type'', a_content_type a), (''filename'', a_filename a),
      (''created_at'', int_text (a_created_at a))]"

definition problem_row :: "problem \<Rightarrow> db_row" where
  "problem_row p =
     [(''id'', decimal (p_id p)), (''owner_id'', decimal (p_owner_id p)), (''title'', p_title p),
      (''code'', p_code p), (''kind'', p_kind p), (''created_at'', int_text (p_created_at p)),
      (''updated_at'', int_text (p_updated_at p))]"

definition revision_row :: "revision \<Rightarrow> db_row" where
  "revision_row r =
     [(''id'', decimal (r_id r)), (''problem_id'', decimal (r_problem_id r)), (''number'', int_text (r_number r)),
      (''state'', r_state r), (''statement'', r_statement r), (''language_metadata'', r_language_metadata r),
      (''checker_metadata'', r_checker_metadata r), (''created_at'', int_text (r_created_at r)),
      (''updated_at'', int_text (r_updated_at r))] @
     nullable ''pdf_artifact_id'' decimal (r_pdf_artifact_id r) @
     nullable ''time_limit_millis'' int_text (r_time_limit_millis r) @
     nullable ''memory_limit_kib'' int_text (r_memory_limit_kib r) @
     nullable ''published_at'' int_text (r_published_at r)"

definition series_problem_row :: "series_problem \<Rightarrow> db_row" where
  "series_problem_row a =
     [(''id'', decimal (sp_id a)), (''series_id'', decimal (sp_series_id a)),
      (''problem_id'', decimal (sp_problem_id a)),
      (''published_revision_id'', decimal (sp_published_revision_id a)), (''code'', sp_code a),
      (''position'', int_text (sp_position a)), (''created_at'', int_text (sp_created_at a)),
      (''updated_at'', int_text (sp_updated_at a))]"

definition test_row :: "test_case \<Rightarrow> db_row" where
  "test_row t =
     [(''id'', decimal (t_id t)), (''problem_revision_id'', decimal (t_problem_revision_id t)),
      (''position'', int_text (t_position t)), (''is_sample'', bool_text (t_is_sample t)),
      (''input_artifact_id'', decimal (t_input_artifact_id t)),
      (''output_artifact_id'', decimal (t_output_artifact_id t)),
      (''created_at'', int_text (t_created_at t)), (''updated_at'', int_text (t_updated_at t))] @
     nullable ''points'' int_text (t_points t) @
     nullable ''time_limit_override_millis'' int_text (t_time_limit_override_millis t)"


definition contents :: "database \<Rightarrow> (string \<times> db_row list) list" where
  "contents d =
     [(''users'', map user_row (users d)), (''sessions'', map session_row (sessions d)),
      (''contests'', map contest_row (contests d)), (''series'', map series_row (series_rows d)),
      (''contest_memberships'', map membership_row (memberships d)),
      (''import_previews'', map preview_row (previews d)), (''artifacts'', map artifact_row (artifacts d)),
      (''problems'', map problem_row (problems d)), (''problem_revisions'', map revision_row (revisions d)),
      (''series_problems'', map series_problem_row (series_problems d)),
      (''test_cases'', map test_row (test_cases d))]"

definition rows_of :: "database \<Rightarrow> string \<Rightarrow> db_row list" where
  "rows_of d n = (case map_of (contents d) n of None \<Rightarrow> [] | Some rows \<Rightarrow> rows)"





section \<open>What a schema demands of its rows\<close>




section \<open>Keys, indexes and references\<close>








lemma row_of_names [simp]:
  "rows_of d ''users'' = map user_row (users d)" "rows_of d ''sessions'' = map session_row (sessions d)"
  "rows_of d ''contests'' = map contest_row (contests d)" "rows_of d ''series'' = map series_row (series_rows d)"
  "rows_of d ''contest_memberships'' = map membership_row (memberships d)"
  "rows_of d ''import_previews'' = map preview_row (previews d)"
  "rows_of d ''artifacts'' = map artifact_row (artifacts d)"
  "rows_of d ''problems'' = map problem_row (problems d)"
  "rows_of d ''problem_revisions'' = map revision_row (revisions d)"
  "rows_of d ''series_problems'' = map series_problem_row (series_problems d)"
  "rows_of d ''test_cases'' = map test_row (test_cases d)"
  by (simp_all add: rows_of_def contents_def)


lemmas table_defs = users_table_def sessions_table_def contests_table_def series_table_def
  memberships_table_def previews_table_def artifacts_table_def problems_table_def revisions_table_def
  series_problems_table_def test_cases_table_def














section \<open>The migrated schema and the integrity of the store\<close>



section \<open>Property\<close>



end
