(* ===== verification/Operator.thy ===== *)
theory Operator
  imports Traffic
begin

text \<open>
  Creating an administrator (internal/app/app.go, RunAdminCreate with its flags and the
  prompt of a terminal) and the placeholder of the judge (internal/judge/judge.go). The
  command line is read as the flag package reads two string flags.
\<close>

section \<open>Flags\<close>

definition usage :: go_error where
  "usage = ErrMessage ''usage: cotests admin create --email admin@example.com [--name \"Administrator\"]''"

text \<open>
  One or two dashes start a flag, two alone end the flags. A value follows an equals sign or
  is the next argument. The two flags are carried as the pair of their values; what is left
  is returned with them, and none is the error the package reports.
\<close>

definition set_flag :: "string \<Rightarrow> string \<Rightarrow> string \<times> string \<Rightarrow> (string \<times> string) option" where
  "set_flag name v fs =
     (if name = ''email'' then Some (v, snd fs) else if name = ''name'' then Some (fst fs, v) else None)"

definition flag_body :: "string \<Rightarrow> string" where
  "flag_body s = (if take 2 s = ''--'' then drop 2 s else drop 1 s)"

definition bad_flag :: "string \<Rightarrow> bool" where
  "bad_flag body \<longleftrightarrow> body = [] \<or> hd body = CHR ''-'' \<or> hd body = CHR ''=''"

fun parse_flags :: "string \<times> string \<Rightarrow> string list \<Rightarrow> ((string \<times> string) \<times> string list) option" where
  "parse_flags fs [] = Some (fs, [])"
| "parse_flags fs (s # rest) =
     (if length s < 2 \<or> hd s \<noteq> CHR ''-'' then Some (fs, s # rest)
      else if s = ''--'' then Some (fs, rest)
      else if bad_flag (flag_body s) then None
      else case cut (flag_body s) CHR ''='' of
             Some (name, v) \<Rightarrow>
               (case set_flag name v fs of None \<Rightarrow> None | Some fs' \<Rightarrow> parse_flags fs' rest)
           | None \<Rightarrow>
               (case rest of
                  [] \<Rightarrow> None
                | v # rest' \<Rightarrow>
                    (case set_flag (flag_body s) v fs of
                       None \<Rightarrow> None
                     | Some fs' \<Rightarrow> parse_flags fs' rest')))"

section \<open>Creating an administrator\<close>

type_synonym password_prompt = "string \<Rightarrow> go_error + string"

definition admin_flags :: "string list \<Rightarrow> go_error + string \<times> string" where
  "admin_flags args =
     (case parse_flags ([], []) args of
        None \<Rightarrow> Inl usage
      | Some ((email, name), rest) \<Rightarrow> if rest \<noteq> [] \<or> email = [] then Inl usage else Inr (email, name))"

definition create_error :: "string \<Rightarrow> go_error \<Rightarrow> go_error" where
  "create_error email e =
     (if IsDuplicateError e then ErrMessage (''an account already exists for '' @ email)
      else Wrapped ''create administrator'' e)"

definition RunAdminCreate ::
  "library \<Rightarrow> crypto \<Rightarrow> password_prompt \<Rightarrow> string list \<Rightarrow> (database, string) go" where
  "RunAdminCreate L K prompt args =
     andThen (of_sum (admin_flags args)) (\<lambda>flags.
     andThen (of_sum (NormalizeEmail L (fst flags))) (\<lambda>email.
     andThen (map_error (Wrapped ''read administrator password'')
                (of_sum (prompt ''Administrator password: ''))) (\<lambda>password.
     andThen (map_error (Wrapped ''read administrator password confirmation'')
                (of_sum (prompt ''Confirm password: ''))) (\<lambda>confirmation.
     andThen (reject (password \<noteq> confirmation) (ErrMessage ''administrator passwords do not match'')) (\<lambda>_.
     andThen (of_sum (ValidatePassword password)) (\<lambda>_.
     andThen (map_error (create_error email) (CreateAdmin K email password (snd flags))) (\<lambda>user.
     ret (''Created administrator '' @ u_email user @ '' (user ID '' @ decimal (u_id user) @ '').'' @ [CHR 0x0A]))))))))"

text \<open>A terminal: whether the input is one, writing to the output, reading a line unseen.\<close>

definition terminalPasswordPrompt ::
  "bool \<Rightarrow> (string \<Rightarrow> go_error + unit) \<Rightarrow> go_error + string \<Rightarrow> password_prompt" where
  "terminalPasswordPrompt is_terminal print read_password label =
     (if \<not> is_terminal
      then Inl (ErrMessage ''administrator password prompt requires an interactive terminal'')
      else case print label of Inl e \<Rightarrow> Inl e | Inr _ \<Rightarrow> read_password)"

section \<open>The judge\<close>

definition ErrUnavailable :: go_error where
  "ErrUnavailable = ErrMessage ''judge is not available yet''"

definition RequestEvaluation :: "id \<Rightarrow> ('d, unit) go" where
  "RequestEvaluation submissionID = fail ErrUnavailable"

section \<open>Properties\<close>

lemma CreateAdmin_InrE:
  assumes "CreateAdmin K email password name E w = (Inr x, w')"
  obtains n where "users (db w') = users (db w) @ [x]" and "u_email x = email" and "u_name x = name"
    and "u_role x = RoleAdmin" and "bcrypt_generate K n password = Inr (u_password_hash x)"
    and "db w' = db w\<lparr>users := users (db w) @ [x]\<rparr>"
proof -
  from assms obtain h w1 where h: "HashPassword K password E w = (Inr h, w1)"
    and e: "exec (insert_user \<lparr>u_id = 0, u_email = email, u_password_hash = h, u_name = name,
                        u_role = RoleAdmin, u_created_at = zero_time, u_updated_at = zero_time\<rparr>) E w1 = (Inr x, w')"
    unfolding CreateAdmin_def createUser_def by (elim andThen_InrE) blast
  from h have "bcrypt_generate K (ticks w) password = Inr h" and "db w1 = db w"
    by (auto simp: HashPassword_def call_def Let_def split: if_splits sum.splits)
  with e show thesis
    by (intro that [of "ticks w"])
      (auto simp: insert_user_def elim!: exec_InrE with_rows_InrE insert_row_InrE)
qed

text \<open>
  C36: The command creates exactly the administrator it was asked for: the account added has
  the normalised address of the flags and the confirmed password, which is of valid length,
  and nothing else in the database changes.
\<close>

theorem admin_create_result:
  assumes "RunAdminCreate L K prompt args E w = (Inr out, w')"
  shows "\<exists>x email name raw password n.
           admin_flags args = Inr (raw, name) \<and> NormalizeEmail L raw = Inr email \<and>
           prompt ''Administrator password: '' = Inr password \<and> prompt ''Confirm password: '' = Inr password \<and>
           8 \<le> length password \<and> length password \<le> 72 \<and>
           bcrypt_generate K n password = Inr (u_password_hash x) \<and>
           u_email x = email \<and> u_name x = name \<and> u_role x = RoleAdmin \<and>
           db w' = db w\<lparr>users := users (db w) @ [x]\<rparr>"
proof -
  from assms obtain raw name email password x u where f: "admin_flags args = Inr (raw, name)"
    and m: "NormalizeEmail L raw = Inr email" and p: "prompt ''Administrator password: '' = Inr password"
    and c: "prompt ''Confirm password: '' = Inr password" and v: "ValidatePassword password = Inr u"
    and run: "CreateAdmin K email password name E w = (Inr x, w')"
    unfolding RunAdminCreate_def
    by (elim andThen_InrE reject_InrE of_sum_InrE map_error_InrE ret_InrE) auto
  have "8 \<le> length password \<and> length password \<le> 72"
    using v by (auto simp: ValidatePassword_def MinPasswordBytes_def MaxPasswordBytes_def split: if_splits)
  moreover from run obtain n where "u_email x = email" "u_name x = name" "u_role x = RoleAdmin"
    "bcrypt_generate K n password = Inr (u_password_hash x)" "db w' = db w\<lparr>users := users (db w) @ [x]\<rparr>"
    by (rule CreateAdmin_InrE)
  ultimately show ?thesis using f m p c by blast
qed

definition sample_args :: "string list" where
  "sample_args = [''--email'', '' Boss '', ''-name=Chief'']"

definition sample_prompt :: password_prompt where
  "sample_prompt text = Inr ''password1''"

lemma sample_create_runs:
  "map_sum id (\<lambda>_. ()) (fst (RunAdminCreate sample_library sample_crypto sample_prompt sample_args
     (sample_env 150) sample_world)) = Inr ()"
  by code_simp

theorem admin_create_result_witness:
  "list_ex (\<lambda>x. u_email x = ''boss'' \<and> u_name x = ''Chief'' \<and> u_role x = RoleAdmin)
     (users (db (snd (RunAdminCreate sample_library sample_crypto sample_prompt sample_args
                        (sample_env 150) sample_world))))"
proof -
  obtain out w' where run: "RunAdminCreate sample_library sample_crypto sample_prompt sample_args
      (sample_env 150) sample_world = (Inr out, w')"
    using sample_create_runs
    by (cases "RunAdminCreate sample_library sample_crypto sample_prompt sample_args
      (sample_env 150) sample_world") (auto simp: map_sum_def split: sum.splits)
  have "admin_flags sample_args = Inr ('' Boss '', ''Chief'')" by code_simp
  moreover have "NormalizeEmail sample_library '' Boss '' = Inr ''boss''" by code_simp
  ultimately show ?thesis using admin_create_result [OF run] by (auto simp: run)
qed

end
