(* ===== verification/Runtime_Config.thy ===== *)
theory Runtime_Config
  imports Server
begin

text \<open>
  The settings of a deployment (internal/config/runtime.go): what the environment variables
  give, their defaults, and the bounds on them, and the data directories. The calls of the
  file system are arguments.
\<close>

definition sum_then :: "go_error + 'a \<Rightarrow> ('a \<Rightarrow> go_error + 'b) \<Rightarrow> go_error + 'b" where
  "sum_then r f = (case r of Inl e \<Rightarrow> Inl e | Inr a \<Rightarrow> f a)"

lemma sum_then_Inr: "sum_then r f = Inr b \<longleftrightarrow> (\<exists>a. r = Inr a \<and> f a = Inr b)"
  by (cases r) (simp_all add: sum_then_def)

record runtime =
  DataDir :: string
  ArtifactDir :: string
  DatabaseDSN :: string
  ListenAddress :: string
  rt_PublicURL :: "url option"
  rt_SecureCookies :: bool
  rt_MaxArtifactBytes :: int
  rt_MaxImportBytes :: int
  rt_MaxImportFiles :: int
  rt_MaxStorageBytes :: int

definition positiveInt64 :: "string \<Rightarrow> int \<Rightarrow> go_error + int" where
  "positiveInt64 raw fallback =
     (let raw = trim_space raw
      in if raw = [] then Inr fallback
         else case parse_int64 raw of
                None \<Rightarrow> Inl (ErrMessage ''must be a positive integer'')
              | Some n \<Rightarrow> if n \<le> 0 then Inl (ErrMessage ''must be a positive integer'') else Inr n)"

definition positiveInt :: "string \<Rightarrow> int \<Rightarrow> go_error + int" where
  "positiveInt raw fallback =
     sum_then (positiveInt64 raw fallback) (\<lambda>n.
     if n > 2 ^ 63 - 1 then Inl (ErrMessage ''is too large'') else Inr n)"

definition parsePublicURL :: "library \<Rightarrow> string \<Rightarrow> go_error + url option" where
  "parsePublicURL L raw =
     (let raw = trim_space raw
      in if raw = [] then Inr None
         else case parse_url L raw of
                None \<Rightarrow> Inl (ErrMessage ''PUBLIC_URL must be an absolute http or https URL'')
              | Some u \<Rightarrow>
                  if url_scheme u = [] \<or> url_host u = []
                  then Inl (ErrMessage ''PUBLIC_URL must be an absolute http or https URL'')
                  else if url_scheme u \<noteq> ''http'' \<and> url_scheme u \<noteq> ''https''
                  then Inl (ErrMessage ''PUBLIC_URL must use http or https'')
                  else if url_user u \<or> url_query u \<noteq> [] \<or> url_fragment u \<noteq> [] \<or>
                          (url_path u \<noteq> [] \<and> url_path u \<noteq> [slash])
                  then Inl (ErrMessage ''PUBLIC_URL must contain only an origin'')
                  else Inr (Some (u\<lparr>url_path := []\<rparr>)))"

definition or_default :: "string \<Rightarrow> string \<Rightarrow> string" where
  "or_default v fallback = (let v = trim_space v in if v = [] then fallback else v)"

definition setting :: "string \<Rightarrow> go_error + 'a \<Rightarrow> go_error + 'a" where
  "setting name r = (case r of Inl e \<Rightarrow> Inl (Wrapped name e) | Inr a \<Rightarrow> Inr a)"

definition Load :: "library \<Rightarrow> (string \<Rightarrow> string) \<Rightarrow> go_error + runtime" where
  "Load L lookup =
     (let dataDir = path_clean (or_default (lookup ''DATA_DIR'') ''.'');
          artifactDir = path_clean (or_default (lookup ''ARTIFACT_DIR'') (path_join dataDir ''artifacts''))
      in
      sum_then (setting ''MAX_ARTIFACT_BYTES'' (positiveInt64 (lookup ''MAX_ARTIFACT_BYTES'') (10 * 2 ^ 20))) (\<lambda>maxArtifactBytes.
      sum_then (setting ''MAX_IMPORT_BYTES'' (positiveInt64 (lookup ''MAX_IMPORT_BYTES'') (50 * 2 ^ 20))) (\<lambda>maxImportBytes.
      sum_then (setting ''MAX_IMPORT_FILES'' (positiveInt (lookup ''MAX_IMPORT_FILES'') 100)) (\<lambda>maxImportFiles.
      sum_then (setting ''MAX_STORAGE_BYTES'' (positiveInt64 (lookup ''MAX_STORAGE_BYTES'') (2 ^ 30))) (\<lambda>maxStorageBytes.
      if maxArtifactBytes > 512 * 2 ^ 20 \<or> maxImportBytes > 512 * 2 ^ 20 \<or> maxImportFiles > 10000
      then Inl (ErrMessage ''upload limits exceed supported bounds (512 MiB / 10000 files)'')
      else
        let dsn = or_default (lookup ''DATABASE_URL'') (path_join dataDir ''cotests.db'') in
        sum_then (parsePublicURL L (lookup ''PUBLIC_URL'')) (\<lambda>publicURL.
        Inr \<lparr>DataDir = dataDir, ArtifactDir = artifactDir, DatabaseDSN = dsn,
             ListenAddress = or_default (lookup ''LISTEN_ADDR'') '':3000'',
             rt_PublicURL = publicURL,
             rt_SecureCookies =
               (equal_fold (trim_space (lookup ''SECURE_COOKIES'')) ''true'' \<or>
                (case publicURL of None \<Rightarrow> False | Some u \<Rightarrow> url_scheme u = ''https'')),
             rt_MaxArtifactBytes = maxArtifactBytes, rt_MaxImportBytes = maxImportBytes,
             rt_MaxImportFiles = maxImportFiles, rt_MaxStorageBytes = maxStorageBytes\<rparr>))))))"

text \<open>What the program hands to the router (internal/app/app.go, Main).\<close>

definition server_settings :: "runtime \<Rightarrow> server_config" where
  "server_settings c =
     \<lparr>SecureCookies = rt_SecureCookies c, PublicURL = rt_PublicURL c,
      MaxArtifactBytes = rt_MaxArtifactBytes c, MaxStorageBytes = rt_MaxStorageBytes c,
      MaxImportBytes = rt_MaxImportBytes c, MaxImportFiles = rt_MaxImportFiles c\<rparr>"

section \<open>Data directories\<close>

text \<open>Creating a directory and asking whether a path is one are the file system's.\<close>

definition EnsureDataDir ::
  "(string \<Rightarrow> go_error + unit) \<Rightarrow> (string \<Rightarrow> go_error + bool) \<Rightarrow> string \<Rightarrow> go_error + unit" where
  "EnsureDataDir mkdir_all is_dir path =
     sum_then (setting ''create data directory'' (mkdir_all path)) (\<lambda>_.
     sum_then (setting ''inspect data directory'' (is_dir path)) (\<lambda>directory.
     if \<not> directory
     then Inl (ErrMessage (''data directory '' @ [CHR 0x22] @ path @ [CHR 0x22] @ '' is not a directory''))
     else Inr ()))"

section \<open>Properties\<close>

lemma positiveInt64_Inr:
  "positiveInt64 raw fallback = Inr n \<Longrightarrow> 0 < fallback \<Longrightarrow> fallback < 2 ^ 63 \<Longrightarrow> 0 < n \<and> n < 2 ^ 63"
  by (auto simp: positiveInt64_def Let_def split: if_splits option.splits dest: parse_int64_bound)

lemma setting_Inr: "setting name r = Inr a \<longleftrightarrow> r = Inr a"
  by (cases r) (simp_all add: setting_def)

text \<open>What an accepted configuration satisfies.\<close>

definition sound_config :: "server_config \<Rightarrow> bool" where
  "sound_config cfg \<longleftrightarrow>
     0 < MaxArtifactBytes cfg \<and> MaxArtifactBytes cfg \<le> 512 * 2 ^ 20 \<and>
     0 < MaxImportBytes cfg \<and> MaxImportBytes cfg \<le> 512 * 2 ^ 20 \<and>
     0 < MaxImportFiles cfg \<and> MaxImportFiles cfg \<le> 10000 \<and>
     0 < MaxStorageBytes cfg \<and> MaxStorageBytes cfg < 2 ^ 63 \<and>
     (case PublicURL cfg of
        None \<Rightarrow> True
      | Some u \<Rightarrow> url_host u \<noteq> [] \<and> (url_scheme u = ''http'' \<or> url_scheme u = ''https'') \<and>
                 url_path u = [] \<and> url_query u = [] \<and> url_fragment u = [] \<and> \<not> url_user u \<and>
                 (SecureCookies cfg \<or> url_scheme u = ''http''))"

lemma parsePublicURL_Inr:
  "parsePublicURL L raw = Inr (Some u) \<Longrightarrow>
   url_host u \<noteq> [] \<and> (url_scheme u = ''http'' \<or> url_scheme u = ''https'') \<and>
   url_path u = [] \<and> url_query u = [] \<and> url_fragment u = [] \<and> \<not> url_user u"
  by (auto simp: parsePublicURL_def Let_def split: if_splits option.splits)

lemma Load_InrE:
  assumes "Load L lookup = Inr c"
  obtains a b f st u where "positiveInt64 (lookup ''MAX_ARTIFACT_BYTES'') (10 * 2 ^ 20) = Inr a"
    and "positiveInt64 (lookup ''MAX_IMPORT_BYTES'') (50 * 2 ^ 20) = Inr b"
    and "positiveInt (lookup ''MAX_IMPORT_FILES'') 100 = Inr f"
    and "positiveInt64 (lookup ''MAX_STORAGE_BYTES'') (2 ^ 30) = Inr st"
    and "parsePublicURL L (lookup ''PUBLIC_URL'') = Inr u"
    and "\<not> (a > 512 * 2 ^ 20 \<or> b > 512 * 2 ^ 20 \<or> f > 10000)"
    and "server_settings c =
           \<lparr>SecureCookies = (equal_fold (trim_space (lookup ''SECURE_COOKIES'')) ''true'' \<or>
              (case u of None \<Rightarrow> False | Some v \<Rightarrow> url_scheme v = ''https'')), PublicURL = u,
            MaxArtifactBytes = a, MaxStorageBytes = st, MaxImportBytes = b, MaxImportFiles = f\<rparr>"
proof (cases "positiveInt64 (lookup ''MAX_ARTIFACT_BYTES'') (10 * 2 ^ 20)")
  case (Inr a)
  note a = this
  with assms obtain b f st where b: "positiveInt64 (lookup ''MAX_IMPORT_BYTES'') (50 * 2 ^ 20) = Inr b"
    and f: "positiveInt (lookup ''MAX_IMPORT_FILES'') 100 = Inr f"
    and st: "positiveInt64 (lookup ''MAX_STORAGE_BYTES'') (2 ^ 30) = Inr st"
    unfolding Load_def Let_def sum_then_Inr setting_Inr by blast
  show thesis
  proof (cases "a > 512 * 2 ^ 20 \<or> b > 512 * 2 ^ 20 \<or> f > 10000")
    case True
    with assms show thesis
      unfolding Load_def Let_def sum_then_Inr setting_Inr a b f st by simp
  next
    case False
    with assms obtain u where u: "parsePublicURL L (lookup ''PUBLIC_URL'') = Inr u"
      unfolding Load_def Let_def sum_then_Inr setting_Inr a b f st by (auto simp: sum_then_Inr)
    show thesis
      by (rule that [OF a b f st u False])
        (use assms False in \<open>unfold Load_def Let_def sum_then_def setting_def a b f st u, auto simp: server_settings_def\<close>)
  qed
next
  case (Inl e)
  with assms show thesis unfolding Load_def Let_def sum_then_Inr setting_Inr by simp
qed

text \<open>
  A configuration that loads is sound: every limit is positive and within the supported
  bounds, a public URL is a bare origin, an https origin forces secure cookies, and the
  router has nothing to correct in it.
\<close>

lemma loaded_config_sound:
  assumes "Load L lookup = Inr c"
  shows "sound_config (server_settings c) \<and> with_defaults (server_settings c) = server_settings c"
  using assms
proof (rule Load_InrE)
  fix a b f st u
  assume nums: "positiveInt64 (lookup ''MAX_ARTIFACT_BYTES'') (10 * 2 ^ 20) = Inr a"
    "positiveInt64 (lookup ''MAX_IMPORT_BYTES'') (50 * 2 ^ 20) = Inr b"
    "positiveInt (lookup ''MAX_IMPORT_FILES'') 100 = Inr f"
    "positiveInt64 (lookup ''MAX_STORAGE_BYTES'') (2 ^ 30) = Inr st"
    and u: "parsePublicURL L (lookup ''PUBLIC_URL'') = Inr u"
    and bounds: "\<not> (a > 512 * 2 ^ 20 \<or> b > 512 * 2 ^ 20 \<or> f > 10000)"
    and c: "server_settings c =
           \<lparr>SecureCookies = (equal_fold (trim_space (lookup ''SECURE_COOKIES'')) ''true'' \<or>
              (case u of None \<Rightarrow> False | Some v \<Rightarrow> url_scheme v = ''https'')), PublicURL = u,
            MaxArtifactBytes = a, MaxStorageBytes = st, MaxImportBytes = b, MaxImportFiles = f\<rparr>"
  from nums(3) have "positiveInt64 (lookup ''MAX_IMPORT_FILES'') 100 = Inr f"
    by (auto simp: positiveInt_def sum_then_Inr split: if_splits)
  with nums have pos: "0 < a" "0 < b" "0 < f" "0 < st \<and> st < 2 ^ 63"
    by (auto dest: positiveInt64_Inr)
  have "url_host v \<noteq> [] \<and> (url_scheme v = ''http'' \<or> url_scheme v = ''https'') \<and>
      url_path v = [] \<and> url_query v = [] \<and> url_fragment v = [] \<and> \<not> url_user v" if "u = Some v" for v
    using parsePublicURL_Inr u that by blast
  with pos bounds show ?thesis
    unfolding c sound_config_def with_defaults_def positive_or_def
    by (cases u) (auto simp: not_le)
qed

end
