(* ===== verification/Database_Open.thy ===== *)
theory Database_Open
  imports Migrations
begin

text \<open>
  Opening the database (internal/db/db.go and OpenDatabase of internal/app/app.go): which
  driver a name selects, what is added to the name of a SQLite database, the steps of
  connecting and their errors, and the migrations that follow. The drivers are an argument.
\<close>

definition IsPostgres :: "string \<Rightarrow> bool" where
  "IsPostgres dsn \<longleftrightarrow>
     has_prefix dsn ''postgres://'' \<or> has_prefix dsn ''postgresql://'' \<or> has_prefix dsn ''host=''"

text \<open>The pragma comes last, so that no pragma of the name can switch foreign keys off.\<close>

definition sqlite_dsn :: "string \<Rightarrow> string" where
  "sqlite_dsn dsn = dsn @ (if contains dsn ''?'' then ''&'' else ''?'') @ ''_pragma=foreign_keys(1)''"

text \<open>What gorm and the drivers do: open a name, hand out the pool behind it, reach the server.\<close>

record 'p drivers =
  gorm_open :: "bool \<Rightarrow> string \<Rightarrow> go_error + 'p"
  sql_pool :: "'p \<Rightarrow> go_error + unit"
  ping_pool :: "'p \<Rightarrow> go_error + unit"

text \<open>A connection to SQLite is limited to one at a time: it permits a single writer.\<close>

record 'p connection =
  cn_postgres :: bool
  cn_single :: bool
  cn_pool :: 'p

definition about :: "string \<Rightarrow> go_error + 'a \<Rightarrow> go_error + 'a" where
  "about m r = (case r of Inl e \<Rightarrow> Inl (Wrapped m e) | Inr a \<Rightarrow> Inr a)"

definition Open_db :: "'p drivers \<Rightarrow> string \<Rightarrow> go_error + 'p connection" where
  "Open_db D dsn =
     (case about ''db open'' (gorm_open D (IsPostgres dsn) (if IsPostgres dsn then dsn else sqlite_dsn dsn)) of
        Inl e \<Rightarrow> Inl e
      | Inr pool \<Rightarrow>
          (case about ''db underlying'' (sql_pool D pool) of
             Inl e \<Rightarrow> Inl e
           | Inr _ \<Rightarrow>
               (case about ''db ping'' (ping_pool D pool) of
                  Inl e \<Rightarrow> Inl e
                | Inr _ \<Rightarrow>
                    Inr \<lparr>cn_postgres = IsPostgres dsn, cn_single = (\<not> IsPostgres dsn), cn_pool = pool\<rparr>)))"

text \<open>
  Opening and migrating; an error of either closes the connection, which is to say that none
  is returned. How the engine rebuilds tables is only of interest with SQLite.
\<close>

definition OpenDatabase ::
  "'p drivers \<Rightarrow> engine \<Rightarrow> string \<Rightarrow> (schema_db, 'p connection) go" where
  "OpenDatabase D G dsn =
     andThen (of_sum (about ''db'' (Open_db D dsn))) (\<lambda>c.
     andThen (of_sum (about ''db underlying'' (sql_pool D (cn_pool c)))) (\<lambda>_.
     andThen (map_error (Wrapped ''migrate'') (Migrate (G\<lparr>postgres := cn_postgres c\<rparr>))) (\<lambda>_.
     ret c)))"

lemma sqlite_dsn_pragma: "has_suffix (sqlite_dsn dsn) ''_pragma=foreign_keys(1)''"
  by (simp add: sqlite_dsn_def has_suffix_def has_prefix_def)

end
