(* ===== verification/Start.thy ===== *)
theory Start
  imports Operator Runtime_Config Database_Open Migration_Effect
begin

text \<open>
  Starting the program (internal/app/app.go, Main and RunCommand): the configuration, the
  two directories, then the operator's command, or the database, its migrations and the
  templates. The state is the schema the migrations work on together with the rows of the
  store. An error is what the program is stopped with. Serving, with its signals,
  its shutdown and the closing of the database, is the theory Serving.
\<close>

section \<open>Both sides of the database\<close>



section \<open>The program\<close>





section \<open>Properties\<close>









end
