(* ===== verification/Serving.thy ===== *)
theory Serving
  imports Start
begin

text \<open>
  Serving and stopping (internal/app/app.go, Main from the HTTP server to its end) as a state
  machine. Main waits in ListenAndServe while requests are handled; another goroutine waits for
  a signal and then calls Shutdown. As net/http documents it, Shutdown first closes the
  listeners, at which ListenAndServe returns ErrServerClosed at once, and only then waits for
  the requests in progress. Main does not wait for it: it runs its deferred closing of the
  database and ends the process.
\<close>

section \<open>States and steps\<close>

text \<open>Where Main is: in ListenAndServe, past it, past its deferred calls, or stopped by log.Fatalf.\<close>

datatype main_point = Listening | Returning | Ended | Fatal

record server_state =
  main_at :: main_point
  stopping :: bool
  in_progress :: nat
  database_open :: bool

text \<open>The state in which a start that succeeds begins to serve.\<close>

definition serving :: server_state where
  "serving = \<lparr>main_at = Listening, stopping = False, in_progress = 0, database_open = True\<rparr>"

definition alive :: "server_state \<Rightarrow> bool" where
  "alive s \<longleftrightarrow> main_at s = Listening \<or> main_at s = Returning"

text \<open>
  A connection is accepted with its request, or finished; the signal has made Shutdown close the
  listeners; ListenAndServe returns, for that reason or another; Main closes the database and ends.
\<close>

datatype server_event = Accepted | Finishes | Signalled | ServerClosed | ListenFails | Closes | Exits

inductive server_step :: "server_state \<Rightarrow> server_event \<Rightarrow> server_state \<Rightarrow> bool" where
  accepted: "main_at s = Listening \<Longrightarrow> \<not> stopping s \<Longrightarrow>
    server_step s Accepted (s\<lparr>in_progress := Suc (in_progress s)\<rparr>)"
| finishes: "alive s \<Longrightarrow> in_progress s = Suc n \<Longrightarrow> server_step s Finishes (s\<lparr>in_progress := n\<rparr>)"
| signalled: "alive s \<Longrightarrow> \<not> stopping s \<Longrightarrow> server_step s Signalled (s\<lparr>stopping := True\<rparr>)"
| server_closed: "main_at s = Listening \<Longrightarrow> stopping s \<Longrightarrow>
    server_step s ServerClosed (s\<lparr>main_at := Returning\<rparr>)"
| listen_fails: "main_at s = Listening \<Longrightarrow> \<not> stopping s \<Longrightarrow>
    server_step s ListenFails (s\<lparr>main_at := Fatal\<rparr>)"
| closes: "main_at s = Returning \<Longrightarrow> database_open s \<Longrightarrow>
    server_step s Closes (s\<lparr>database_open := False\<rparr>)"
| ends: "main_at s = Returning \<Longrightarrow> \<not> database_open s \<Longrightarrow> server_step s Exits (s\<lparr>main_at := Ended\<rparr>)"


inductive server_run :: "server_state \<Rightarrow> server_event list \<Rightarrow> server_state \<Rightarrow> bool" where
  stays: "server_run s [] s"
| goes: "server_run s es t \<Longrightarrow> server_step t e u \<Longrightarrow> server_run s (es @ [e]) u"

section \<open>What holds along every run\<close>





text \<open>
  Stopping is not graceful: a request in progress when the signal comes can find the database
  closed and be cut off by the end of the process.
\<close>

lemma shutdown_abandons_requests:
  "\<exists>es s. server_run serving es s \<and> main_at s = Ended \<and> in_progress s = 1 \<and> \<not> database_open s"
proof -
  let ?s1 = "serving\<lparr>in_progress := Suc (in_progress serving)\<rparr>"
  let ?s3 = "?s1\<lparr>stopping := True\<rparr>\<lparr>main_at := Returning\<rparr>"
  have "server_run serving ([] @ [Accepted]) ?s1"
    by (rule goes [OF stays accepted]) (simp_all add: serving_def)
  then have "server_run serving (([] @ [Accepted]) @ [Signalled]) (?s1\<lparr>stopping := True\<rparr>)"
    by (rule goes) (rule signalled; simp add: serving_def alive_def)
  then have "server_run serving ((([] @ [Accepted]) @ [Signalled]) @ [ServerClosed]) ?s3"
    by (rule goes) (rule server_closed; simp add: serving_def)
  then have "server_run serving (((([] @ [Accepted]) @ [Signalled]) @ [ServerClosed]) @ [Closes]) (?s3\<lparr>database_open := False\<rparr>)"
    by (rule goes) (rule closes; simp add: serving_def)
  then have "server_run serving ((((([] @ [Accepted]) @ [Signalled]) @ [ServerClosed]) @ [Closes]) @ [Exits])
      (?s3\<lparr>database_open := False\<rparr>\<lparr>main_at := Ended\<rparr>)"
    by (rule goes) (rule ends; simp add: serving_def)
  then show ?thesis by (intro exI conjI) (auto simp: serving_def)
qed

section \<open>Property\<close>



end
