(* ===== verification/Spec2Isabelle.thy ===== *)
theory Spec2Isabelle
  imports System Drafts Membership Reordering Storage Collection Failures Sign_In_Facts
    Json_Roundtrip Edit_Roundtrip Rendering Schema_Link Serving
begin

text \<open>
  Verification of the contest server: a Go program that keeps contests, series, problems with
  versioned revisions and their tests, serves them to participants and lets organizers and
  administrators edit them, over HTML pages and a JSON interface.

  This theory imports the whole development; the properties stand in the theories of the parts
  they are about, each after a text that states it and carries its number.

  \<^bold>\<open>The program and its parts.\<close> A request passes the middleware of internal/server (router.go,
  auth.go, security.go), which finds the user behind its session cookie and refuses forged
  requests, and reaches a handler: of the JSON interface (api.go), of the public and
  administrative pages (public.go, admin.go, problems.go) or of signing in (handlers.go).
  Handlers call the content service (internal/content), which decides what the actor may do and
  runs the change in a transaction, the store (internal/db), and the directory of uploaded
  files (internal/artifact); test archives are read by internal/importer. internal/app starts
  all of this from the settings of internal/config, after the migrations of internal/db.

  \<^bold>\<open>How the code is modelled.\<close>

  \<^item> Effects: an operation is a function of an environment and a world to an error or a value
    and a new world. The world is the database, the directory and the number of calls made; the
    environment says, call by call, whether the call fails, what the clock shows, and which random
    bytes, names and keys are given. A theorem about every environment is one about every
    schedule of failures. A transaction gives the database back when its body fails, and only
    the database: files and the count of calls stay as they are.
  \<^item> Errors are values of the type go_error; a sum carries them, and errors.Is and errors.As look
    through wrapped ones. Integers of Go that can overflow are wrapped by wrap64. Strings are
    byte strings. Times are nanoseconds.
  \<^item> Requests are sequential: what serialises them in the code (row locks, the single SQLite
    connection, the mutex of the file store) is the atomicity of one operation. Along a run every
    request has an environment of its own, and requests come in any order.
  \<^item> A file that is written is read back as written: the temporary copies the code makes of an
    upload before parsing it are the bytes of the upload.

  \<^bold>\<open>Theories of the model\<close>, with the files under src/ they translate:

  \<^item> Prelude, Go_Lib, Effects, Answers: the vocabulary, the parts of the standard library in use
    (strings, strconv, hex, time), the effects, and reading in a steady environment.
  \<^item> Table, Models, Statements: tables with their constraints, the eleven tables of
    internal/db/models.go as records, and the statements the code issues on them.
  \<^item> Db_Contests, Db_Problems, Db_Accounts, Go_Json: internal/db/contests.go, problems.go, users.go
    and sessions.go, internal/auth/password.go, and the reading of language lists.
  \<^item> Artifact_Store, Importer: internal/artifact/store.go, internal/importer/tests.go.
  \<^item> Content_Service, Content_Files: internal/content/service.go, internal/content/files.go.
  \<^item> Http, Responses, Sign_In: internal/server/auth.go, security.go, pages.go and handlers.go,
    internal/auth/credentials.go.
  \<^item> Api, Api_Json, Api_Contests, Api_Problems: internal/server/api.go. Json_Text: reading and writing
    JSON documents as it does; Api_Encoding: the structs of internal/db/models.go and
    internal/content by their json tags, and the text of an answer.
  \<^item> Rendering: what is sent for a response: render of handlers.go, renderAccessError of auth.go.
  \<^item> Admin_Pages, Problem_Pages: internal/server/admin.go and public.go, internal/server/problems.go.
  \<^item> Server: internal/server/router.go; handle is a whole request, dispatch what follows the checks.
  \<^item> Schema, Migrations, Database_Open: internal/db/migrations.go on tables as data, internal/db/db.go
    and OpenDatabase of internal/app/app.go.
  \<^item> Runtime_Config, Operator, Start: internal/config/runtime.go, the operator's command, the judge
    placeholder internal/judge/judge.go, and Main up to serving (internal/app/app.go).
  \<^item> Serving: Main from the HTTP server to its end, with the signal and Shutdown, as a step relation.

  \<^bold>\<open>Theories of facts.\<close>

  \<^item> Evolution, System: what no operation ever does to the database, as an order on worlds, and
    its consequences along every run: published revisions are immutable, assignments stay pinned
    to them, keys, conditions, indexes and references hold.
  \<^item> Policy, Access: the access policy as conditions on the database and the clock, and the
    service as deciding it exactly, or never granting more when calls fail.
  \<^item> Membership, Reordering, Drafts, Storage, Collection: what a successful operation leaves, and
    when it must succeed. Failures: a failed request leaves the database as it was.
  \<^item> Requests, Governance, Site, Traffic: from operations to requests over HTTP and any traffic.
  \<^item> Sign_In_Facts, Json_Roundtrip: session cookies, the bound on attempts, request tokens, and
    the language lists.
  \<^item> Json_Facts, Encoding_Facts, Edit_Roundtrip: reading a JSON text ends and reads back what is
    written, every answer is a document, and a contest that was read can be sent back unchanged.
  \<^item> Migration_Facts, Migration_Effect, Schema_Link: the migrations apply once, destroy raw tokens,
    restore the sessions, and build the tables of the models, whose constraints are exactly the
    integrity the operations are shown to keep.
  \<^item> Samples: the small intact database at which properties are instantiated.

  \<^bold>\<open>Interfaces.\<close> schema_table is what a table promises, and every table is an interpretation.
  world_order is an order on worlds that ignores the count of calls; under it the rules for
  composed operations are proved once, and reading, evolving, keeping all accounts or all files,
  and keeping the database on failure are its interpretations. acting extends it to what an actor
  may do over HTTP. ordered_children is what reordering needs of a table, with series and
  assignments as its interpretations. schema_order gives world_order for orders on schemas.
  stored_table says how a table of the migrated schema holds the rows of a table of the store,
  with an interpretation for each of the eleven.

  \<^bold>\<open>Parameters\<close> stand for code outside src/: crypto for bcrypt, SHA-256 and HMAC; library for URLs,
  addresses, dates and letter case of the standard library; unzip for the ZIP container; the
  matching of paths against the route table, the static files and the answer to an unmatched path
  in a site; the printing of an instant and the template engine, for the texts of answers and
  pages; the order of null dates in the engine; gorm and the drivers behind drivers; what an
  engine loses when it builds a table anew in engine; and file system and terminal in host. What
  a theorem needs of them is a premise of it, with a concrete instance in its witness.

  \<^bold>\<open>Bounds.\<close> Loops of the code run over lists and are structural recursions, or recursions on the
  length of a text with a measure. The readers of JSON texts in Go_Json and Json_Text take fuel,
  the number of bytes left; each step takes at least one, and json_chars_fuel, json_elements_fuel
  and json_value_fuel show that more fuel changes nothing. A document may nest ten thousand
  levels, the bound of the decoder. The digits of a number are counted by the number itself plus one,
  and digits_of_value shows that this is enough.

  \<^bold>\<open>Not modelled.\<close> What the template engine makes of a template and its data; the body of a
  redirect; conditional and partial downloads of net/http; logs and the recovery from panics;
  main.go, which only calls Main, and the embedding of static files. Types and default values of
  columns are left out of the migrations, and so is the place an instant is printed for: one
  format serves all instants of an answer.
\<close>

end
